(* ===== verification/Prelude.thy ===== *)
theory Prelude
  imports Main "HOL-Library.Char_ord" "HOL-Library.List_Lexorder"
begin

text \<open>
  Shared vocabulary of the development: Python's truthiness of optional strings, its string
  tests, the two query shapes the services use on their tables (\<open>ORDER BY k DESC LIMIT 1\<close> and
  an in-place update of the rows that match a key), and decimal rendering of integers.
  Time is an \<open>int\<close> of microseconds since the epoch.
\<close>

named_theorems row_simps \<open>field equations of the row constructors\<close>
named_theorems inv_intros \<open>preservation lemmas of the component invariants\<close>

type_synonym time = int
type_synonym digest = string

subsection \<open>Python idioms\<close>

text \<open>\<open>if x\<close> for a \<open>str | None\<close>: neither \<open>None\<close> nor the empty string.\<close>

fun truthy :: "string option \<Rightarrow> bool" where
  "truthy None = False"
| "truthy (Some s) = (s \<noteq> [])"

text \<open>\<open>x or d\<close> for a \<open>str | None\<close>.\<close>

definition or_str :: "string option \<Rightarrow> string \<Rightarrow> string" where
  "or_str x d = (case x of None \<Rightarrow> d | Some s \<Rightarrow> if s = [] then d else s)"

lemma or_str_simps [simp]:
  "or_str None d = d" "or_str (Some []) d = d" "s \<noteq> [] \<Longrightarrow> or_str (Some s) d = s"
  by (simp_all add: or_str_def)

text \<open>\<open>x or y\<close> for two \<open>str | None\<close>.\<close>

definition or_opt :: "string option \<Rightarrow> string option \<Rightarrow> string option" where
  "or_opt x y = (if truthy x then x else y)"

text \<open>\<open>s.startswith(p)\<close> and \<open>s.endswith(p)\<close>.\<close>

definition starts_with :: "string \<Rightarrow> string \<Rightarrow> bool" where
  "starts_with s p \<longleftrightarrow> take (length p) s = p"

definition ends_with :: "string \<Rightarrow> string \<Rightarrow> bool" where
  "ends_with s p \<longleftrightarrow> length p \<le> length s \<and> drop (length s - length p) s = p"

lemma starts_with_iff: "starts_with s p \<longleftrightarrow> (\<exists>t. s = p @ t)"
  unfolding starts_with_def by (metis append_eq_conv_conj append_take_drop_id)

lemma ends_with_iff: "ends_with s p \<longleftrightarrow> (\<exists>t. s = t @ p)"
  unfolding ends_with_def
  by (metis append_eq_conv_conj append_take_drop_id diff_add_inverse2 le_add2 length_append)

lemma starts_with_refl [simp]: "starts_with s s"
  by (simp add: starts_with_def)

lemma starts_with_trans: "starts_with a b \<Longrightarrow> starts_with b c \<Longrightarrow> starts_with a c"
  by (auto simp: starts_with_iff)

lemma starts_with_linear: "starts_with s p \<Longrightarrow> starts_with s q \<Longrightarrow> starts_with p q \<or> starts_with q p"
  by (auto simp: starts_with_iff append_eq_append_conv2)

subsection \<open>Queries\<close>

text \<open>\<open>ORDER BY f DESC LIMIT 1\<close>; among equal keys the row inserted first.\<close>

fun latest_by :: "('a \<Rightarrow> 'k::linorder) \<Rightarrow> 'a list \<Rightarrow> 'a option" where
  "latest_by f [] = None"
| "latest_by f (x # xs) =
     (case latest_by f xs of None \<Rightarrow> Some x
      | Some y \<Rightarrow> if f x < f y then Some y else Some x)"

lemma latest_by_None [simp]: "latest_by f xs = None \<longleftrightarrow> xs = []"
  by (cases xs) (auto split: option.splits)

lemma latest_by_in: "latest_by f xs = Some x \<Longrightarrow> x \<in> set xs"
  by (induction xs arbitrary: x) (auto split: option.splits if_splits)

lemma latest_by_max: "latest_by f xs = Some x \<Longrightarrow> y \<in> set xs \<Longrightarrow> f y \<le> f x"
proof (induction xs arbitrary: x y)
  case (Cons a xs)
  then show ?case
  proof (cases "latest_by f xs")
    case (Some z)
    with Cons have "\<forall>y \<in> set xs. f y \<le> f z" by blast
    with Cons.prems Some show ?thesis by (auto split: if_splits)
  qed auto
qed simp

lemma latest_by_snoc:
  "(\<And>y. y \<in> set xs \<Longrightarrow> f y < f x) \<Longrightarrow> latest_by f (xs @ [x]) = Some x"
  by (induction xs) auto

lemma latest_by_map: "(\<And>x. f (g x) = f x) \<Longrightarrow> latest_by f (map g xs) = map_option g (latest_by f xs)"
  by (induction xs) (auto split: option.splits)

text \<open>Mutation of the rows that satisfy a test.\<close>

definition update_rows :: "('a \<Rightarrow> bool) \<Rightarrow> ('a \<Rightarrow> 'a) \<Rightarrow> 'a list \<Rightarrow> 'a list" where
  "update_rows p g xs = map (\<lambda>x. if p x then g x else x) xs"

lemma update_rows_Nil [simp]: "update_rows p g [] = []"
  by (simp add: update_rows_def)

lemma update_rows_Cons [simp]: "update_rows p g (x # xs) = (if p x then g x else x) # update_rows p g xs"
  by (simp add: update_rows_def)

lemma length_update_rows [simp]: "length (update_rows p g xs) = length xs"
  by (simp add: update_rows_def)

lemma set_update_rows: "set (update_rows p g xs) = (\<lambda>x. if p x then g x else x) ` set xs"
  by (simp add: update_rows_def)

lemma map_update_rows: "(\<And>x. f (g x) = f x) \<Longrightarrow> map f (update_rows p g xs) = map f xs"
  by (simp add: update_rows_def)

lemma find_Some_in: "find p xs = Some x \<Longrightarrow> x \<in> set xs \<and> p x"
  by (induction xs) (auto split: if_splits)

text \<open>A separator that occurs in neither part splits a text in only one way.\<close>

lemma mark_cancel: "a \<notin> set u \<Longrightarrow> a \<notin> set v \<Longrightarrow> u @ a # s = v @ a # t \<Longrightarrow> u = v \<and> s = t"
  by (induction u arbitrary: v) (auto simp: Cons_eq_append_conv)

subsection \<open>Decimal rendering of integers\<close>

fun show_nat :: "nat \<Rightarrow> string" where
  "show_nat n = (if n < 10 then [char_of (48 + n)] else show_nat (n div 10) @ [char_of (48 + n mod 10)])"

declare show_nat.simps [simp del]

definition show_int :: "int \<Rightarrow> string" where
  "show_int i = (if i < 0 then CHR ''-'' # show_nat (nat (- i)) else show_nat (nat i))"

definition is_digit :: "char \<Rightarrow> bool" where
  "is_digit c \<longleftrightarrow> 48 \<le> (of_char c :: nat) \<and> (of_char c :: nat) < 58"

definition read_nat :: "string \<Rightarrow> nat" where
  "read_nat s = foldl (\<lambda>a c. 10 * a + ((of_char c :: nat) - 48)) 0 s"

lemma of_char_digit: "d < 10 \<Longrightarrow> (of_char (char_of (48 + d) :: char) :: nat) = 48 + d"
  by simp

lemma read_show_nat [simp]: "read_nat (show_nat n) = n"
proof (induction n rule: show_nat.induct)
  case (1 n)
  show ?case
  proof (cases "n < 10")
    case True
    then show ?thesis by (subst show_nat.simps) (simp add: read_nat_def)
  next
    case False
    have "read_nat (show_nat n) = 10 * read_nat (show_nat (n div 10)) + n mod 10"
      using False by (subst show_nat.simps) (simp add: read_nat_def)
    also have "\<dots> = n" using "1.IH" False by simp
    finally show ?thesis .
  qed
qed

lemma show_nat_digits: "\<forall>c \<in> set (show_nat n). is_digit c"
proof (induction n rule: show_nat.induct)
  case (1 n)
  then show ?case by (subst show_nat.simps) (auto simp: is_digit_def)
qed

lemma show_nat_nonempty [simp]: "show_nat n \<noteq> []"
  by (subst show_nat.simps) simp

lemma show_nat_inject [simp]: "show_nat m = show_nat n \<longleftrightarrow> m = n"
  by (metis read_show_nat)

lemma minus_not_digit [simp]: "\<not> is_digit (CHR ''-'')"
  by (simp add: is_digit_def)

lemma show_nat_not_minus [simp]: "show_nat n \<noteq> CHR ''-'' # s"
  using show_nat_digits [of n] by (metis list.set_intros(1) minus_not_digit)

lemma show_int_inject [simp]: "show_int i = show_int j \<longleftrightarrow> i = j"
proof -
  have "CHR ''-'' # s \<noteq> show_nat n" for s n by (metis show_nat_not_minus)
  then show ?thesis by (auto simp: show_int_def split: if_splits)
qed

subsection \<open>Timestamps\<close>

text \<open>
  \<open>datetime.isoformat()\<close> of an aware UTC timestamp: the proleptic Gregorian date of the day
  number, the time of day, and the microseconds only when they are not zero.
\<close>

definition pad :: "nat \<Rightarrow> string \<Rightarrow> string" where
  "pad n s = replicate (n - length s) (CHR ''0'') @ s"

definition civil_from_days :: "int \<Rightarrow> int \<times> int \<times> int" where
  "civil_from_days days =
     (let z = days + 719468;
          era = z div 146097;
          doe = z mod 146097;
          yoe = (doe - doe div 1460 + doe div 36524 - doe div 146096) div 365;
          doy = doe - (365 * yoe + yoe div 4 - yoe div 100);
          mp = (5 * doy + 2) div 153;
          d = doy - (153 * mp + 2) div 5 + 1;
          m = (if mp < 10 then mp + 3 else mp - 9);
          y = yoe + era * 400
      in (if m \<le> 2 then y + 1 else y, m, d))"

definition isoformat :: "time \<Rightarrow> string" where
  "isoformat t =
     (let secs = t div 1000000; us = t mod 1000000; sod = secs mod 86400;
          (y, m, d) = civil_from_days (secs div 86400);
          two = (\<lambda>i. pad 2 (show_int i))
      in pad 4 (show_int y) @ ''-'' @ two m @ ''-'' @ two d @ ''T'' @ two (sod div 3600) @ '':'' @
         two (sod mod 3600 div 60) @ '':'' @ two (sod mod 60) @
         (if us = 0 then [] else ''.'' @ pad 6 (show_int us)) @ ''+00:00'')"

end
