(* ===== verification/Canonical.thy ===== *)
theory Canonical
  imports Prelude "HOL-Library.Multiset"
begin

text \<open>
  Canonical serialisation (\<open>services/canonical.py\<close>): \<open>canonical_json\<close> and \<open>sha256_json\<close>.
  Every evidence hash of the system is a digest of this text. SHA-256 itself is the parameter
  \<open>sha\<close>; the serialisation below it is modelled in full, and shown to lose nothing but the
  order of dictionary keys, so that a digest binds every field of its payload.
  A string is the list of its UTF-8 bytes, on which Python's code-point order and escaping
  agree with the byte order and escaping used here. Payloads hold no floats.
\<close>

datatype json =
    JNull
  | JBool bool
  | JNum int
  | JStr string
  | JArr "json list"
  | JObj "(string \<times> json) list"

abbreviation jopt :: "string option \<Rightarrow> json" where
  "jopt x \<equiv> (case x of None \<Rightarrow> JNull | Some s \<Rightarrow> JStr s)"

definition hex_digit :: "nat \<Rightarrow> char" where
  "hex_digit n = (if n < 10 then char_of (48 + n) else char_of (87 + n))"

text \<open>\<open>json.dumps\<close> with \<open>ensure_ascii=False\<close> escapes the quote, the backslash and the control
  characters; the last have short forms for five of them.\<close>

definition escape_char :: "char \<Rightarrow> string" where
  "escape_char c =
     (if c = CHR 0x22 then [CHR 0x5C, CHR 0x22]
      else if c = CHR 0x5C then [CHR 0x5C, CHR 0x5C]
      else if c = CHR 0x0A then [CHR 0x5C, CHR ''n'']
      else if c = CHR 0x0D then [CHR 0x5C, CHR ''r'']
      else if c = CHR 0x09 then [CHR 0x5C, CHR ''t'']
      else if c = CHR 0x0C then [CHR 0x5C, CHR ''f'']
      else if c = CHR 0x08 then [CHR 0x5C, CHR ''b'']
      else if (of_char c :: nat) < 32 then
        CHR 0x5C # ''u00'' @ [hex_digit (of_char c div 16), hex_digit (of_char c mod 16)]
      else [c])"

definition json_string :: "string \<Rightarrow> string" where
  "json_string s = CHR 0x22 # concat (map escape_char s) @ [CHR 0x22]"

definition comma_sep :: "string list \<Rightarrow> string" where
  "comma_sep xs = (case xs of [] \<Rightarrow> [] | y # ys \<Rightarrow> y @ concat (map (\<lambda>z. CHR '','' # z) ys))"

fun dumps :: "json \<Rightarrow> string" where
  "dumps JNull = ''null''"
| "dumps (JBool b) = (if b then ''true'' else ''false'')"
| "dumps (JNum i) = show_int i"
| "dumps (JStr s) = json_string s"
| "dumps (JArr xs) = ''['' @ comma_sep (map dumps xs) @ '']''"
| "dumps (JObj kvs) =
     ''{'' @ comma_sep (map (\<lambda>(k, v). json_string k @ CHR '':'' # dumps v) kvs) @ ''}''"

text \<open>\<open>sort_keys=True\<close>, at every level.\<close>

fun sort_keys :: "json \<Rightarrow> json" where
  "sort_keys (JArr xs) = JArr (map sort_keys xs)"
| "sort_keys (JObj kvs) = JObj (sort_key fst (map (\<lambda>(k, v). (k, sort_keys v)) kvs))"
| "sort_keys v = v"

definition canonical_json :: "json \<Rightarrow> string" where
  "canonical_json p = dumps (sort_keys p)"

definition sha256_json :: "(string \<Rightarrow> digest) \<Rightarrow> json \<Rightarrow> digest" where
  "sha256_json sha p = sha (canonical_json p)"

subsection \<open>Strings read back\<close>

definition hex_value :: "char \<Rightarrow> nat" where
  "hex_value c = (if (of_char c :: nat) < 58 then of_char c - 48 else of_char c - 87)"

text \<open>The first character of a string body and what is left after it.\<close>

fun unescape :: "string \<Rightarrow> char \<times> string" where
  "unescape (a # b # s) =
     (if a \<noteq> CHR 0x5C then (a, b # s)
      else if b = CHR ''u'' then
        (char_of (16 * hex_value (s ! 2) + hex_value (s ! 3)), drop 4 s)
      else if b = CHR ''n'' then (CHR 0x0A, s)
      else if b = CHR ''r'' then (CHR 0x0D, s)
      else if b = CHR ''t'' then (CHR 0x09, s)
      else if b = CHR ''f'' then (CHR 0x0C, s)
      else if b = CHR ''b'' then (CHR 0x08, s)
      else (b, s))"
| "unescape [a] = (a, [])"
| "unescape [] = (CHR 0x00, [])"

lemma hex_value_digit: "n < 16 \<Longrightarrow> hex_value (hex_digit n) = n"
  by (simp add: hex_value_def hex_digit_def take_bit_eq_mod)

lemma unescape_escape: "unescape (escape_char c @ u) = (c, u)"
proof (cases "c \<in> {CHR 0x22, CHR 0x5C, CHR 0x0A, CHR 0x0D, CHR 0x09, CHR 0x0C, CHR 0x08}")
  case True
  then show ?thesis by (auto simp: escape_char_def)
next
  case False
  show ?thesis
  proof (cases "(of_char c :: nat) < 32")
    case True
    have "16 * ((of_char c :: nat) div 16) + of_char c mod 16 = of_char c" by simp
    then have "char_of (16 * ((of_char c :: nat) div 16) + of_char c mod 16) = c"
      by (simp only: char_of_char)
    with False True show ?thesis
      by (simp add: escape_char_def hex_value_digit)
  next
    case False
    with \<open>c \<notin> _\<close> have "escape_char c = [c]" "c \<noteq> CHR 0x5C" by (simp_all add: escape_char_def)
    then show ?thesis by (cases u) simp_all
  qed
qed

lemma escape_char_cancel: "escape_char c @ u = escape_char d @ v \<Longrightarrow> c = d \<and> u = v"
  by (metis unescape_escape prod.inject)

lemma json_string_cancel:
  assumes "json_string s @ u = json_string t @ v"
  shows "s = t \<and> u = v"
proof -
  have first: "escape_char c \<noteq> CHR 0x22 # r" "CHR 0x22 # r \<noteq> escape_char c" for c r
    by (auto simp: escape_char_def split: if_splits)
  have ne: "escape_char c \<noteq> []" for c
    by (simp add: escape_char_def)
  have "concat (map escape_char s) @ CHR 0x22 # u = concat (map escape_char t) @ CHR 0x22 # v \<Longrightarrow>
      s = t \<and> u = v"
  proof (induction s arbitrary: t)
    case Nil
    then show ?case
      using first ne by (cases t) (auto simp: Cons_eq_append_conv append_eq_Cons_conv)
  next
    case (Cons c s)
    show ?case
    proof (cases t)
      case Nil
      with Cons.prems show ?thesis
        using first ne by (auto simp: append_eq_Cons_conv)
    next
      case (Cons d t')
      with Cons.prems have "c = d" and
        "concat (map escape_char s) @ CHR 0x22 # u = concat (map escape_char t') @ CHR 0x22 # v"
        using escape_char_cancel [of c "concat (map escape_char s) @ CHR 0x22 # u" d] by auto
      with Cons Cons.IH show ?thesis by blast
    qed
  qed
  with assms show ?thesis by (simp add: json_string_def)
qed

subsection \<open>Values read back\<close>

text \<open>What may follow a value inside a document: nothing, or a character that ends it. Numbers
  need it, since one may be a proper prefix of another.\<close>

definition ends_value :: "string \<Rightarrow> bool" where
  "ends_value u \<longleftrightarrow> (case u of [] \<Rightarrow> True | c # _ \<Rightarrow> c \<in> {CHR '','', CHR '']'', CHR ''}''})"

lemma ends_value_simps [simp]:
  "ends_value []" "ends_value (CHR '','' # u)" "ends_value (CHR '']'' # u)" "ends_value (CHR ''}'' # u)"
  by (simp_all add: ends_value_def)

lemma digits_cancel:
  "\<forall>c \<in> set s. is_digit c \<Longrightarrow> \<forall>c \<in> set t. is_digit c \<Longrightarrow> ends_value u \<Longrightarrow> ends_value v \<Longrightarrow>
   s @ u = t @ v \<Longrightarrow> s = t \<and> u = v"
proof (induction s arbitrary: t)
  case Nil
  then show ?case
    by (cases t) (auto simp: ends_value_def is_digit_def)
next
  case (Cons c s)
  then show ?case
    by (cases t) (auto simp: ends_value_def is_digit_def split: list.splits)
qed

lemma show_int_cancel:
  assumes "show_int i @ u = show_int j @ v" "ends_value u" "ends_value v"
  shows "i = j \<and> u = v"
proof -
  have pos: "show_nat m @ u = show_nat n @ v \<Longrightarrow> m = n \<and> u = v" for m n
    using digits_cancel [of "show_nat m" "show_nat n" u v] show_nat_digits assms(2,3) by auto
  have neg: "CHR ''-'' # s \<noteq> show_nat n @ w" for s n w
    using show_nat_digits [of n] minus_not_digit show_nat_nonempty [of n]
    by (metis append_Cons append_is_Nil_conv list.sel(1) list.set_sel(1) hd_append2)
  show ?thesis
  proof (cases "i < 0"; cases "j < 0")
    assume "i < 0" "j < 0"
    with assms(1) pos [of "nat (- i)" "nat (- j)"] show ?thesis by (auto simp: show_int_def)
  next
    assume "i < 0" "\<not> j < 0"
    with assms(1) neg show ?thesis by (auto simp: show_int_def)
  next
    assume "\<not> i < 0" "j < 0"
    with assms(1) neg [symmetric] show ?thesis by (auto simp: show_int_def)
  next
    assume "\<not> i < 0" "\<not> j < 0"
    with assms(1) pos [of "nat i" "nat j"] show ?thesis by (auto simp: show_int_def)
  qed
qed

text \<open>The elements of a bracketed list read back one by one, given that each element does.\<close>

lemma comma_sep_cancel:
  assumes elem: "\<And>x y u v. x \<in> set xs \<Longrightarrow> y \<in> set ys \<Longrightarrow> f x @ u = g y @ v \<Longrightarrow> ends_value u \<Longrightarrow>
      ends_value v \<Longrightarrow> R x y \<and> u = v"
    and first: "\<And>x. x \<in> set xs \<Longrightarrow> f x \<noteq> [] \<and> hd (f x) \<noteq> b" "\<And>y. y \<in> set ys \<Longrightarrow> g y \<noteq> [] \<and> hd (g y) \<noteq> b"
    and b: "b = CHR '']'' \<or> b = CHR ''}''"
    and eq: "comma_sep (map f xs) @ b # u = comma_sep (map g ys) @ b # v"
  shows "list_all2 R xs ys \<and> u = v"
proof -
  have ev: "ends_value (b # w)" for w using b by auto
  have nb: "x \<in> set xs \<Longrightarrow> f x \<noteq> b # r" "y \<in> set ys \<Longrightarrow> b # r \<noteq> g y" for x y r
    using first by (metis list.sel(1))+
  have tail: "list_all2 R xs' ys' \<and> u = v"
    if "set xs' \<subseteq> set xs" "set ys' \<subseteq> set ys"
      "concat (map (\<lambda>z. CHR '','' # f z) xs') @ b # u = concat (map (\<lambda>z. CHR '','' # g z) ys') @ b # v"
    for xs' ys'
    using that
  proof (induction xs' arbitrary: ys')
    case Nil
    with b show ?case by (cases ys') auto
  next
    case (Cons x xs')
    show ?case
    proof (cases ys')
      case Nil
      with Cons.prems b show ?thesis by auto
    next
      case (Cons y ys'')
      let ?u = "concat (map (\<lambda>z. CHR '','' # f z) xs') @ b # u"
      let ?v = "concat (map (\<lambda>z. CHR '','' # g z) ys'') @ b # v"
      have "ends_value ?u" "ends_value ?v"
        using ev by (cases xs'; simp) (cases ys''; use ev in simp)
      then have "R x y \<and> ?u = ?v"
        using Cons.prems Cons by (intro elem) auto
      with Cons.IH [of ys''] Cons.prems Cons show ?thesis by auto
    qed
  qed
  show ?thesis
  proof (cases xs)
    case Nil
    then show ?thesis
      using eq first(2) nb(2) by (cases ys) (auto simp: comma_sep_def append_eq_Cons_conv Cons_eq_append_conv)
  next
    case (Cons x xs')
    note xs = Cons
    show ?thesis
    proof (cases ys)
      case Nil
      then show ?thesis
        using eq first(1) nb(1) xs by (auto simp: comma_sep_def append_eq_Cons_conv Cons_eq_append_conv)
    next
      case (Cons y ys')
      let ?u = "concat (map (\<lambda>z. CHR '','' # f z) xs') @ b # u"
      let ?v = "concat (map (\<lambda>z. CHR '','' # g z) ys') @ b # v"
      have "ends_value ?u" "ends_value ?v"
        using ev by (cases xs'; simp) (cases ys'; use ev in simp)
      moreover have "f x @ ?u = g y @ ?v"
        using eq xs Cons by (simp add: comma_sep_def comp_def)
      ultimately have "R x y \<and> ?u = ?v"
        using xs Cons by (intro elem) auto
      moreover have "list_all2 R xs' ys' \<and> u = v" if "?u = ?v"
        using that xs Cons by (intro tail) auto
      ultimately show ?thesis using xs Cons by auto
    qed
  qed
qed

lemma show_int_nonempty [simp]: "show_int i \<noteq> []"
  by (simp add: show_int_def)

lemma show_int_first [simp]:
  "\<not> is_digit c \<Longrightarrow> c \<noteq> CHR ''-'' \<Longrightarrow> hd (show_int i) \<noteq> c"
  "\<not> is_digit c \<Longrightarrow> c \<noteq> CHR ''-'' \<Longrightarrow> c \<noteq> hd (show_int i)"
  using show_nat_digits by (auto simp: show_int_def) (metis list.set_sel(1) show_nat_nonempty)+

lemma dumps_first:
  "dumps a \<noteq> [] \<and> hd (dumps a) \<notin> {CHR '','', CHR '']'', CHR ''}''}"
  by (cases a) (auto simp: json_string_def is_digit_def)

text \<open>The first character tells the kind of value.\<close>

lemma dumps_kind:
  assumes "dumps a @ u = dumps b @ v"
  shows "case a of JNull \<Rightarrow> b = JNull | JBool x \<Rightarrow> b = JBool x | JNum i \<Rightarrow> (\<exists>j. b = JNum j)
    | JStr s \<Rightarrow> (\<exists>t. b = JStr t) | JArr xs \<Rightarrow> (\<exists>ys. b = JArr ys) | JObj kvs \<Rightarrow> (\<exists>ls. b = JObj ls)"
proof -
  have hd: "hd (dumps a) = hd (dumps b)"
    using assms dumps_first by (metis hd_append2)
  then show ?thesis
    by (cases a; cases b) (auto simp: json_string_def is_digit_def split: if_splits)
qed

lemma dumps_cancel:
  "dumps a @ u = dumps b @ v \<Longrightarrow> ends_value u \<Longrightarrow> ends_value v \<Longrightarrow> a = b \<and> u = v"
proof (induction a arbitrary: b u v)
  case JNull
  then show ?case using dumps_kind [OF JNull.prems(1)] by auto
next
  case (JBool x)
  then show ?case using dumps_kind [OF JBool.prems(1)] by auto
next
  case (JNum i)
  then obtain j where "b = JNum j" using dumps_kind [OF JNum.prems(1)] by auto
  with JNum show ?case using show_int_cancel [of i u j v] by simp
next
  case (JStr s)
  then obtain t where "b = JStr t" using dumps_kind [OF JStr.prems(1)] by auto
  with JStr show ?case using json_string_cancel [of s u t v] by simp
next
  case (JArr xs)
  then obtain ys where b: "b = JArr ys" using dumps_kind [OF JArr.prems(1)] by auto
  have "list_all2 (=) xs ys \<and> u = v"
  proof (rule comma_sep_cancel [where f = dumps and g = dumps and b = "CHR '']''"])
    fix x y u v
    assume "x \<in> set xs" "dumps x @ u = dumps y @ v" "ends_value u" "ends_value v"
    then show "x = y \<and> u = v" by (rule JArr.IH)
  next
    show "dumps x \<noteq> [] \<and> hd (dumps x) \<noteq> CHR '']''" for x using dumps_first [of x] by simp
    show "dumps x \<noteq> [] \<and> hd (dumps x) \<noteq> CHR '']''" for x using dumps_first [of x] by simp
  qed (use JArr.prems b in simp_all)
  with b show ?case by (simp add: list.rel_eq)
next
  case (JObj kvs)
  then obtain ls where b: "b = JObj ls" using dumps_kind [OF JObj.prems(1)] by auto
  let ?f = "\<lambda>(k, v). json_string k @ CHR '':'' # dumps v"
  have "list_all2 (=) kvs ls \<and> u = v"
  proof (rule comma_sep_cancel [where f = ?f and g = ?f and b = "CHR ''}''"])
    fix x y u v
    assume x: "x \<in> set kvs" and eq: "?f x @ u = ?f y @ v" and ev: "ends_value u" "ends_value v"
    obtain k a l c where xy: "x = (k, a)" "y = (l, c)" by (cases x; cases y)
    with eq have "k = l" "dumps a @ u = dumps c @ v"
      using json_string_cancel [of k "CHR '':'' # dumps a @ u" l "CHR '':'' # dumps c @ v"] by auto
    moreover have "a \<in> Basic_BNFs.snds x" using xy by simp
    ultimately show "x = y \<and> u = v"
      using JObj.IH [OF x] ev xy by blast
  qed (use JObj.prems b in \<open>auto simp: json_string_def simp del: dumps.simps(1-5)\<close>)
  with b show ?case by (simp add: list.rel_eq)
qed

lemma dumps_inject: "dumps a = dumps b \<longleftrightarrow> a = b"
  using dumps_cancel [of a "[]" b "[]"] by auto

lemma canonical_json_inject: "canonical_json p = canonical_json q \<longleftrightarrow> sort_keys p = sort_keys q"
  by (simp add: canonical_json_def dumps_inject)

subsection \<open>Dictionaries\<close>

lemma jopt_eq [simp]: "jopt x = jopt y \<longleftrightarrow> x = y"
  by (auto split: option.splits)

lemma sort_keys_jopt [simp]: "sort_keys (jopt x) = jopt x"
  by (auto split: option.splits)

text \<open>Python's equality of two dictionaries: the same keys with equal values.\<close>

definition dict_of :: "(string \<times> json) list \<Rightarrow> string \<rightharpoonup> json" where
  "dict_of kvs k = map_option sort_keys (map_of kvs k)"

lemma dict_of_eq: "dict_of kvs = map_of (map (\<lambda>(k, v). (k, sort_keys v)) kvs)"
  by (rule ext) (induction kvs; auto simp: dict_of_def)

lemma distinct_alist_determined:
  "distinct (map fst xs) \<Longrightarrow> xs = map (\<lambda>k. (k, the (map_of xs k))) (map fst xs)"
  by (auto simp: comp_def map_of_is_SomeI intro!: map_idI [symmetric])

lemma sort_key_fst_eq_iff:
  fixes xs ys :: "('a::linorder \<times> 'b) list"
  assumes "distinct (map fst xs)" "distinct (map fst ys)"
  shows "sort_key fst xs = sort_key fst ys \<longleftrightarrow> map_of xs = map_of ys"
proof -
  have dist: "distinct (map fst (sort_key fst zs))" and
    mo: "map_of (sort_key fst zs) = map_of zs"
    if "distinct (map fst zs)" for zs :: "('a \<times> 'b) list"
  proof -
    have "mset (map fst (sort_key fst zs)) = mset (map fst zs)" by simp
    then show d: "distinct (map fst (sort_key fst zs))"
      using that by (metis mset_eq_imp_distinct_iff)
    then show "map_of (sort_key fst zs) = map_of zs"
      using that by (simp add: map_of_inject_set)
  qed
  show ?thesis
  proof
    assume "map_of xs = map_of ys"
    then have m: "map_of (sort_key fst xs) = map_of (sort_key fst ys)"
      using assms by (simp add: mo)
    have "set (map fst (sort_key fst xs)) = set (map fst (sort_key fst ys))"
      using \<open>map_of xs = map_of ys\<close> by (simp add: dom_map_of_conv_image_fst [symmetric])
    then have "map fst (sort_key fst xs) = map fst (sort_key fst ys)"
      using dist assms by (intro sorted_distinct_set_unique) simp_all
    then show "sort_key fst xs = sort_key fst ys"
      using distinct_alist_determined [OF dist] assms m by metis
  qed (metis assms mo)
qed

lemma fst_map_sort_keys [simp]: "map fst (map (\<lambda>(k, v). (k, sort_keys v)) kvs) = map fst kvs"
  by (induction kvs) auto

lemma canonical_json_dict:
  assumes "distinct (map fst a)" "distinct (map fst b)"
  shows "canonical_json (JObj a) = canonical_json (JObj b) \<longleftrightarrow> dict_of a = dict_of b"
  using assms by (simp add: canonical_json_inject sort_key_fst_eq_iff dict_of_eq del: map_map)

text \<open>One direction needs no uniqueness: stable sorting keeps what a lookup finds first.\<close>

lemma map_of_filter: "map_of xs k = map_option snd (find (\<lambda>p. fst p = k) xs)"
  by (induction xs) auto

lemma find_filter: "find P xs = (case filter P xs of [] \<Rightarrow> None | x # _ \<Rightarrow> Some x)"
  by (induction xs) auto

lemma map_of_sort_key: "map_of (sort_key fst xs) = map_of xs"
  by (rule ext) (simp add: map_of_filter find_filter sort_key_stable)

lemma canonical_json_dictD:
  assumes "canonical_json (JObj a) = canonical_json (JObj b)"
  shows "dict_of a = dict_of b"
proof -
  from assms have "sort_key fst (map (\<lambda>(k, v). (k, sort_keys v)) a) = sort_key fst (map (\<lambda>(k, v). (k, sort_keys v)) b)"
    by (simp add: canonical_json_inject)
  then show ?thesis unfolding dict_of_eq by (metis map_of_sort_key)
qed

text \<open>
  The form the clients use: two records rendered with the same key list have equal digests
  only if they agree on every field.
\<close>

lemma sha256_json_fields:
  assumes "inj sha" "sha256_json sha (JObj (zip ks vs)) = sha256_json sha (JObj (zip ks ws))"
    and "distinct ks" "length vs = length ks" "length ws = length ks"
  shows "map sort_keys vs = map sort_keys ws"
proof -
  have "canonical_json (JObj (zip ks vs)) = canonical_json (JObj (zip ks ws))"
    using assms(1,2) by (simp add: sha256_json_def inj_eq)
  then have "dict_of (zip ks vs) = dict_of (zip ks ws)"
    using assms(3-5) by (simp add: canonical_json_dict)
  then have eq: "map_option sort_keys (map_of (zip ks vs) k) = map_option sort_keys (map_of (zip ks ws) k)" for k
    by (metis dict_of_def)
  show ?thesis
  proof (rule nth_equalityI)
    fix i
    assume i: "i < length (map sort_keys vs)"
    then have "map_of (zip ks vs) (ks ! i) = Some (vs ! i)" "map_of (zip ks ws) (ks ! i) = Some (ws ! i)"
      using assms(3-5) by (auto simp: map_of_zip_nth)
    with eq [of "ks ! i"] i assms(4,5) show "map sort_keys vs ! i = map sort_keys ws ! i" by simp
  qed (use assms in simp)
qed

subsection \<open>The property of the component\<close>

text \<open>
  For a collision-free digest, two dictionaries with unique keys have the same
  \<open>sha256_json\<close> exactly when they are equal as dictionaries: key order never matters, and any
  change of a key or of a value, at any depth, changes the hash.
\<close>

theorem sha256_json_dict:
  assumes "inj sha" "distinct (map fst a)" "distinct (map fst b)"
  shows "sha256_json sha (JObj a) = sha256_json sha (JObj b) \<longleftrightarrow> dict_of a = dict_of b"
  using assms by (simp add: sha256_json_def inj_eq canonical_json_dict)

theorem sha256_json_dict_witness:
  "sha256_json id (JObj [(''b'', JNum 1), (''a'', JStr ''x'')]) =
     sha256_json id (JObj [(''a'', JStr ''x''), (''b'', JNum 1)])
   \<and> sha256_json id (JObj [(''a'', JStr ''x'')]) \<noteq> sha256_json id (JObj [(''a'', JStr ''y'')])"
proof -
  have "dict_of [(''b'', JNum 1), (''a'', JStr ''x'')] = dict_of [(''a'', JStr ''x''), (''b'', JNum 1)]"
    by (auto simp: dict_of_eq fun_eq_iff)
  moreover have "dict_of [(''a'', JStr ''x'')] ''a'' \<noteq> dict_of [(''a'', JStr ''y'')] ''a''"
    by (simp add: dict_of_eq)
  ultimately show ?thesis
    using sha256_json_dict [of id "[(''b'', JNum 1), (''a'', JStr ''x'')]" "[(''a'', JStr ''x''), (''b'', JNum 1)]"]
      sha256_json_dict [of id "[(''a'', JStr ''x'')]" "[(''a'', JStr ''y'')]"]
    by force
qed

end
