(* ===== verification/Receipt.thy ===== *)
theory Receipt
  imports Canonical
begin

text \<open>
  Authorization receipts (\<open>models/capability_action_receipt.py\<close>) and the allocation of their
  Merkle leaf positions (\<open>security/merkle_ops.py\<close>). A receipt row is written once, when an
  action is allowed; \<open>content_hash\<close> is recomputed from the stored columns by
  \<open>receipt_canonical\<close>. The COSE signature of the same canonical form is made by a third-party
  library and is an opaque column. The lemmas show which columns the hash binds for each schema
  version, and that no committed leaf index is ever issued twice.
\<close>

subsection \<open>The row\<close>

record receipt =
  ar_receipt_id :: string
  ar_execution_id :: string
  ar_mount_id :: string
  ar_token_id :: string
  ar_principal :: string
  ar_action :: string
  ar_resource :: "string option"
  ar_target_ref :: "string option"
  ar_envelope_digest :: "string option"
  ar_receipt_schema_version :: "int option"
  ar_decision :: string
  ar_reason :: string
  ar_actioned_at :: time
  ar_caller_spiffe_id :: "string option"
  ar_executor_spiffe_id :: "string option"
  ar_eei_id :: "string option"
  ar_profile_id :: "string option"
  ar_lease_id :: "string option"
  ar_operator_id :: "string option"
  ar_caller_cert_sha256 :: "string option"
  ar_capability_id :: "string option"
  ar_trust_domain :: "string option"
  ar_svid_not_before :: "string option"
  ar_svid_not_after :: "string option"
  ar_policy_version :: "string option"
  ar_biscuit_token_sha256 :: "string option"
  ar_signed_receipt_cose :: "string option"
  ar_merkle_leaf_index :: "int option"
  ar_content_hash :: digest
  ar_pgl_anchor_id :: "string option"
  ar_pgl_anchor_status :: "string option"
  ar_pgl_event_hash :: "string option"
  ar_created_at :: time

definition RECEIPT_SCHEMA_V1 :: int where "RECEIPT_SCHEMA_V1 = 1"
definition RECEIPT_SCHEMA_V2 :: int where "RECEIPT_SCHEMA_V2 = 2"

subsection \<open>The canonical form\<close>

text \<open>\<open>row.receipt_schema_version or RECEIPT_SCHEMA_V1\<close>: a missing or zero version is version 1.\<close>

definition schema_version :: "receipt \<Rightarrow> int" where
  "schema_version row = (case ar_receipt_schema_version row of
      None \<Rightarrow> RECEIPT_SCHEMA_V1
    | Some v \<Rightarrow> if v = 0 then RECEIPT_SCHEMA_V1 else v)"

definition receipt_fields :: "receipt \<Rightarrow> json \<Rightarrow> (string \<times> json) list" where
  "receipt_fields row res =
    [(''execution_id'', JStr (ar_execution_id row)),
     (''mount_id'', JStr (ar_mount_id row)),
     (''token_id'', JStr (ar_token_id row)),
     (''principal'', JStr (ar_principal row)),
     (''caller_spiffe_id'', jopt (ar_caller_spiffe_id row)),
     (''executor_spiffe_id'', jopt (ar_executor_spiffe_id row)),
     (''eei_id'', jopt (ar_eei_id row)),
     (''profile_id'', jopt (ar_profile_id row)),
     (''lease_id'', jopt (ar_lease_id row)),
     (''operator_id'', jopt (ar_operator_id row)),
     (''caller_cert_sha256'', jopt (ar_caller_cert_sha256 row)),
     (''capability_id'', jopt (ar_capability_id row)),
     (''biscuit_token_sha256'', jopt (ar_biscuit_token_sha256 row)),
     (''action'', JStr (ar_action row)),
     (''resource'', res),
     (''policy_version'', jopt (ar_policy_version row)),
     (''decision'', JStr (ar_decision row)),
     (''reason'', JStr (ar_reason row)),
     (''timestamp'', JStr (isoformat (ar_actioned_at row))),
     (''actioned_at'', JStr (isoformat (ar_actioned_at row))),
     (''result_hash'', JNull),
     (''pgl_anchor_id'', jopt (ar_pgl_anchor_id row))]"

text \<open>\<open>None\<close> is the \<open>ValueError\<close> of an unknown schema version.\<close>

definition receipt_canonical :: "receipt \<Rightarrow> json option" where
  "receipt_canonical row =
    (if schema_version row = RECEIPT_SCHEMA_V1 then Some (JObj (receipt_fields row (JStr ''*'')))
     else if schema_version row \<noteq> RECEIPT_SCHEMA_V2 then None
     else Some (JObj (receipt_fields row (jopt (ar_resource row)) @
       [(''receipt_schema_version'', JNum RECEIPT_SCHEMA_V2),
        (''target_ref'', jopt (ar_target_ref row)),
        (''envelope_digest'', jopt (ar_envelope_digest row))])))"

definition receipt_hash :: "(string \<Rightarrow> digest) \<Rightarrow> receipt \<Rightarrow> digest option" where
  "receipt_hash sha row = map_option (sha256_json sha) (receipt_canonical row)"

subsection \<open>Leaf positions\<close>

text \<open>
  The sequence table holds one row, \<open>next_value\<close>; \<open>None\<close> is a missing row, on which allocation
  raises. The result is the row with its position and the incremented counter: both belong to
  the transaction that inserts the receipt.
\<close>

definition assign_merkle_leaf_index :: "int option \<Rightarrow> receipt \<Rightarrow> (receipt \<times> int option) option" where
  "assign_merkle_leaf_index next row =
    (if \<not> truthy (ar_signed_receipt_cose row) then Some (row, next)
     else case next of
       None \<Rightarrow> None
     | Some n \<Rightarrow>
         let n' = n + 1; assigned_index = n' - 1
         in Some (row\<lparr>ar_merkle_leaf_index := Some assigned_index\<rparr>, Some n'))"

definition seed_merkle_sequence :: "int option \<Rightarrow> int option" where
  "seed_merkle_sequence next = (case next of None \<Rightarrow> Some 0 | Some n \<Rightarrow> Some n)"

definition get_merkle_ordered_cose_bytes :: "receipt list \<Rightarrow> string list" where
  "get_merkle_ordered_cose_bytes rows =
     map (\<lambda>r. the (ar_signed_receipt_cose r))
       (sort_key (\<lambda>r. the (ar_merkle_leaf_index r))
         (filter (\<lambda>r. ar_merkle_leaf_index r \<noteq> None \<and> ar_signed_receipt_cose r \<noteq> None) rows))"

text \<open>Rows whose positions the counter has issued: all below it, none twice.\<close>

definition leaf_positions :: "receipt list \<Rightarrow> int list" where
  "leaf_positions rows = List.map_filter ar_merkle_leaf_index rows"

definition leaves_ok :: "receipt list \<Rightarrow> int option \<Rightarrow> bool" where
  "leaves_ok rows next \<longleftrightarrow> distinct (leaf_positions rows) \<and>
     (\<forall>i \<in> set (leaf_positions rows). \<exists>n. next = Some n \<and> i < n)"

lemma leaf_positions_append [simp]: "leaf_positions (xs @ ys) = leaf_positions xs @ leaf_positions ys"
  by (simp add: leaf_positions_def List.map_filter_def)

lemma leaf_positions_Cons [simp]:
  "leaf_positions (r # rs) = (case ar_merkle_leaf_index r of None \<Rightarrow> [] | Some i \<Rightarrow> [i]) @ leaf_positions rs"
  by (simp add: leaf_positions_def List.map_filter_def split: option.splits)

lemma leaf_positions_Nil [simp]: "leaf_positions [] = []"
  by (simp add: leaf_positions_def List.map_filter_def)

lemma leaves_ok_Nil [simp]: "leaves_ok [] next"
  by (simp add: leaves_ok_def)

lemma leaves_ok_assign [inv_intros]:
  assumes "leaves_ok rows next" "assign_merkle_leaf_index next row = Some (row', next')"
    and "ar_merkle_leaf_index row = None"
  shows "leaves_ok (rows @ [row']) next'"
  using assms by (fastforce simp: leaves_ok_def assign_merkle_leaf_index_def Let_def
      split: if_splits option.splits)

lemma leaves_ok_seed [inv_intros]: "leaves_ok rows next \<Longrightarrow> leaves_ok rows (seed_merkle_sequence next)"
  by (auto simp: leaves_ok_def seed_merkle_sequence_def split: option.splits)

lemma assign_merkle_total: "next = Some n \<Longrightarrow> \<exists>x. assign_merkle_leaf_index next row = Some x"
  by (simp add: assign_merkle_leaf_index_def Let_def)

text \<open>Append order is leaf order: positions issued later are larger.\<close>

lemma ordered_cose_snoc:
  assumes "leaves_ok rows (Some n)" "ar_merkle_leaf_index row = None" "truthy (ar_signed_receipt_cose row)"
    and "assign_merkle_leaf_index (Some n) row = Some (row', next')"
    and srt: "sorted (leaf_positions rows)"
    and cose: "\<forall>r \<in> set rows. ar_signed_receipt_cose r \<noteq> None"
  shows "get_merkle_ordered_cose_bytes (rows @ [row']) =
    get_merkle_ordered_cose_bytes rows @ [the (ar_signed_receipt_cose row)]"
proof -
  let ?p = "\<lambda>r. ar_merkle_leaf_index r \<noteq> None \<and> ar_signed_receipt_cose r \<noteq> None"
  let ?k = "\<lambda>r. the (ar_merkle_leaf_index r)"
  have row': "ar_merkle_leaf_index row' = Some n" "ar_signed_receipt_cose row' = ar_signed_receipt_cose row"
    using assms(3,4) by (auto simp: assign_merkle_leaf_index_def Let_def)
  have keys: "map ?k (filter ?p rs) = leaf_positions rs" if "\<forall>r \<in> set rs. ar_signed_receipt_cose r \<noteq> None" for rs
    using that by (induction rs) (auto split: option.splits)
  have "sorted (map ?k (filter ?p rows @ [row']))"
    using assms(1) srt keys [OF cose] row' by (fastforce simp: leaves_ok_def sorted_append)
  moreover have "sorted (map ?k (filter ?p rows))" using srt keys [OF cose] by simp
  moreover have "ar_signed_receipt_cose row \<noteq> None" using assms(3) by (cases "ar_signed_receipt_cose row") auto
  ultimately show ?thesis
    using row' by (simp add: get_merkle_ordered_cose_bytes_def sort_key_id_if_sorted)
qed

subsection \<open>What a receipt's hash binds\<close>

definition receipt_v2_fields :: "receipt \<Rightarrow> (string \<times> json) list" where
  "receipt_v2_fields row =
     [(''receipt_schema_version'', JNum RECEIPT_SCHEMA_V2),
      (''target_ref'', jopt (ar_target_ref row)),
      (''envelope_digest'', jopt (ar_envelope_digest row))]"

lemma receipt_fields_distinct:
  "distinct (map fst (receipt_fields row res))"
  "distinct (map fst (receipt_fields row res @ receipt_v2_fields row'))"
  by (simp_all add: receipt_fields_def receipt_v2_fields_def)

lemma receipt_lookup:
  fixes row res ext
  defines "d \<equiv> dict_of (receipt_fields row res @ ext)"
  shows "d ''execution_id'' = Some (JStr (ar_execution_id row))"
    "d ''mount_id'' = Some (JStr (ar_mount_id row))"
    "d ''token_id'' = Some (JStr (ar_token_id row))"
    "d ''principal'' = Some (JStr (ar_principal row))"
    "d ''action'' = Some (JStr (ar_action row))"
    "d ''decision'' = Some (JStr (ar_decision row))"
    "d ''reason'' = Some (JStr (ar_reason row))"
    "d ''capability_id'' = Some (jopt (ar_capability_id row))"
    "d ''pgl_anchor_id'' = Some (jopt (ar_pgl_anchor_id row))"
    "d ''caller_spiffe_id'' = Some (jopt (ar_caller_spiffe_id row))"
    "d ''executor_spiffe_id'' = Some (jopt (ar_executor_spiffe_id row))"
    "d ''resource'' = Some (sort_keys res)"
    "d ''receipt_schema_version'' = dict_of ext ''receipt_schema_version''"
    "d ''target_ref'' = dict_of ext ''target_ref''"
    "d ''envelope_digest'' = dict_of ext ''envelope_digest''"
  by (simp_all add: d_def dict_of_def receipt_fields_def)

lemma receipt_hash_cases:
  assumes "receipt_hash sha row = Some h"
  obtains res ext where "h = sha256_json sha (JObj (receipt_fields row res @ ext))"
    "distinct (map fst (receipt_fields row res @ ext))"
    "schema_version row = RECEIPT_SCHEMA_V1 \<and> res = JStr ''*'' \<and> ext = [] \<or>
     schema_version row = RECEIPT_SCHEMA_V2 \<and> res = jopt (ar_resource row) \<and> ext = receipt_v2_fields row"
proof (cases "schema_version row = RECEIPT_SCHEMA_V1")
  case True
  with assms that [of "JStr ''*''" "[]"] receipt_fields_distinct show thesis
    by (simp add: receipt_hash_def receipt_canonical_def)
next
  case False
  with assms that [of "jopt (ar_resource row)" "receipt_v2_fields row"] receipt_fields_distinct show thesis
    by (auto simp: receipt_hash_def receipt_canonical_def receipt_v2_fields_def split: if_splits)
qed

lemma receipt_hash_dict:
  assumes "inj sha" "receipt_hash sha a = Some h" "receipt_hash sha b = Some h"
  obtains ra ea rb eb where
    "dict_of (receipt_fields a ra @ ea) = dict_of (receipt_fields b rb @ eb)"
    "schema_version a = RECEIPT_SCHEMA_V1 \<and> ra = JStr ''*'' \<and> ea = [] \<or>
     schema_version a = RECEIPT_SCHEMA_V2 \<and> ra = jopt (ar_resource a) \<and> ea = receipt_v2_fields a"
    "schema_version b = RECEIPT_SCHEMA_V1 \<and> rb = JStr ''*'' \<and> eb = [] \<or>
     schema_version b = RECEIPT_SCHEMA_V2 \<and> rb = jopt (ar_resource b) \<and> eb = receipt_v2_fields b"
proof -
  obtain ra ea where a: "h = sha256_json sha (JObj (receipt_fields a ra @ ea))"
    "distinct (map fst (receipt_fields a ra @ ea))"
    "schema_version a = RECEIPT_SCHEMA_V1 \<and> ra = JStr ''*'' \<and> ea = [] \<or>
     schema_version a = RECEIPT_SCHEMA_V2 \<and> ra = jopt (ar_resource a) \<and> ea = receipt_v2_fields a"
    using assms(2) by (rule receipt_hash_cases)
  obtain rb eb where b: "h = sha256_json sha (JObj (receipt_fields b rb @ eb))"
    "distinct (map fst (receipt_fields b rb @ eb))"
    "schema_version b = RECEIPT_SCHEMA_V1 \<and> rb = JStr ''*'' \<and> eb = [] \<or>
     schema_version b = RECEIPT_SCHEMA_V2 \<and> rb = jopt (ar_resource b) \<and> eb = receipt_v2_fields b"
    using assms(3) by (rule receipt_hash_cases)
  have "dict_of (receipt_fields a ra @ ea) = dict_of (receipt_fields b rb @ eb)"
    using a(1) b(1) assms(1) canonical_json_dict [OF a(2) b(2)] by (simp add: sha256_json_def inj_eq)
  then show thesis using that a(3) b(3) by blast
qed

text \<open>
  Receipt tamper evidence: two receipts with the same content hash (under a collision-free
  digest) have the same schema version and agree on every authorization column, and version 2
  receipts also agree on the resource, the target and the operation envelope they name.
\<close>

theorem receipt_hash_binds:
  assumes "inj sha" "receipt_hash sha a = Some h" "receipt_hash sha b = Some h"
  shows "schema_version a = schema_version b \<and>
    ar_execution_id a = ar_execution_id b \<and> ar_mount_id a = ar_mount_id b \<and>
    ar_token_id a = ar_token_id b \<and> ar_principal a = ar_principal b \<and>
    ar_action a = ar_action b \<and> ar_decision a = ar_decision b \<and> ar_reason a = ar_reason b \<and>
    ar_capability_id a = ar_capability_id b \<and> ar_pgl_anchor_id a = ar_pgl_anchor_id b \<and>
    ar_caller_spiffe_id a = ar_caller_spiffe_id b \<and>
    ar_executor_spiffe_id a = ar_executor_spiffe_id b \<and>
    (schema_version a = RECEIPT_SCHEMA_V2 \<longrightarrow>
       ar_resource a = ar_resource b \<and> ar_target_ref a = ar_target_ref b \<and>
       ar_envelope_digest a = ar_envelope_digest b)"
proof -
  obtain ra ea rb eb where eq: "dict_of (receipt_fields a ra @ ea) = dict_of (receipt_fields b rb @ eb)"
    and va: "schema_version a = RECEIPT_SCHEMA_V1 \<and> ra = JStr ''*'' \<and> ea = [] \<or>
      schema_version a = RECEIPT_SCHEMA_V2 \<and> ra = jopt (ar_resource a) \<and> ea = receipt_v2_fields a"
    and vb: "schema_version b = RECEIPT_SCHEMA_V1 \<and> rb = JStr ''*'' \<and> eb = [] \<or>
      schema_version b = RECEIPT_SCHEMA_V2 \<and> rb = jopt (ar_resource b) \<and> eb = receipt_v2_fields b"
    using assms by (rule receipt_hash_dict)
  note la = receipt_lookup [of a ra ea] and lb = receipt_lookup [of b rb eb]
  have base: "ar_execution_id a = ar_execution_id b" "ar_mount_id a = ar_mount_id b"
    "ar_token_id a = ar_token_id b" "ar_principal a = ar_principal b" "ar_action a = ar_action b"
    "ar_decision a = ar_decision b" "ar_reason a = ar_reason b"
    using la(1-7) lb(1-7) eq by simp_all
  have opt: "ar_capability_id a = ar_capability_id b" "ar_pgl_anchor_id a = ar_pgl_anchor_id b"
    "ar_caller_spiffe_id a = ar_caller_spiffe_id b" "ar_executor_spiffe_id a = ar_executor_spiffe_id b"
    using la(8-11) lb(8-11) eq by (metis jopt_eq option.inject)+
  have res: "sort_keys ra = sort_keys rb"
    and ext: "dict_of ea k = dict_of eb k"
    if "k \<in> {''receipt_schema_version'', ''target_ref'', ''envelope_digest''}" for k
    using la(12-15) lb(12-15) eq that by auto
  have ver: "schema_version a = schema_version b"
    using ext [of "''receipt_schema_version''"] va vb by (auto simp: dict_of_def receipt_v2_fields_def)
  moreover have "ar_resource a = ar_resource b \<and> ar_target_ref a = ar_target_ref b \<and>
      ar_envelope_digest a = ar_envelope_digest b" if "schema_version a = RECEIPT_SCHEMA_V2"
  proof -
    have "jopt (ar_resource a) = jopt (ar_resource b)"
      "dict_of (receipt_v2_fields a) ''target_ref'' = dict_of (receipt_v2_fields b) ''target_ref''"
      "dict_of (receipt_v2_fields a) ''envelope_digest'' = dict_of (receipt_v2_fields b) ''envelope_digest''"
      using that ver va vb res ext [of "''target_ref''"] ext [of "''envelope_digest''"]
      by (auto simp: RECEIPT_SCHEMA_V1_def RECEIPT_SCHEMA_V2_def)
    then show ?thesis by (simp add: dict_of_def receipt_v2_fields_def)
  qed
  ultimately show ?thesis using base opt by blast
qed

definition sample_receipt :: receipt where
  "sample_receipt =
    \<lparr>ar_receipt_id = ''rcpt_1'', ar_execution_id = ''ex_1'', ar_mount_id = ''mnt_1'',
     ar_token_id = ''tok_1'', ar_principal = ''alice'', ar_action = ''counter.increment'',
     ar_resource = Some ''main'', ar_target_ref = Some ''activation.governed-counter'',
     ar_envelope_digest = None, ar_receipt_schema_version = Some 2, ar_decision = ''allow'',
     ar_reason = ''allowed'', ar_actioned_at = 0, ar_caller_spiffe_id = None,
     ar_executor_spiffe_id = None, ar_eei_id = None, ar_profile_id = None, ar_lease_id = None,
     ar_operator_id = None, ar_caller_cert_sha256 = None, ar_capability_id = None,
     ar_trust_domain = None, ar_svid_not_before = None, ar_svid_not_after = None,
     ar_policy_version = Some ''1.0'', ar_biscuit_token_sha256 = None,
     ar_signed_receipt_cose = Some ''cose'', ar_merkle_leaf_index = None, ar_content_hash = [],
     ar_pgl_anchor_id = Some ''a1'', ar_pgl_anchor_status = Some ''confirmed'',
     ar_pgl_event_hash = None, ar_created_at = 0\<rparr>"

theorem receipt_hash_binds_witness:
  "\<exists>h. receipt_hash id sample_receipt = Some h \<and>
     receipt_hash id (sample_receipt\<lparr>ar_created_at := 7\<rparr>) = Some h \<and>
     schema_version sample_receipt = RECEIPT_SCHEMA_V2 \<and>
     ar_target_ref sample_receipt = ar_target_ref (sample_receipt\<lparr>ar_created_at := 7\<rparr>)"
proof -
  have v: "schema_version sample_receipt = RECEIPT_SCHEMA_V2"
    by (simp add: sample_receipt_def schema_version_def RECEIPT_SCHEMA_V2_def)
  then obtain h where h: "receipt_hash id sample_receipt = Some h"
    by (cases "receipt_hash id sample_receipt")
      (auto simp: receipt_hash_def receipt_canonical_def split: if_splits)
  have "receipt_canonical (sample_receipt\<lparr>ar_created_at := 7\<rparr>) = receipt_canonical sample_receipt"
    by (simp add: receipt_canonical_def schema_version_def receipt_fields_def)
  with h have h': "receipt_hash id (sample_receipt\<lparr>ar_created_at := 7\<rparr>) = Some h"
    by (simp add: receipt_hash_def)
  from receipt_hash_binds [OF inj_on_id h h'] v h h' show ?thesis by blast
qed

end
