(* ===== verification/Consequence.thy ===== *)
theory Consequence
  imports Receipt
begin

text \<open>
  The append-only consequence ledger: the rows, the state machine and the hash helpers of
  \<open>models/consequence_execution.py\<close>, and the lifecycle recorder and executor of
  \<open>services/consequence_lifecycle.py\<close>. A table is the list of its committed rows in commit
  order. Each operation reads a snapshot that may be older than the table it commits to; the
  table's primary key and its unique \<open>(operation_id, version)\<close> constraint decide the commit.
  The lemmas show that every operation's rows form one path of the state machine under any
  interleaving of such writers, with one intent hash, at most one \<open>STARTED\<close> row, and a
  final state that no later write changes.
\<close>

subsection \<open>States\<close>

datatype cstate =
    CS_AUTHORIZED | CS_STARTED | CS_SUCCEEDED | CS_FAILED | CS_OUTCOME_UNKNOWN
  | CS_RECONCILED_SUCCEEDED | CS_RECONCILED_FAILED
  | CS_DISPATCHED_UNKNOWN | CS_RESTORED | CS_STALE_AUTHORITY | CS_RECONCILIATION_REQUIRED

fun cstate_value :: "cstate \<Rightarrow> string" where
  "cstate_value CS_AUTHORIZED = ''authorized''"
| "cstate_value CS_STARTED = ''started''"
| "cstate_value CS_SUCCEEDED = ''succeeded''"
| "cstate_value CS_FAILED = ''failed''"
| "cstate_value CS_OUTCOME_UNKNOWN = ''outcome_unknown''"
| "cstate_value CS_RECONCILED_SUCCEEDED = ''reconciled_succeeded''"
| "cstate_value CS_RECONCILED_FAILED = ''reconciled_failed''"
| "cstate_value CS_DISPATCHED_UNKNOWN = ''dispatched-unknown''"
| "cstate_value CS_RESTORED = ''restored''"
| "cstate_value CS_STALE_AUTHORITY = ''stale-authority''"
| "cstate_value CS_RECONCILIATION_REQUIRED = ''reconciliation-required''"

fun allowed_transitions :: "cstate \<Rightarrow> cstate set" where
  "allowed_transitions CS_AUTHORIZED = {CS_STARTED, CS_FAILED}"
| "allowed_transitions CS_STARTED =
     {CS_SUCCEEDED, CS_FAILED, CS_OUTCOME_UNKNOWN, CS_DISPATCHED_UNKNOWN}"
| "allowed_transitions CS_OUTCOME_UNKNOWN =
     {CS_RECONCILED_SUCCEEDED, CS_RECONCILED_FAILED, CS_RESTORED}"
| "allowed_transitions CS_DISPATCHED_UNKNOWN = {CS_RESTORED, CS_RECONCILIATION_REQUIRED}"
| "allowed_transitions CS_RESTORED = {CS_STALE_AUTHORITY, CS_RECONCILIATION_REQUIRED}"
| "allowed_transitions CS_RECONCILIATION_REQUIRED =
     {CS_RECONCILED_SUCCEEDED, CS_RECONCILED_FAILED, CS_STALE_AUTHORITY}"
| "allowed_transitions CS_SUCCEEDED = {}"
| "allowed_transitions CS_FAILED = {}"
| "allowed_transitions CS_STALE_AUTHORITY = {}"
| "allowed_transitions CS_RECONCILED_SUCCEEDED = {}"
| "allowed_transitions CS_RECONCILED_FAILED = {}"

lemma cstate_value_inject [simp]: "cstate_value s = cstate_value t \<longleftrightarrow> s = t"
  by (cases s; cases t) simp_all

subsection \<open>Rows\<close>

record cevent =
  ce_event_id :: string
  ce_operation_id :: string
  ce_intent_hash :: digest
  ce_state :: cstate
  ce_version :: nat
  ce_authority_epoch :: "int option"
  ce_receipt_id :: "string option"
  ce_mount_id :: string
  ce_execution_id :: string
  ce_principal :: string
  ce_action :: string
  ce_resource :: "string option"
  ce_created_at :: time
  ce_completion_proof_type :: "string option"
  ce_completion_proof_ref :: "string option"
  ce_error_summary :: "string option"
  ce_proof_subject_hash :: "digest option"

definition build_intent_hash ::
  "(string \<Rightarrow> digest) \<Rightarrow> string \<Rightarrow> string \<Rightarrow> string \<Rightarrow> string option \<Rightarrow> (string \<times> json) list \<Rightarrow> digest" where
  "build_intent_hash sha mount_id execution_id action resource normalized_args =
     sha256_json sha (JObj
       [(''mount_id'', JStr mount_id),
        (''execution_id'', JStr execution_id),
        (''action'', JStr action),
        (''resource'', JStr (or_str resource ''*'')),
        (''normalized_args'', JObj normalized_args)])"

definition build_proof_subject_hash ::
  "(string \<Rightarrow> digest) \<Rightarrow> string \<Rightarrow> string \<Rightarrow> string \<Rightarrow> string \<Rightarrow> string \<Rightarrow> string \<Rightarrow> digest" where
  "build_proof_subject_hash sha operation_id intent_hash previous_truth_state asserted_truth_state
      consequence_identity canonical_asserted_proposition =
     sha256_json sha (JObj
       [(''operation_id'', JStr operation_id),
        (''intent_hash'', JStr intent_hash),
        (''previous_truth_state'', JStr previous_truth_state),
        (''asserted_truth_state'', JStr asserted_truth_state),
        (''consequence_identity'', JStr consequence_identity),
        (''canonical_asserted_proposition'', JStr canonical_asserted_proposition)])"

text \<open>\<open>WHERE operation_id = op ORDER BY version DESC LIMIT 1\<close>.\<close>

definition latest_event :: "string \<Rightarrow> cevent list \<Rightarrow> cevent option" where
  "latest_event op evs = latest_by ce_version (filter (\<lambda>e. ce_operation_id e = op) evs)"

text \<open>A commit: the primary key and the unique constraint, row by row; \<open>None\<close> is \<open>IntegrityError\<close>.\<close>

definition event_conflict :: "cevent list \<Rightarrow> cevent \<Rightarrow> bool" where
  "event_conflict evs n \<longleftrightarrow> (\<exists>e \<in> set evs. ce_event_id e = ce_event_id n \<or>
     ce_operation_id e = ce_operation_id n \<and> ce_version e = ce_version n)"

fun insert_events :: "cevent list \<Rightarrow> cevent list \<Rightarrow> cevent list option" where
  "insert_events evs [] = Some evs"
| "insert_events evs (n # ns) = (if event_conflict evs n then None else insert_events (evs @ [n]) ns)"

text \<open>The row that follows \<open>latest\<close> in its operation: the identity columns are copied.\<close>

definition next_event ::
  "cevent \<Rightarrow> string \<Rightarrow> cstate \<Rightarrow> int option \<Rightarrow> time \<Rightarrow> string option \<Rightarrow> string option \<Rightarrow> string option \<Rightarrow> digest \<Rightarrow> cevent" where
  "next_event latest eid st epoch now ptype pref err proof_hash =
    \<lparr>ce_event_id = eid, ce_operation_id = ce_operation_id latest, ce_intent_hash = ce_intent_hash latest,
     ce_state = st, ce_version = ce_version latest + 1, ce_authority_epoch = epoch,
     ce_receipt_id = ce_receipt_id latest, ce_mount_id = ce_mount_id latest,
     ce_execution_id = ce_execution_id latest, ce_principal = ce_principal latest,
     ce_action = ce_action latest, ce_resource = ce_resource latest, ce_created_at = now,
     ce_completion_proof_type = ptype, ce_completion_proof_ref = pref, ce_error_summary = err,
     ce_proof_subject_hash = Some proof_hash\<rparr>"

lemma next_event_simps [simp]:
  "ce_event_id (next_event l eid st ep now pt pr er ph) = eid"
  "ce_operation_id (next_event l eid st ep now pt pr er ph) = ce_operation_id l"
  "ce_intent_hash (next_event l eid st ep now pt pr er ph) = ce_intent_hash l"
  "ce_state (next_event l eid st ep now pt pr er ph) = st"
  "ce_version (next_event l eid st ep now pt pr er ph) = Suc (ce_version l)"
  "ce_authority_epoch (next_event l eid st ep now pt pr er ph) = ep"
  "ce_receipt_id (next_event l eid st ep now pt pr er ph) = ce_receipt_id l"
  "ce_mount_id (next_event l eid st ep now pt pr er ph) = ce_mount_id l"
  "ce_execution_id (next_event l eid st ep now pt pr er ph) = ce_execution_id l"
  "ce_principal (next_event l eid st ep now pt pr er ph) = ce_principal l"
  "ce_action (next_event l eid st ep now pt pr er ph) = ce_action l"
  "ce_resource (next_event l eid st ep now pt pr er ph) = ce_resource l"
  "ce_completion_proof_type (next_event l eid st ep now pt pr er ph) = pt"
  "ce_error_summary (next_event l eid st ep now pt pr er ph) = er"
  by (simp_all add: next_event_def)

subsection \<open>The lifecycle recorder\<close>

datatype lifecycle_error =
    ConsequenceInvariantViolation string
  | IntegrityError

text \<open>
  \<open>seen\<close> is the table the \<open>SELECT\<close> read, \<open>evs\<close> the table at commit, \<open>uid\<close> the \<open>uuid4().hex\<close>
  values and \<open>clk\<close> the clock readings of the call, in order.
\<close>

definition authorized_started ::
  "(string \<Rightarrow> digest) \<Rightarrow> (nat \<Rightarrow> string) \<Rightarrow> (nat \<Rightarrow> time) \<Rightarrow> receipt \<Rightarrow> string \<Rightarrow> string \<Rightarrow> string option \<Rightarrow> cevent list" where
  "authorized_started sha uid clk rc operation_id intent_hash resource =
    (let effective_resource = or_opt resource (ar_resource rc);
         authorized_proof = build_proof_subject_hash sha operation_id intent_hash ''none''
           (cstate_value CS_AUTHORIZED) (ar_receipt_id rc)
           (''authorize '' @ ar_action rc @ '' on '' @ or_str effective_resource ''*'');
         authorized =
           \<lparr>ce_event_id = ''evt_'' @ uid 0, ce_operation_id = operation_id,
            ce_intent_hash = intent_hash, ce_state = CS_AUTHORIZED, ce_version = 0,
            ce_authority_epoch = Some 1, ce_receipt_id = Some (ar_receipt_id rc),
            ce_mount_id = ar_mount_id rc, ce_execution_id = ar_execution_id rc,
            ce_principal = ar_principal rc, ce_action = ar_action rc,
            ce_resource = effective_resource, ce_created_at = clk 0,
            ce_completion_proof_type = None, ce_completion_proof_ref = None,
            ce_error_summary = None, ce_proof_subject_hash = Some authorized_proof\<rparr>;
         started_proof = build_proof_subject_hash sha operation_id intent_hash
           (cstate_value CS_AUTHORIZED) (cstate_value CS_STARTED) (ar_receipt_id rc)
           (''execution_started '' @ ar_action rc @ '' on '' @ or_str effective_resource ''*'');
         started = next_event authorized (''evt_'' @ uid 1) CS_STARTED (Some 1) (clk 1)
           None None None started_proof
     in [authorized, started])"

definition recorder_begin ::
  "(string \<Rightarrow> digest) \<Rightarrow> (nat \<Rightarrow> string) \<Rightarrow> (nat \<Rightarrow> time) \<Rightarrow> receipt list \<Rightarrow> cevent list \<Rightarrow> cevent list \<Rightarrow>
   string \<Rightarrow> string \<Rightarrow> string \<Rightarrow> string option \<Rightarrow> lifecycle_error + cevent list" where
  "recorder_begin sha uid clk receipts seen evs receipt_id operation_id intent_hash resource =
    (case find (\<lambda>r. ar_receipt_id r = receipt_id) receipts of
       None \<Rightarrow> Inl (ConsequenceInvariantViolation
         ''consequence start requires a persisted CAPPO ALLOW receipt'')
     | Some rc \<Rightarrow>
         if ar_decision rc \<noteq> ''allow'' then Inl (ConsequenceInvariantViolation
           ''consequence start requires a persisted CAPPO ALLOW receipt'')
         else (case latest_event operation_id seen of
           Some existing \<Rightarrow>
             if ce_intent_hash existing \<noteq> intent_hash then Inl (ConsequenceInvariantViolation
               ''operation_id is already bound to a different consequence intent'')
             else Inl (ConsequenceInvariantViolation
               (''operation_id already exists in state '' @ cstate_value (ce_state existing)))
         | None \<Rightarrow>
             (case insert_events evs
                 (authorized_started sha uid clk rc operation_id intent_hash resource) of
                None \<Rightarrow> Inl IntegrityError
              | Some evs' \<Rightarrow> Inr evs')))"

definition complete_target :: "bool \<Rightarrow> bool \<Rightarrow> string \<Rightarrow> cstate \<times> string" where
  "complete_target succeeded outcome_uncertain proof_type =
    (if outcome_uncertain then (CS_OUTCOME_UNKNOWN, ''outcome_uncertain'')
     else if succeeded then (CS_SUCCEEDED, proof_type)
     else (CS_FAILED, if proof_type = [] then ''callback_exception'' else proof_type))"

definition recorder_complete ::
  "(string \<Rightarrow> digest) \<Rightarrow> (nat \<Rightarrow> string) \<Rightarrow> (nat \<Rightarrow> time) \<Rightarrow> cevent list \<Rightarrow> cevent list \<Rightarrow>
   string \<Rightarrow> bool \<Rightarrow> bool \<Rightarrow> string option \<Rightarrow> string \<Rightarrow> string option \<Rightarrow> lifecycle_error + cevent list \<times> cevent" where
  "recorder_complete sha uid clk seen evs operation_id succeeded outcome_uncertain error_summary
      proof_type proof_ref =
    (case latest_event operation_id seen of
       None \<Rightarrow> Inl (ConsequenceInvariantViolation
         ''cannot complete a consequence with no persisted STARTED event'')
     | Some latest \<Rightarrow>
         if ce_state latest \<noteq> CS_STARTED then Inl (ConsequenceInvariantViolation
           (''cannot complete consequence from state '' @ cstate_value (ce_state latest)))
         else
           let (target, effective_proof_type) = complete_target succeeded outcome_uncertain proof_type
           in if target \<notin> allowed_transitions CS_STARTED then Inl (ConsequenceInvariantViolation
                (''illegal consequence transition started -> '' @ cstate_value target))
              else
                let proof_hash = build_proof_subject_hash sha operation_id (ce_intent_hash latest)
                      (cstate_value (ce_state latest)) (cstate_value target)
                      (or_str (ce_receipt_id latest) ''unknown'')
                      (cstate_value target @ '' '' @ ce_action latest @ '' on '' @
                       or_str (ce_resource latest) ''*'' @ '' with_proof '' @ effective_proof_type);
                    event = next_event latest (''evt_'' @ uid 0) target (Some 1) (clk 0)
                      (Some effective_proof_type) proof_ref error_summary proof_hash
                in (case insert_events evs [event] of
                      None \<Rightarrow> Inl IntegrityError
                    | Some evs' \<Rightarrow> Inr (evs', event)))"

subsection \<open>The lifecycle executor\<close>

text \<open>
  The delegate is another executor: a function of the table committed before the call, giving
  how it settled and the table at that moment, since other writers go on while it runs. The
  proof resolver is the delegate's optional \<open>completion_proof\<close> attribute.
\<close>

datatype settled =
    Delegate_Returned json
  | TerminalExecutionError string
  | ProviderExecutionError string
  | ExecutorUnavailableError string
  | Delegate_Exception string

datatype resolved =
    Resolved_Tuple string string
  | Resolved_Other
  | Resolver_Raised string

datatype resolver =
    No_Resolver
  | Resolver_Not_Callable
  | Resolver "json \<Rightarrow> resolved"

datatype executor_result =
    Exec_Result json
  | Exec_Raised string
  | Exec_Lifecycle_Error lifecycle_error

definition completion_proof :: "(string \<Rightarrow> digest) \<Rightarrow> resolver \<Rightarrow> json \<Rightarrow> string + string \<times> string" where
  "completion_proof sha rs result =
    (case rs of
       No_Resolver \<Rightarrow> Inr (''callback_return'', sha256_json sha result)
     | Resolver_Not_Callable \<Rightarrow> Inl ''executor completion_proof attribute is not callable''
     | Resolver f \<Rightarrow>
         (case f result of
            Resolver_Raised msg \<Rightarrow> Inl msg
          | Resolved_Other \<Rightarrow> Inl ''executor completion proof must be a non-empty (type, ref) tuple''
          | Resolved_Tuple t r \<Rightarrow>
              if t = [] \<or> r = [] then Inl ''executor completion proof must be a non-empty (type, ref) tuple''
              else Inr (t, r)))"

text \<open>\<open>complete\<close> in the handlers reads the committed table; its own exception replaces the handled one.\<close>

definition complete_then ::
  "(lifecycle_error + cevent list \<times> cevent) \<Rightarrow> cevent list \<Rightarrow> executor_result \<Rightarrow> cevent list \<times> executor_result" where
  "complete_then r evs out = (case r of
      Inl err \<Rightarrow> (evs, Exec_Lifecycle_Error err)
    | Inr (evs', _) \<Rightarrow> (evs', out))"

definition lifecycle_execute ::
  "(string \<Rightarrow> digest) \<Rightarrow> (nat \<Rightarrow> string) \<Rightarrow> (nat \<Rightarrow> time) \<Rightarrow> receipt list \<Rightarrow>
   (cevent list \<Rightarrow> settled \<times> cevent list) \<Rightarrow> resolver \<Rightarrow> cevent list \<Rightarrow>
   string \<Rightarrow> string \<Rightarrow> string \<Rightarrow> string option \<Rightarrow> cevent list \<times> executor_result" where
  "lifecycle_execute sha uid clk receipts delegate rs evs receipt_id operation_id intent_hash resource =
    (case recorder_begin sha uid clk receipts evs evs receipt_id operation_id intent_hash resource of
       Inl err \<Rightarrow> (evs, Exec_Lifecycle_Error err)
     | Inr evs1 \<Rightarrow>
         let (outcome, evs2) = delegate evs1;
             complete = (\<lambda>ok uncertain err pt pref.
               recorder_complete sha (\<lambda>i. uid (i + 2)) (\<lambda>i. clk (i + 2)) evs2 evs2
                 operation_id ok uncertain err pt pref)
         in (case outcome of
               TerminalExecutionError msg \<Rightarrow>
                 complete_then (complete False False (Some msg) ''callback_exception'' None) evs2 (Exec_Raised msg)
             | ProviderExecutionError msg \<Rightarrow>
                 complete_then (complete False True (Some msg) ''callback_return'' None) evs2 (Exec_Raised msg)
             | ExecutorUnavailableError msg \<Rightarrow>
                 complete_then (complete False True (Some msg) ''callback_return'' None) evs2 (Exec_Raised msg)
             | Delegate_Exception msg \<Rightarrow>
                 complete_then (complete False True (Some msg) ''callback_return'' None) evs2 (Exec_Raised msg)
             | Delegate_Returned result \<Rightarrow>
                 (case completion_proof sha rs result of
                    Inl msg \<Rightarrow>
                      complete_then
                        (complete False True (Some (''completion proof verification failed: '' @ msg))
                           ''callback_return'' None) evs2 (Exec_Raised msg)
                  | Inr (pt, pref) \<Rightarrow>
                      complete_then (complete True False None pt (Some pref)) evs2 (Exec_Result result))))"

subsection \<open>The ledger invariant\<close>

text \<open>
  What a row may be followed by in the table: a listed transition, or a second \<open>OUTCOME_UNKNOWN\<close> row,
  which the mount service's completion reporter appends although the transition table does not list
  it. It serves the proofs only: the properties speak of \<open>legal_path\<close>, the listed transitions alone.
\<close>

definition event_step :: "cstate \<Rightarrow> cstate \<Rightarrow> bool" where
  "event_step s t \<longleftrightarrow> t \<in> allowed_transitions s \<or> s = CS_OUTCOME_UNKNOWN \<and> t = CS_OUTCOME_UNKNOWN"

definition same_operation :: "cevent \<Rightarrow> cevent \<Rightarrow> bool" where
  "same_operation a b \<longleftrightarrow> ce_operation_id a = ce_operation_id b \<and> ce_intent_hash a = ce_intent_hash b \<and>
     ce_receipt_id a = ce_receipt_id b \<and> ce_mount_id a = ce_mount_id b \<and>
     ce_execution_id a = ce_execution_id b \<and> ce_principal a = ce_principal b \<and>
     ce_action a = ce_action b \<and> ce_resource a = ce_resource b"

definition follows :: "cevent \<Rightarrow> cevent \<Rightarrow> bool" where
  "follows p e \<longleftrightarrow> same_operation p e \<and> ce_version e = Suc (ce_version p) \<and> event_step (ce_state p) (ce_state e)"

definition events_wf :: "cevent list \<Rightarrow> bool" where
  "events_wf evs \<longleftrightarrow> distinct (map ce_event_id evs) \<and>
     distinct (map (\<lambda>e. (ce_operation_id e, ce_version e)) evs) \<and>
     (\<forall>e \<in> set evs. ce_version e = 0 \<and> ce_state e = CS_AUTHORIZED \<or> (\<exists>p \<in> set evs. follows p e))"

lemma events_wf_Nil [simp]: "events_wf []"
  by (simp add: events_wf_def)

lemma event_step_simps [simp]:
  "\<not> event_step s CS_AUTHORIZED"
  "event_step s CS_STARTED \<longleftrightarrow> s = CS_AUTHORIZED"
  by (cases s; simp add: event_step_def)+

lemma same_operation_refl [simp]: "same_operation a a"
  by (simp add: same_operation_def)

lemma same_operation_trans: "same_operation a b \<Longrightarrow> same_operation b c \<Longrightarrow> same_operation a c"
  by (simp add: same_operation_def)

lemma same_operation_sym: "same_operation a b \<Longrightarrow> same_operation b a"
  by (simp add: same_operation_def)

lemma same_operation_next [simp]: "same_operation l (next_event l eid st ep now pt pr er ph)"
  by (simp add: same_operation_def)

lemma follows_next: "event_step (ce_state l) st \<Longrightarrow> follows l (next_event l eid st ep now pt pr er ph)"
  by (simp add: follows_def)

lemma events_wf_unique:
  assumes "events_wf evs" "a \<in> set evs" "b \<in> set evs"
    and "ce_operation_id a = ce_operation_id b" "ce_version a = ce_version b"
  shows "a = b"
  using assms by (auto simp: events_wf_def distinct_map inj_on_def)

text \<open>Every version below a committed one is committed, in the same operation.\<close>

lemma events_wf_below:
  assumes wf: "events_wf evs"
  shows "e \<in> set evs \<Longrightarrow> v \<le> ce_version e \<Longrightarrow> \<exists>p \<in> set evs. same_operation p e \<and> ce_version p = v"
proof (induction "ce_version e - v" arbitrary: e)
  case 0
  then show ?case by (intro bexI [of _ e]) auto
next
  case (Suc n)
  then have "ce_version e \<noteq> 0" by linarith
  with wf Suc.prems obtain p where p: "p \<in> set evs" "follows p e" by (auto simp: events_wf_def)
  then have "n = ce_version p - v" "v \<le> ce_version p" using Suc by (auto simp: follows_def)
  with Suc.hyps(1) p(1) obtain q where "q \<in> set evs" "same_operation q p" "ce_version q = v" by blast
  with p(2) show ?case by (metis follows_def same_operation_trans)
qed

lemma events_wf_head:
  assumes "events_wf evs" "e \<in> set evs" "ce_version e = 0"
  shows "ce_state e = CS_AUTHORIZED"
  using assms by (auto simp: events_wf_def follows_def)

lemma events_wf_same_op:
  assumes "events_wf evs" "a \<in> set evs" "b \<in> set evs" "ce_operation_id a = ce_operation_id b"
  shows "same_operation a b"
proof -
  obtain p where p: "p \<in> set evs" "same_operation p a" "ce_version p = 0"
    using events_wf_below [OF assms(1,2), of 0] by auto
  obtain q where q: "q \<in> set evs" "same_operation q b" "ce_version q = 0"
    using events_wf_below [OF assms(1,3), of 0] by auto
  have "p = q" using events_wf_unique [OF assms(1) p(1) q(1)] p q assms(4)
    by (simp add: same_operation_def)
  then show ?thesis using p(2) q(2) by (metis same_operation_sym same_operation_trans)
qed

lemma events_wf_pred:
  assumes "events_wf evs" "e \<in> set evs" "p \<in> set evs" "ce_operation_id p = ce_operation_id e"
    and "ce_version e = Suc (ce_version p)"
  shows "event_step (ce_state p) (ce_state e)"
proof -
  obtain q where q: "q \<in> set evs" "follows q e" using assms(1,2,5) by (auto simp: events_wf_def)
  then have "q = p" using assms events_wf_unique [OF assms(1) q(1) assms(3)]
    by (auto simp: follows_def same_operation_def)
  with q(2) show ?thesis by (simp add: follows_def)
qed

text \<open>\<open>STARTED\<close> can only be the second row of an operation.\<close>

lemma events_wf_started_version:
  assumes "events_wf evs" "e \<in> set evs" "ce_state e = CS_STARTED"
  shows "ce_version e = 1"
proof -
  obtain p where p: "p \<in> set evs" "follows p e" using assms by (auto simp: events_wf_def)
  then have "ce_state p = CS_AUTHORIZED" using assms(3) by (simp add: follows_def)
  then have "ce_version p = 0" using assms(1) p(1) by (auto simp: events_wf_def follows_def)
  with p(2) show ?thesis by (simp add: follows_def)
qed

lemma events_wf_started_unique:
  assumes "events_wf evs" "a \<in> set evs" "b \<in> set evs" "ce_operation_id a = ce_operation_id b"
    and "ce_state a = CS_STARTED" "ce_state b = CS_STARTED"
  shows "a = b"
  using events_wf_unique events_wf_started_version assms by metis

subsection \<open>Latest rows and commits\<close>

lemma latest_event_None: "latest_event op evs = None \<longleftrightarrow> (\<forall>e \<in> set evs. ce_operation_id e \<noteq> op)"
  by (simp add: latest_event_def filter_empty_conv)

lemma latest_event_SomeD:
  assumes "latest_event op evs = Some e"
  shows "e \<in> set evs" "ce_operation_id e = op"
  using latest_by_in [of ce_version] assms by (fastforce simp: latest_event_def)+

lemma latest_event_max:
  "latest_event op evs = Some e \<Longrightarrow> d \<in> set evs \<Longrightarrow> ce_operation_id d = op \<Longrightarrow> ce_version d \<le> ce_version e"
  unfolding latest_event_def by (drule latest_by_max [where y = d]) auto

lemma latest_event_eqI:
  assumes "events_wf evs" "e \<in> set evs" "ce_operation_id e = op"
    and "\<And>d. d \<in> set evs \<Longrightarrow> ce_operation_id d = op \<Longrightarrow> ce_version d \<le> ce_version e"
  shows "latest_event op evs = Some e"
proof (cases "latest_event op evs")
  case None
  then show ?thesis using assms by (simp add: latest_event_None)
next
  case (Some d)
  then have "d = e" using assms latest_event_SomeD [OF Some] latest_event_max [OF Some]
    by (intro events_wf_unique [OF assms(1)]) (auto intro!: antisym)
  then show ?thesis using Some by simp
qed

lemma latest_event_other:
  "ce_operation_id n \<noteq> op \<Longrightarrow> latest_event op (evs @ [n]) = latest_event op evs"
  by (simp add: latest_event_def)

lemma insert_events_append: "insert_events evs ns = Some evs' \<Longrightarrow> evs' = evs @ ns"
  by (induction evs ns rule: insert_events.induct) (auto split: if_splits)

lemma insert_events_one: "insert_events evs [n] = Some evs' \<longleftrightarrow> \<not> event_conflict evs n \<and> evs' = evs @ [n]"
  by auto

lemma events_wf_distinct_snoc:
  "events_wf evs \<Longrightarrow> \<not> event_conflict evs n \<Longrightarrow>
   distinct (map ce_event_id (evs @ [n])) \<and> distinct (map (\<lambda>e. (ce_operation_id e, ce_version e)) (evs @ [n]))"
  by (auto simp: events_wf_def event_conflict_def)

lemma events_wf_start [inv_intros]:
  assumes "events_wf evs" "\<not> event_conflict evs n" "ce_version n = 0" "ce_state n = CS_AUTHORIZED"
  shows "events_wf (evs @ [n])"
  using assms events_wf_distinct_snoc [OF assms(1,2)] by (auto simp: events_wf_def)

lemma events_wf_extend [inv_intros]:
  assumes "events_wf evs" "\<not> event_conflict evs n" "l \<in> set evs" "follows l n"
  shows "events_wf (evs @ [n])"
  using assms events_wf_distinct_snoc [OF assms(1,2)] by (auto simp: events_wf_def)

text \<open>
  The race the unique constraint settles: a row that follows \<open>l\<close> commits only if \<open>l\<close> is still
  the latest row of its operation.
\<close>

lemma extend_was_latest:
  assumes "events_wf evs" "\<not> event_conflict evs n" "l \<in> set evs" "follows l n"
  shows "latest_event (ce_operation_id n) evs = Some l"
proof (rule latest_event_eqI)
  fix d
  assume d: "d \<in> set evs" "ce_operation_id d = ce_operation_id n"
  show "ce_version d \<le> ce_version l"
  proof (rule ccontr)
    assume "\<not> ?thesis"
    then have "ce_version n \<le> ce_version d" using assms(4) by (simp add: follows_def)
    then obtain q where "q \<in> set evs" "same_operation q d" "ce_version q = ce_version n"
      using events_wf_below assms(1) d(1) by blast
    with d(2) assms(2) show False by (auto simp: event_conflict_def same_operation_def)
  qed
qed (use assms in \<open>auto simp: follows_def same_operation_def\<close>)

lemma extend_is_latest:
  assumes "events_wf evs" "\<not> event_conflict evs n" "l \<in> set evs" "follows l n"
  shows "latest_event (ce_operation_id n) (evs @ [n]) = Some n"
proof (rule latest_event_eqI)
  fix d
  assume d: "d \<in> set (evs @ [n])" "ce_operation_id d = ce_operation_id n"
  then show "ce_version d \<le> ce_version n"
    using latest_event_max [OF extend_was_latest [OF assms]] assms(4)
    by (auto simp: follows_def le_SucI)
qed (use events_wf_extend [OF assms] in auto)

lemma wf_no_rows:
  assumes "events_wf evs" "\<And>e. e \<in> set evs \<Longrightarrow> ce_operation_id e = op \<Longrightarrow> ce_version e \<noteq> 0"
  shows "latest_event op evs = None"
proof -
  have "ce_operation_id e \<noteq> op" if "e \<in> set evs" for e
    using events_wf_below [OF assms(1) that, of 0] assms(2) by (force simp: same_operation_def)
  then show ?thesis by (simp add: latest_event_None)
qed

lemma start_is_latest:
  assumes "events_wf evs" "\<not> event_conflict evs n" "ce_version n = 0"
  shows "latest_event (ce_operation_id n) evs = None"
  using assms by (intro wf_no_rows) (auto simp: event_conflict_def)

subsection \<open>The history of one operation\<close>

definition history :: "string \<Rightarrow> cevent list \<Rightarrow> cevent list" where
  "history op evs = sort_key ce_version (filter (\<lambda>e. ce_operation_id e = op) evs)"

lemma set_history [simp]: "set (history op evs) = {e \<in> set evs. ce_operation_id e = op}"
  by (simp add: history_def)

lemma down_closed_interval:
  fixes S :: "nat set"
  assumes "finite S" "\<And>m n. n \<in> S \<Longrightarrow> m \<le> n \<Longrightarrow> m \<in> S"
  shows "S = {0..<card S}"
proof (cases "S = {}")
  case False
  have "S = {0..Max S}" using assms False by (auto intro: Max_in assms(2) [OF Max_in])
  then show ?thesis by (metis atLeastLessThanSuc_atLeastAtMost card_atLeastLessThan diff_zero)
qed simp

lemma history_versions:
  assumes "events_wf evs"
  shows "map ce_version (history op evs) = [0..<length (history op evs)]"
proof -
  let ?h = "history op evs"
  have "distinct (map ce_version (filter (\<lambda>e. ce_operation_id e = op) evs))"
    using assms by (auto simp: events_wf_def distinct_map inj_on_def)
  then have d: "distinct (map ce_version ?h)"
    unfolding history_def by (metis mset_map mset_sort mset_eq_imp_distinct_iff)
  have "set (map ce_version ?h) = {0..<card (set (map ce_version ?h))}"
  proof (rule down_closed_interval)
    fix m n
    assume "n \<in> set (map ce_version ?h)" "m \<le> n"
    then obtain e where e: "e \<in> set evs" "ce_operation_id e = op" "m \<le> ce_version e" by auto
    then obtain p where "p \<in> set evs" "same_operation p e" "ce_version p = m"
      using events_wf_below [OF assms] by blast
    with e(2) show "m \<in> set (map ce_version ?h)" by (force simp: same_operation_def)
  qed simp
  then have "set (map ce_version ?h) = set [0..<length ?h]"
    by (metis d distinct_card length_map set_upt)
  then show ?thesis using d by (intro sorted_distinct_set_unique) (simp_all add: history_def)
qed

lemma history_nth:
  assumes "events_wf evs" "i < length (history op evs)"
  shows "history op evs ! i \<in> set evs" "ce_operation_id (history op evs ! i) = op"
    "ce_version (history op evs ! i) = i"
proof -
  have "history op evs ! i \<in> set (history op evs)" using assms(2) by (rule nth_mem)
  then show "history op evs ! i \<in> set evs" "ce_operation_id (history op evs ! i) = op" by simp_all
  show "ce_version (history op evs ! i) = i"
    using arg_cong [OF history_versions [OF assms(1), of op], of "\<lambda>xs. xs ! i"] assms(2) by simp
qed

text \<open>Only transitions that \<open>_ALLOWED_TRANSITIONS\<close> lists.\<close>

definition legal_path :: "cstate list \<Rightarrow> bool" where
  "legal_path ss \<longleftrightarrow> successively (\<lambda>s t. t \<in> allowed_transitions s) ss"

text \<open>The rows of one operation: numbered from 0 without gaps, authorized first, started at most once, one identity.\<close>

definition one_operation :: "cevent list \<Rightarrow> bool" where
  "one_operation h \<longleftrightarrow> map ce_version h = [0..<length h] \<and>
     (h \<noteq> [] \<longrightarrow> ce_state (hd h) = CS_AUTHORIZED) \<and>
     length (filter (\<lambda>e. ce_state e = CS_STARTED) h) \<le> 1 \<and>
     (\<forall>a \<in> set h. \<forall>b \<in> set h. same_operation a b)"

lemma events_wf_history:
  assumes wf: "events_wf evs"
  shows "one_operation (history op evs)" "successively event_step (map ce_state (history op evs))"
proof -
  let ?h = "history op evs"
  note nth = history_nth [OF wf, where op = op]
  have "ce_state (hd ?h) = CS_AUTHORIZED" if "?h \<noteq> []"
    using nth [of 0] that events_wf_head [OF wf] by (simp add: hd_conv_nth)
  moreover have "length (filter (\<lambda>e. ce_state e = CS_STARTED) ?h) \<le> 1"
  proof -
    have "distinct ?h" using history_versions [OF wf, of op] by (metis distinct_map distinct_upt)
    then have "length (filter (\<lambda>e. ce_state e = CS_STARTED) ?h) =
        card {e \<in> set ?h. ce_state e = CS_STARTED}" by (simp add: distinct_length_filter Int_def conj_commute)
    also have "\<dots> \<le> 1"
      using events_wf_started_unique [OF wf] by (auto simp: card_le_Suc0_iff_eq)
    finally show ?thesis .
  qed
  moreover have "\<forall>a \<in> set ?h. \<forall>b \<in> set ?h. same_operation a b"
    using events_wf_same_op [OF wf] by auto
  ultimately show "one_operation ?h" using history_versions [OF wf] by (simp add: one_operation_def)
  show "successively event_step (map ce_state ?h)"
    using nth events_wf_pred [OF wf] by (simp add: successively_conv_nth Suc_lessD)
qed

text \<open>With repeated states counted once, the rows of an operation are a path of listed transitions.\<close>

lemma event_step_legal: "successively event_step ss \<Longrightarrow> legal_path (remdups_adj ss)"
  by (induction ss rule: induct_list012) (auto simp: legal_path_def event_step_def successively_Cons remdups_adj_Cons split: list.splits)

lemma event_step_repeats:
  assumes "successively event_step ss" "Suc i < length ss" "ss ! i = ss ! Suc i"
  shows "ss ! i = CS_OUTCOME_UNKNOWN"
proof -
  have "event_step (ss ! i) (ss ! Suc i)" using assms(1,2) by (simp add: successively_conv_nth)
  then show ?thesis using assms(3) by (cases "ss ! i") (auto simp: event_step_def)
qed

subsection \<open>Writers of the ledger\<close>

text \<open>What every component that writes the ledger promises, and what its clients get from it.\<close>

locale event_writer =
  fixes writes :: "cevent list \<Rightarrow> cevent list \<Rightarrow> bool"
  assumes writes_append: "writes a b \<Longrightarrow> \<exists>ns. b = a @ ns"
    and writes_wf: "writes a b \<Longrightarrow> events_wf a \<Longrightarrow> events_wf b"
begin

lemma reach_append: "writes\<^sup>*\<^sup>* a b \<Longrightarrow> \<exists>ns. b = a @ ns"
  by (induction rule: rtranclp_induct) (auto dest: writes_append)

lemma reach_wf: "writes\<^sup>*\<^sup>* a b \<Longrightarrow> events_wf a \<Longrightarrow> events_wf b"
  by (induction rule: rtranclp_induct) (auto dest: writes_wf)

lemma final_stays:
  assumes "events_wf a" "latest_event op a = Some e" "allowed_transitions (ce_state e) = {}"
    and "writes\<^sup>*\<^sup>* a b"
  shows "latest_event op b = Some e"
proof -
  have wf: "events_wf b" using assms reach_wf by blast
  have e: "e \<in> set b" "ce_operation_id e = op"
    using latest_event_SomeD [OF assms(2)] reach_append [OF assms(4)] by auto
  show ?thesis
  proof (rule latest_event_eqI [OF wf e])
    fix d
    assume d: "d \<in> set b" "ce_operation_id d = op"
    show "ce_version d \<le> ce_version e"
    proof (rule ccontr)
      assume "\<not> ?thesis"
      then obtain q where q: "q \<in> set b" "same_operation q d" "ce_version q = Suc (ce_version e)"
        using events_wf_below [OF wf d(1), of "Suc (ce_version e)"] by auto
      then have "ce_operation_id e = ce_operation_id q" using e(2) d(2) by (simp add: same_operation_def)
      then have "event_step (ce_state e) (ce_state q)" using events_wf_pred [OF wf q(1) e(1) _ q(3)] by blast
      then show False using assms(3) by (cases "ce_state e") (auto simp: event_step_def)
    qed
  qed
qed

end

subsection \<open>The recorder writes legally\<close>

lemma authorized_started_shape:
  obtains a st where "authorized_started sha uid clk rc op ih res = [a, st]"
    "ce_operation_id a = op" "ce_version a = 0" "ce_state a = CS_AUTHORIZED" "follows a st"
    "ce_state st = CS_STARTED" "ce_receipt_id st = Some (ar_receipt_id rc)" "ce_intent_hash st = ih"
    "ce_event_id a = ''evt_'' @ uid 0" "ce_event_id st = ''evt_'' @ uid 1"
proof -
  let ?evs = "authorized_started sha uid clk rc op ih res"
  have "?evs = [?evs ! 0, ?evs ! 1]" "ce_operation_id (?evs ! 0) = op" "ce_version (?evs ! 0) = 0"
    "ce_state (?evs ! 0) = CS_AUTHORIZED" "follows (?evs ! 0) (?evs ! 1)" "ce_state (?evs ! 1) = CS_STARTED"
    "ce_receipt_id (?evs ! 1) = Some (ar_receipt_id rc)" "ce_intent_hash (?evs ! 1) = ih"
    "ce_event_id (?evs ! 0) = ''evt_'' @ uid 0" "ce_event_id (?evs ! 1) = ''evt_'' @ uid 1"
    by (simp_all add: authorized_started_def Let_def follows_next)
  then show thesis by (rule that)
qed

lemma recorder_begin_Inr:
  assumes "recorder_begin sha uid clk receipts seen evs rid op ih res = Inr evs'"
  obtains rc a st where "find (\<lambda>r. ar_receipt_id r = rid) receipts = Some rc" "ar_decision rc = ''allow''"
    "latest_event op seen = None"
    "evs' = evs @ [a, st]" "\<not> event_conflict evs a" "\<not> event_conflict (evs @ [a]) st"
    "ce_operation_id a = op" "ce_version a = 0" "ce_state a = CS_AUTHORIZED" "follows a st"
    "ce_state st = CS_STARTED" "ce_receipt_id st = Some rid" "ce_intent_hash st = ih"
proof -
  from assms obtain rc where rc: "find (\<lambda>r. ar_receipt_id r = rid) receipts = Some rc" "ar_decision rc = ''allow''"
    "latest_event op seen = None"
    "insert_events evs (authorized_started sha uid clk rc op ih res) = Some evs'"
    by (auto simp: recorder_begin_def split: option.splits if_splits)
  moreover have "ar_receipt_id rc = rid" using find_Some_in [OF rc(1)] by simp
  moreover obtain a st where "authorized_started sha uid clk rc op ih res = [a, st]"
    "ce_operation_id a = op" "ce_version a = 0" "ce_state a = CS_AUTHORIZED" "follows a st"
    "ce_state st = CS_STARTED" "ce_receipt_id st = Some (ar_receipt_id rc)" "ce_intent_hash st = ih"
    by (rule authorized_started_shape)
  ultimately show thesis using that [of rc a st] by (simp split: if_splits)
qed

lemma recorder_begin_wf [inv_intros]:
  assumes "recorder_begin sha uid clk receipts seen evs rid op ih res = Inr evs'" "events_wf evs"
  shows "events_wf evs'" "\<exists>ns. evs' = evs @ ns"
    "\<exists>st. latest_event op evs' = Some st \<and> ce_state st = CS_STARTED \<and>
       ce_receipt_id st = Some rid \<and> ce_intent_hash st = ih"
proof -
  obtain a st where e: "evs' = evs @ [a, st]" "\<not> event_conflict evs a" "\<not> event_conflict (evs @ [a]) st"
    "ce_operation_id a = op" "ce_version a = 0" "ce_state a = CS_AUTHORIZED" "follows a st"
    "ce_state st = CS_STARTED" "ce_receipt_id st = Some rid" "ce_intent_hash st = ih"
    using assms(1) by (rule recorder_begin_Inr)
  have wf1: "events_wf (evs @ [a])" using events_wf_start assms(2) e by blast
  have "a \<in> set (evs @ [a])" by simp
  note st = events_wf_extend [OF wf1 e(3) this e(7)] extend_is_latest [OF wf1 e(3) this e(7)]
  then show "events_wf evs'" using e(1) by simp
  show "\<exists>ns. evs' = evs @ ns" using e(1) by blast
  have "ce_operation_id st = op" using e(4,7) by (simp add: follows_def same_operation_def)
  with st(2) e show "\<exists>st. latest_event op evs' = Some st \<and> ce_state st = CS_STARTED \<and>
      ce_receipt_id st = Some rid \<and> ce_intent_hash st = ih" by simp
qed

lemma complete_target_step [simp]:
  "fst (complete_target ok u pt) \<in> allowed_transitions CS_STARTED"
  by (simp add: complete_target_def)

lemma recorder_complete_Inr:
  assumes "recorder_complete sha uid clk seen evs op ok u err pt pref = Inr (evs', e)"
  obtains l where "latest_event op seen = Some l" "ce_state l = CS_STARTED" "evs' = evs @ [e]"
    "\<not> event_conflict evs e" "follows l e" "ce_state e = fst (complete_target ok u pt)"
    "ce_error_summary e = err" "ce_operation_id e = op"
proof -
  obtain target ept where t: "complete_target ok u pt = (target, ept)" by (cases "complete_target ok u pt")
  have tgt: "target \<in> allowed_transitions CS_STARTED" using complete_target_step [of ok u pt] t by simp
  from assms obtain l where l: "latest_event op seen = Some l" "ce_state l = CS_STARTED"
    by (auto simp: recorder_complete_def split: option.splits if_splits)
  moreover obtain h where "e = next_event l (''evt_'' @ uid 0) target (Some 1) (clk 0) (Some ept) pref err h"
    "evs' = evs @ [e]" "\<not> event_conflict evs e"
    using assms l t tgt by (auto simp: recorder_complete_def Let_def split: option.splits if_splits)
  moreover have "ce_operation_id l = op" using l(1) by (rule latest_event_SomeD)
  ultimately show thesis using that [of l] t tgt by (simp add: follows_next event_step_def)
qed

lemma recorder_complete_wf [inv_intros]:
  assumes "recorder_complete sha uid clk seen evs op ok u err pt pref = Inr (evs', e)" "events_wf evs"
    and "set seen \<subseteq> set evs"
  shows "events_wf evs'" "\<exists>ns. evs' = evs @ ns" "latest_event op evs' = Some e"
proof -
  obtain l where l: "latest_event op seen = Some l" "ce_state l = CS_STARTED" "evs' = evs @ [e]"
    "\<not> event_conflict evs e" "follows l e" "ce_operation_id e = op"
    using assms(1) by (rule recorder_complete_Inr)
  moreover have "l \<in> set evs" using latest_event_SomeD(1) [OF l(1)] assms(3) by blast
  ultimately show "events_wf evs'" "\<exists>ns. evs' = evs @ ns" "latest_event op evs' = Some e"
    using events_wf_extend assms(2) extend_is_latest by blast+
qed

inductive recorder_writes :: "(string \<Rightarrow> digest) \<Rightarrow> receipt list \<Rightarrow> cevent list \<Rightarrow> cevent list \<Rightarrow> bool"
  for sha receipts where
  writes_begin: "recorder_begin sha uid clk receipts seen evs rid op ih res = Inr evs' \<Longrightarrow>
     set seen \<subseteq> set evs \<Longrightarrow> recorder_writes sha receipts evs evs'"
| writes_complete: "recorder_complete sha uid clk seen evs op ok u err pt pref = Inr (evs', e) \<Longrightarrow>
     set seen \<subseteq> set evs \<Longrightarrow> recorder_writes sha receipts evs evs'"

lemma recorder_writes_append: "recorder_writes sha receipts evs evs' \<Longrightarrow> \<exists>ns. evs' = evs @ ns"
  by (induction rule: recorder_writes.induct) (auto elim: recorder_begin_Inr recorder_complete_Inr)

interpretation rec: event_writer "recorder_writes sha receipts" for sha receipts
proof unfold_locales
  fix a b
  assume w: "recorder_writes sha receipts a b"
  then show "\<exists>ns. b = a @ ns" by (rule recorder_writes_append)
  assume "events_wf a"
  with w show "events_wf b"
    by (induction rule: recorder_writes.induct) (auto intro: recorder_begin_wf recorder_complete_wf)
qed

subsection \<open>Properties of the ledger\<close>

text \<open>The recorder writes at most three rows for an operation.\<close>

lemma recorder_versions:
  assumes "recorder_writes sha receipts a b" "events_wf a" "\<forall>e \<in> set a. ce_version e \<le> 2"
  shows "\<forall>e \<in> set b. ce_version e \<le> 2"
  using assms
proof (induction)
  case (writes_begin uid clk seen evs rid op ih res evs')
  obtain x y where "evs' = evs @ [x, y]" "ce_version x = 0" "follows x y"
    using writes_begin.hyps(1) by (rule recorder_begin_Inr)
  then show ?case using writes_begin.prems by (auto simp: follows_def)
next
  case (writes_complete uid clk seen evs op ok u err pt pref evs' e)
  obtain l where l: "latest_event op seen = Some l" "ce_state l = CS_STARTED" "evs' = evs @ [e]" "follows l e"
    using writes_complete.hyps(1) by (rule recorder_complete_Inr)
  have "l \<in> set evs" using latest_event_SomeD(1) [OF l(1)] writes_complete.hyps(2) by blast
  then have "ce_version l = 1" using events_wf_started_version [OF writes_complete.prems(1) _ l(2)] by blast
  then show ?case using writes_complete.prems l(3,4) by (auto simp: follows_def)
qed

lemma recorder_run:
  assumes "(recorder_writes sha receipts)\<^sup>*\<^sup>* [] evs"
  shows "events_wf evs" "\<forall>e \<in> set evs. ce_version e \<le> 2"
proof -
  have "events_wf evs \<and> (\<forall>e \<in> set evs. ce_version e \<le> 2)" using assms
  proof (induction)
    case (step b c)
    then show ?case using rec.writes_wf [OF step.hyps(2)] recorder_versions [OF step.hyps(2)] by blast
  qed simp
  then show "events_wf evs" "\<forall>e \<in> set evs. ce_version e \<le> 2" by blast+
qed

lemma short_legal:
  assumes "successively event_step ss" "length ss \<le> 3" "ss \<noteq> [] \<longrightarrow> hd ss = CS_AUTHORIZED"
  shows "legal_path ss"
proof (cases ss)
  case (Cons a ss1)
  show ?thesis
  proof (cases ss1)
    case (Cons b ss2)
    then show ?thesis using assms \<open>ss = a # ss1\<close> by (cases ss2) (auto simp: legal_path_def event_step_def)
  qed (simp add: Cons legal_path_def)
qed (simp add: legal_path_def)

text \<open>
  C30. However the recorder's calls interleave, and however stale the rows they read, the rows of
  each operation are one path of the transition table: at most three rows, numbered 0, 1, 2 without
  gaps, starting at \<open>AUTHORIZED\<close>, every step a listed transition, at most one \<open>STARTED\<close>, all with the
  same intent hash, receipt, mount, principal, action and resource.
\<close>

theorem recorder_history_legal:
  assumes "(recorder_writes sha receipts)\<^sup>*\<^sup>* [] evs"
  shows "one_operation (history op evs) \<and> legal_path (map ce_state (history op evs)) \<and> length (history op evs) \<le> 3"
proof -
  let ?h = "history op evs"
  note run = recorder_run [OF assms] and h = events_wf_history [OF recorder_run(1) [OF assms], of op]
  have len: "length ?h \<le> 3"
  proof (rule ccontr)
    assume "\<not> ?thesis"
    then have "3 < length ?h" by simp
    then show False using history_nth [OF run(1), of 3 op] run(2) by fastforce
  qed
  moreover have "map ce_state ?h \<noteq> [] \<longrightarrow> hd (map ce_state ?h) = CS_AUTHORIZED" using h(1) by (simp add: one_operation_def hd_map)
  ultimately have "legal_path (map ce_state ?h)" using short_legal [OF h(2)] by simp
  then show ?thesis using h(1) len by simp
qed

definition sample_uid :: "nat \<Rightarrow> string" where
  "sample_uid i = replicate i (CHR ''x'')"

definition sample_events :: "cevent list" where
  "sample_events = authorized_started id sample_uid (\<lambda>i. 0) sample_receipt ''op'' ''ih'' None"

lemma sample_begin:
  "recorder_begin id sample_uid (\<lambda>i. 0) [sample_receipt] [] [] ''rcpt_1'' ''op'' ''ih'' None = Inr sample_events"
  by (simp add: recorder_begin_def sample_receipt_def latest_event_def sample_events_def
      authorized_started_def Let_def event_conflict_def sample_uid_def next_event_def)

lemma sample_writes: "(recorder_writes id [sample_receipt])\<^sup>*\<^sup>* [] sample_events"
  using writes_begin [OF sample_begin] by simp

lemma sample_started: "\<exists>st. latest_event ''op'' sample_events = Some st \<and> ce_state st = CS_STARTED"
  using recorder_begin_wf(3) [OF sample_begin] by auto

lemma sample_wf: "events_wf sample_events"
  using recorder_begin_wf(1) [OF sample_begin] by simp

lemma sample_ids: "e \<in> set sample_events \<Longrightarrow> ce_event_id e \<noteq> ''evt_xx''"
  by (auto simp: sample_events_def authorized_started_def Let_def sample_uid_def next_event_def)


text \<open>
  Once an operation's latest row is final (\<open>SUCCEEDED\<close>, \<open>FAILED\<close>, \<open>STALE_AUTHORITY\<close> or a
  reconciled outcome), no later write of the recorder changes what is reported for it.
\<close>

theorem recorder_final_stays:
  assumes "(recorder_writes sha receipts)\<^sup>*\<^sup>* [] a" "latest_event op a = Some e"
    and "ce_state e \<in> {CS_SUCCEEDED, CS_FAILED, CS_STALE_AUTHORITY, CS_RECONCILED_SUCCEEDED, CS_RECONCILED_FAILED}"
    and "(recorder_writes sha receipts)\<^sup>*\<^sup>* a b"
  shows "latest_event op b = Some e"
proof (rule rec.final_stays)
  show "events_wf a" using rec.reach_wf [OF assms(1)] by simp
  show "allowed_transitions (ce_state e) = {}" using assms(3) by auto
qed (use assms in auto)

subsection \<open>The executor\<close>

text \<open>The state each way of settling must be recorded as.\<close>

fun settled_state :: "(string \<Rightarrow> digest) \<Rightarrow> resolver \<Rightarrow> settled \<Rightarrow> cstate" where
  "settled_state sha rs (Delegate_Returned result) =
     (if \<exists>p. completion_proof sha rs result = Inr p then CS_SUCCEEDED else CS_OUTCOME_UNKNOWN)"
| "settled_state sha rs (TerminalExecutionError msg) = CS_FAILED"
| "settled_state sha rs (ProviderExecutionError msg) = CS_OUTCOME_UNKNOWN"
| "settled_state sha rs (ExecutorUnavailableError msg) = CS_OUTCOME_UNKNOWN"
| "settled_state sha rs (Delegate_Exception msg) = CS_OUTCOME_UNKNOWN"

lemma recorder_complete_started:
  assumes "latest_event op evs = Some l" "ce_state l = CS_STARTED" "events_wf evs"
    and "\<And>e. e \<in> set evs \<Longrightarrow> ce_event_id e \<noteq> ''evt_'' @ uid 0"
  obtains e where "recorder_complete sha uid clk evs evs op ok u err pt pref = Inr (evs @ [e], e)"
proof -
  obtain target ept where t: "complete_target ok u pt = (target, ept)" by (cases "complete_target ok u pt")
  have tgt: "target \<in> allowed_transitions CS_STARTED" using complete_target_step [of ok u pt] t by simp
  have "\<not> event_conflict evs (next_event l (''evt_'' @ uid 0) target ep now p1 p2 p3 ph)" for ep now p1 p2 p3 ph
    using assms(4) latest_event_max [OF assms(1)] latest_event_SomeD(2) [OF assms(1)]
    by (fastforce simp: event_conflict_def)
  with assms(1,2) t tgt that show thesis by (simp add: recorder_complete_def Let_def)
qed

lemma complete_then_started:
  assumes "latest_event op evs = Some l" "ce_state l = CS_STARTED" "events_wf evs"
    and "\<And>e. e \<in> set evs \<Longrightarrow> ce_event_id e \<noteq> ''evt_'' @ uid 0"
  shows "\<exists>e. fst (complete_then (recorder_complete sha uid clk evs evs op ok u err pt pref) evs out) = evs @ [e] \<and>
    latest_event op (evs @ [e]) = Some e \<and> ce_state e = fst (complete_target ok u pt)"
proof -
  obtain e where e: "recorder_complete sha uid clk evs evs op ok u err pt pref = Inr (evs @ [e], e)"
    using recorder_complete_started assms by blast
  moreover have "latest_event op (evs @ [e]) = Some e"
    using recorder_complete_wf(3) [OF e assms(3)] by simp
  moreover have "ce_state e = fst (complete_target ok u pt)"
    using recorder_complete_Inr [OF e] by blast
  ultimately show ?thesis by (auto simp: complete_then_def)
qed

lemma sample_completed:
  obtains e where "(recorder_writes id [sample_receipt])\<^sup>*\<^sup>* [] (sample_events @ [e])"
    "latest_event ''op'' (sample_events @ [e]) = Some e" "ce_state e = CS_SUCCEEDED"
proof -
  obtain st where st: "latest_event ''op'' sample_events = Some st" "ce_state st = CS_STARTED"
    using sample_started by blast
  obtain e where e: "recorder_complete id (\<lambda>i. ''xx'') (\<lambda>i. 0) sample_events sample_events ''op'' True False None
      ''callback_return'' None = Inr (sample_events @ [e], e)"
    by (rule recorder_complete_started [OF st sample_wf, of "\<lambda>i. ''xx''"]) (auto dest: sample_ids)
  show thesis
  proof (rule that)
    show "(recorder_writes id [sample_receipt])\<^sup>*\<^sup>* [] (sample_events @ [e])"
      using sample_writes writes_complete [OF e] by (auto intro: rtranclp.rtrancl_into_rtrancl)
    show "latest_event ''op'' (sample_events @ [e]) = Some e" using recorder_complete_wf(3) [OF e sample_wf] by simp
    show "ce_state e = CS_SUCCEEDED" using recorder_complete_Inr [OF e] by (simp add: complete_target_def)
  qed
qed

theorem recorder_history_legal_witness:
  "\<exists>evs e. (recorder_writes id [sample_receipt])\<^sup>*\<^sup>* [] evs \<and> length evs = 3 \<and> latest_event ''op'' evs = Some e \<and>
     ce_state e = CS_SUCCEEDED \<and> one_operation (history ''op'' evs) \<and> legal_path (map ce_state (history ''op'' evs))"
proof -
  obtain e where e: "(recorder_writes id [sample_receipt])\<^sup>*\<^sup>* [] (sample_events @ [e])"
    "latest_event ''op'' (sample_events @ [e]) = Some e" "ce_state e = CS_SUCCEEDED" by (rule sample_completed)
  have "length (sample_events @ [e]) = 3" by (simp add: sample_events_def authorized_started_def Let_def)
  then show ?thesis using recorder_history_legal [OF e(1), of "''op''"] e by blast
qed

theorem recorder_final_stays_witness:
  "\<exists>a e. (recorder_writes id [sample_receipt])\<^sup>*\<^sup>* [] a \<and> ce_state e = CS_SUCCEEDED \<and>
     latest_event ''op'' a = Some e"
proof -
  obtain e where e: "(recorder_writes id [sample_receipt])\<^sup>*\<^sup>* [] (sample_events @ [e])"
    "latest_event ''op'' (sample_events @ [e]) = Some e" "ce_state e = CS_SUCCEEDED" by (rule sample_completed)
  from recorder_final_stays [OF e(1,2) _ rtranclp.rtrancl_refl] e show ?thesis by blast
qed



text \<open>
  Nothing is dispatched before its start is durable: the executor calls its delegate only on
  a table whose latest row for the operation is the committed \<open>STARTED\<close> row bound to the
  persisted allow receipt, so two delegates that agree on those tables are indistinguishable.
\<close>

theorem lifecycle_dispatch_after_started:
  assumes "events_wf evs"
    and agree: "\<And>t st. latest_event op t = Some st \<Longrightarrow> ce_state st = CS_STARTED \<Longrightarrow> ce_receipt_id st = Some rid \<Longrightarrow>
      \<exists>rc \<in> set receipts. ar_receipt_id rc = rid \<and> ar_decision rc = ''allow'' \<Longrightarrow> d t = d' t"
  shows "lifecycle_execute sha uid clk receipts d rs evs rid op ih res =
    lifecycle_execute sha uid clk receipts d' rs evs rid op ih res"
proof (cases "recorder_begin sha uid clk receipts evs evs rid op ih res")
  case (Inr evs1)
  obtain st where "latest_event op evs1 = Some st" "ce_state st = CS_STARTED" "ce_receipt_id st = Some rid"
    using recorder_begin_wf(3) [OF Inr assms(1)] by blast
  moreover obtain rc where "find (\<lambda>r. ar_receipt_id r = rid) receipts = Some rc" "ar_decision rc = ''allow''"
    using Inr by (rule recorder_begin_Inr)
  ultimately have "d evs1 = d' evs1" using find_Some_in by (intro agree) fastforce+
  with Inr show ?thesis by (simp add: lifecycle_execute_def)
qed (simp add: lifecycle_execute_def)

theorem lifecycle_dispatch_after_started_witness:
  "lifecycle_execute id sample_uid (\<lambda>i. 0) [sample_receipt] (\<lambda>t. (Delegate_Returned JNull, t)) No_Resolver
      [] ''rcpt_1'' ''op'' ''ih'' None =
   lifecycle_execute id sample_uid (\<lambda>i. 0) [sample_receipt]
      (\<lambda>t. if latest_event ''op'' t = None then (Delegate_Exception ''early'', []) else (Delegate_Returned JNull, t))
      No_Resolver [] ''rcpt_1'' ''op'' ''ih'' None"
  by (rule lifecycle_dispatch_after_started) auto

end
