(* ===== verification/Lease.thy ===== *)
theory Lease
  imports Prelude
begin

text \<open>
  Capability leases (\<open>models/capability_lease.py\<close>): the resource algebra, the evaluation of
  effective authority under lease, signed token and package, and the lease state machine. The
  check \<open>_resource_in\<close> that the mount service applies to the result
  (\<open>capability_mount/service.py\<close>) is modelled here beside the algebra it reads. The lemmas show
  that the intersection is exact, so effective authority is exactly what all three sources
  grant, that revoked and expired leases stay so, and how far attenuation can narrow.
\<close>

subsection \<open>Data\<close>

datatype lease_state = LS_ISSUED | LS_ACTIVE | LS_EXPIRED | LS_REVOKED | LS_SUSPENDED

datatype connectivity = ONLINE | OFFLINE

record authority_context =
  ac_allowed_actions :: "string set"
  ac_allowed_resources :: "string set"
  ac_executor_spiffe_id :: string
  ac_subject_spiffe_id :: string
  ac_expires_at :: "time option"
  ac_delegation_depth :: int
  ac_max_delegation_depth :: int
  ac_authority_epoch :: int

text \<open>The set columns are stored as JSON arrays and read back as sets; they are sets here.\<close>

record lease =
  ls_lease_id :: string
  ls_mount_id :: string
  ls_capability_id :: string
  ls_policy_version :: string
  ls_execution_identity :: string
  ls_subject_spiffe_id :: string
  ls_executor_spiffe_id :: string
  ls_biscuit_hash :: string
  ls_issued_at :: time
  ls_not_before :: time
  ls_expires_at :: time
  ls_lease_state :: lease_state
  ls_lease_state_version :: int
  ls_authority_epoch :: int
  ls_revocation_epoch :: int
  ls_revocation_scope :: string
  ls_delegation_depth :: int
  ls_max_delegation_depth :: int
  ls_allowed_actions :: "string set"
  ls_allowed_resources :: "string set"
  ls_offline_enabled :: bool
  ls_maximum_offline_duration :: int
  ls_offline_budget :: int
  ls_offline_side_effect_limit :: int
  ls_last_known_policy_epoch :: int
  ls_last_known_revocation_epoch :: int
  ls_reconciliation_required :: bool
  ls_created_at :: time
  ls_updated_at :: time

datatype invariant_violation =
    Lease_Cannot_Authorize lease_state
  | METADATA_CAN_AUTHORIZE_WITHOUT_BISCUIT
  | LEASE_CAN_WIDEN_ACTION
  | LEASE_CAN_WIDEN_RESOURCE
  | LEASE_CAN_CHANGE_EXECUTOR
  | LEASE_CAN_CHANGE_SUBJECT
  | LEASE_CAN_EXTEND_EXPIRY
  | LEASE_CAN_INCREASE_DELEGATION
  | LEASE_CAN_ROLLBACK_AUTHORITY_EPOCH
  | OFFLINE_MODE_CAN_CREATE_NEW_AUTHORITY
  | OFFLINE_DURATION_EXCEEDED
  | RECONCILIATION_REQUIRED_BLOCKS_OFFLINE
  | REVOKED_LEASE_CAN_RESURRECT
  | EXPIRED_LEASE_CAN_RESURRECT
  | LEASE_CAN_ROLLBACK_REVOCATION_EPOCH
  | CHILD_LEASE_CANNOT_WIDEN_ACTIONS
  | CHILD_LEASE_CANNOT_WIDEN_RESOURCES
  | Action_Not_Effective string
  | Resource_Bound_Not_Signed
  | Resource_Not_Granted

subsection \<open>Resources\<close>

text \<open>\<open>p[:-1]\<close> and \<open>p[:-2]\<close> of a pattern.\<close>

abbreviation dir_prefix :: "string \<Rightarrow> string" where
  "dir_prefix p \<equiv> butlast p"

definition is_dir :: "string \<Rightarrow> bool" where
  "is_dir p \<longleftrightarrow> ends_with p ''/*''"

definition resource_issubset :: "string set \<Rightarrow> string set \<Rightarrow> bool" where
  "resource_issubset smaller larger \<longleftrightarrow> ''*'' \<in> larger \<or>
     (\<forall>s_res \<in> smaller. \<exists>p_res \<in> larger. p_res = s_res \<or>
        is_dir p_res \<and> (starts_with s_res (dir_prefix p_res) \<or> s_res = butlast (butlast p_res)))"

definition resource_meet :: "string \<Rightarrow> string \<Rightarrow> string set" where
  "resource_meet res1 res2 =
     (if res1 = res2 then {res1}
      else if is_dir res2 \<and> starts_with res1 (dir_prefix res2) then {res1}
      else if is_dir res1 \<and> starts_with res2 (dir_prefix res1) then {res2}
      else {})"

definition resource_intersection :: "string set \<Rightarrow> string set \<Rightarrow> string set" where
  "resource_intersection set1 set2 =
     (if ''*'' \<in> set1 \<and> ''*'' \<in> set2 then {''*''}
      else if ''*'' \<in> set1 then set2
      else if ''*'' \<in> set2 then set1
      else (\<Union>res1 \<in> set1. \<Union>res2 \<in> set2. resource_meet res1 res2))"

definition resource_in :: "string option \<Rightarrow> string set \<Rightarrow> bool" where
  "resource_in resource allowed \<longleftrightarrow> ''*'' \<in> allowed \<or>
     (case resource of None \<Rightarrow> False
      | Some r \<Rightarrow> \<exists>bound \<in> allowed. r = bound \<or> is_dir bound \<and> starts_with r (dir_prefix bound))"

subsection \<open>Evaluation and transitions\<close>

text \<open>\<open>dt.replace(microsecond=0)\<close>.\<close>

definition whole_seconds :: "time \<Rightarrow> time" where
  "whole_seconds t = t - t mod 1000000"

definition evaluate_authority ::
  "lease \<Rightarrow> authority_context option \<Rightarrow> authority_context \<Rightarrow> connectivity \<Rightarrow> time \<Rightarrow>
   invariant_violation + authority_context" where
  "evaluate_authority l biscuit_auth package_auth conn now =
    (if ls_lease_state l \<notin> {LS_ISSUED, LS_ACTIVE} then Inl (Lease_Cannot_Authorize (ls_lease_state l))
     else case biscuit_auth of
       None \<Rightarrow> Inl METADATA_CAN_AUTHORIZE_WITHOUT_BISCUIT
     | Some b \<Rightarrow>
         if \<not> ls_allowed_actions l \<subseteq> ac_allowed_actions b then Inl LEASE_CAN_WIDEN_ACTION
         else if \<not> resource_issubset (ls_allowed_resources l) (ac_allowed_resources b) then Inl LEASE_CAN_WIDEN_RESOURCE
         else if ls_executor_spiffe_id l \<noteq> ac_executor_spiffe_id b then Inl LEASE_CAN_CHANGE_EXECUTOR
         else if ls_subject_spiffe_id l \<noteq> ac_subject_spiffe_id b then Inl LEASE_CAN_CHANGE_SUBJECT
         else if (case ac_expires_at b of None \<Rightarrow> False
                  | Some be \<Rightarrow> whole_seconds (ls_expires_at l) > whole_seconds be) then Inl LEASE_CAN_EXTEND_EXPIRY
         else if ls_delegation_depth l > ac_max_delegation_depth b then Inl LEASE_CAN_INCREASE_DELEGATION
         else if ls_authority_epoch l < ac_authority_epoch b then Inl LEASE_CAN_ROLLBACK_AUTHORITY_EPOCH
         else if conn = OFFLINE \<and> \<not> ls_offline_enabled l then Inl OFFLINE_MODE_CAN_CREATE_NEW_AUTHORITY
         else if conn = OFFLINE \<and> ls_maximum_offline_duration l > 0 \<and>
                 now - ls_updated_at l > ls_maximum_offline_duration l * 1000000 then Inl OFFLINE_DURATION_EXCEEDED
         else if conn = OFFLINE \<and> ls_reconciliation_required l then Inl RECONCILIATION_REQUIRED_BLOCKS_OFFLINE
         else Inr
           \<lparr>ac_allowed_actions = ls_allowed_actions l \<inter> ac_allowed_actions b \<inter> ac_allowed_actions package_auth,
            ac_allowed_resources = resource_intersection
              (resource_intersection (ls_allowed_resources l) (ac_allowed_resources b))
              (ac_allowed_resources package_auth),
            ac_executor_spiffe_id = ls_executor_spiffe_id l,
            ac_subject_spiffe_id = ls_subject_spiffe_id l,
            ac_expires_at = Some (ls_expires_at l),
            ac_delegation_depth = ls_delegation_depth l,
            ac_max_delegation_depth = ls_max_delegation_depth l,
            ac_authority_epoch = ls_authority_epoch l\<rparr>)"

definition transition_state :: "lease \<Rightarrow> lease_state \<Rightarrow> int \<Rightarrow> invariant_violation + lease" where
  "transition_state l new_state current_epoch =
    (if ls_lease_state l = LS_REVOKED \<and> new_state \<noteq> LS_REVOKED then Inl REVOKED_LEASE_CAN_RESURRECT
     else if ls_lease_state l = LS_EXPIRED \<and> new_state \<noteq> LS_EXPIRED then Inl EXPIRED_LEASE_CAN_RESURRECT
     else if current_epoch < ls_authority_epoch l then Inl LEASE_CAN_ROLLBACK_AUTHORITY_EPOCH
     else if new_state = LS_REVOKED \<and> current_epoch < ls_revocation_epoch l then
       Inl LEASE_CAN_ROLLBACK_REVOCATION_EPOCH
     else
       let l1 = (if new_state = LS_REVOKED then l\<lparr>ls_revocation_epoch := current_epoch\<rparr> else l)
       in Inr (l1\<lparr>ls_lease_state := new_state, ls_authority_epoch := current_epoch,
                  ls_lease_state_version := ls_lease_state_version l1 + 1\<rparr>))"

definition attenuate :: "lease \<Rightarrow> string set \<Rightarrow> string set \<Rightarrow> int \<Rightarrow> invariant_violation + lease" where
  "attenuate l new_actions new_resources current_epoch =
    (if \<not> new_actions \<subseteq> ls_allowed_actions l then Inl CHILD_LEASE_CANNOT_WIDEN_ACTIONS
     else if \<not> resource_issubset new_resources (ls_allowed_resources l) then Inl CHILD_LEASE_CANNOT_WIDEN_RESOURCES
     else if current_epoch < ls_revocation_epoch l then Inl LEASE_CAN_ROLLBACK_REVOCATION_EPOCH
     else Inr (l\<lparr>ls_allowed_actions := new_actions, ls_allowed_resources := new_resources,
                 ls_revocation_epoch := current_epoch,
                 ls_lease_state_version := ls_lease_state_version l + 1\<rparr>))"

subsection \<open>The resource algebra is exact\<close>

lemma is_dirE:
  assumes "is_dir p"
  obtains q where "p = q @ ''/*''" "dir_prefix p = q @ ''/''" "butlast (butlast p) = q"
  using assms by (auto simp: is_dir_def ends_with_iff butlast_append)

lemma covers_dir:
  assumes "is_dir a" "is_dir b" "starts_with a (dir_prefix b)" "starts_with r (dir_prefix a)"
  shows "starts_with r (dir_prefix b)"
proof -
  obtain qa where qa: "a = qa @ ''/*''" "dir_prefix a = qa @ ''/''" using assms(1) by (rule is_dirE)
  obtain qb where qb: "dir_prefix b = qb @ ''/''" using assms(2) by (rule is_dirE)
  obtain t where t: "(qa @ ''/'') @ [CHR ''*''] = (qb @ ''/'') @ t"
    using assms(3) qa qb by (auto simp: starts_with_iff)
  have "\<exists>t'. qa @ ''/'' = (qb @ ''/'') @ t'"
  proof (cases t rule: rev_cases)
    case Nil
    then show ?thesis using arg_cong [OF t, of last] by simp
  next
    case (snoc t' c)
    then have "(qa @ ''/'') @ [CHR ''*''] = ((qb @ ''/'') @ t') @ [c]" using t by simp
    then show ?thesis by (simp only: append1_eq_conv) blast
  qed
  then have "starts_with (dir_prefix a) (dir_prefix b)" using qa qb by (auto simp: starts_with_iff)
  then show ?thesis using assms(4) starts_with_trans by blast
qed

definition covered :: "string \<Rightarrow> string \<Rightarrow> bool" where
  "covered r b \<longleftrightarrow> r = b \<or> is_dir b \<and> starts_with r (dir_prefix b)"

lemma covered_trans: "covered a b \<Longrightarrow> covered r a \<Longrightarrow> covered r b"
  using covers_dir by (auto simp: covered_def)

lemma covered_refl [simp]: "covered a a"
  by (simp add: covered_def)

lemma resource_in_covered:
  "resource_in (Some r) A \<longleftrightarrow> ''*'' \<in> A \<or> (\<exists>b \<in> A. covered r b)"
  by (simp add: resource_in_def covered_def)

lemma resource_meet_covered: "x \<in> resource_meet a b \<longleftrightarrow> (x = a \<or> x = b) \<and> covered x a \<and> covered x b \<and>
    (x = a \<or> \<not> covered a b)"
  by (auto simp: resource_meet_def covered_def)

text \<open>Two patterns that cover a common name are comparable.\<close>

lemma covered_linear:
  assumes "covered r a" "covered r b"
  shows "covered a b \<or> covered b a"
proof (cases "r = a \<or> r = b")
  case False
  with assms have "is_dir a" "is_dir b" "starts_with r (dir_prefix a)" "starts_with r (dir_prefix b)"
    by (auto simp: covered_def)
  moreover have "starts_with a (dir_prefix a)" if "is_dir a" for a
    using that by (rule is_dirE) (simp add: starts_with_iff)
  ultimately show ?thesis
    using starts_with_linear [of r "dir_prefix a" "dir_prefix b"] starts_with_trans [of a "dir_prefix a" "dir_prefix b"]
      starts_with_trans [of b "dir_prefix b" "dir_prefix a"] by (auto simp: covered_def)
qed (use assms in auto)

lemma meet_covers: "(\<exists>x \<in> resource_meet a b. covered r x) \<longleftrightarrow> covered r a \<and> covered r b"
proof
  assume "covered r a \<and> covered r b"
  then consider "covered a b" "covered r a" | "covered b a" "\<not> covered a b" "covered r b"
    using covered_linear by blast
  then show "\<exists>x \<in> resource_meet a b. covered r x"
    by cases (auto simp: resource_meet_covered)
qed (auto simp: resource_meet_covered intro: covered_trans)

lemma resource_in_intersection:
  "resource_in r (resource_intersection A B) \<longleftrightarrow> resource_in r A \<and> resource_in r B"
proof (cases "''*'' \<in> A \<or> ''*'' \<in> B")
  case True
  then show ?thesis by (auto simp: resource_intersection_def resource_in_def)
next
  case False
  then have star: "''*'' \<notin> resource_intersection A B"
    by (auto simp: resource_intersection_def resource_meet_def split: if_splits)
  show ?thesis
  proof (cases r)
    case None
    then show ?thesis using False star by (simp add: resource_in_def)
  next
    case (Some x)
    have "(\<exists>b \<in> resource_intersection A B. covered x b) \<longleftrightarrow>
        (\<exists>a \<in> A. \<exists>b \<in> B. \<exists>y \<in> resource_meet a b. covered x y)"
      using False by (auto simp: resource_intersection_def)
    also have "\<dots> \<longleftrightarrow> (\<exists>a \<in> A. covered x a) \<and> (\<exists>b \<in> B. covered x b)"
      by (auto simp: meet_covers)
    finally show ?thesis using False star Some by (simp add: resource_in_covered)
  qed
qed

subsection \<open>Meets of grants\<close>

text \<open>
  Actions and resources are combined the same way: a meet whose members are exactly the common
  members of its arguments.
\<close>

locale grant_algebra =
  fixes member :: "'r \<Rightarrow> 'g \<Rightarrow> bool" and meet :: "'g \<Rightarrow> 'g \<Rightarrow> 'g"
  assumes member_meet: "member r (meet a b) \<longleftrightarrow> member r a \<and> member r b"
begin

lemma member_meet3: "member r (meet (meet a b) c) \<longleftrightarrow> member r a \<and> member r b \<and> member r c"
  by (simp add: member_meet)

lemma meet_lower: "member r (meet a b) \<Longrightarrow> member r a" "member r (meet a b) \<Longrightarrow> member r b"
  by (simp_all add: member_meet)

lemma meet_order: "member r (meet (meet a b) c) \<longleftrightarrow> member r (meet (meet c b) a)"
  by (auto simp: member_meet)

end

interpretation action_grants: grant_algebra "(\<in>)" "(\<inter>) :: string set \<Rightarrow> string set \<Rightarrow> string set"
  by unfold_locales simp

interpretation resource_grants: grant_algebra resource_in resource_intersection
  by unfold_locales (rule resource_in_intersection)

lemmas grant_simps = action_grants.member_meet3 resource_grants.member_meet3

lemma evaluate_authority_Inr:
  assumes "evaluate_authority l ba pa conn now = Inr eff"
  obtains b where "ba = Some b" "ls_lease_state l \<in> {LS_ISSUED, LS_ACTIVE}"
    "ls_allowed_actions l \<subseteq> ac_allowed_actions b"
    "resource_issubset (ls_allowed_resources l) (ac_allowed_resources b)"
    "ls_executor_spiffe_id l = ac_executor_spiffe_id b" "ls_subject_spiffe_id l = ac_subject_spiffe_id b"
    "\<And>be. ac_expires_at b = Some be \<Longrightarrow> whole_seconds (ls_expires_at l) \<le> whole_seconds be"
    "ls_delegation_depth l \<le> ac_max_delegation_depth b" "ac_authority_epoch b \<le> ls_authority_epoch l"
    "ac_allowed_actions eff = ls_allowed_actions l \<inter> ac_allowed_actions b \<inter> ac_allowed_actions pa"
    "ac_allowed_resources eff = resource_intersection
       (resource_intersection (ls_allowed_resources l) (ac_allowed_resources b)) (ac_allowed_resources pa)"
    "ac_executor_spiffe_id eff = ls_executor_spiffe_id l" "ac_subject_spiffe_id eff = ls_subject_spiffe_id l"
    "ac_authority_epoch eff = ls_authority_epoch l" "ac_expires_at eff = Some (ls_expires_at l)"
proof (cases ba)
  case None
  then show thesis using assms by (simp add: evaluate_authority_def split: if_splits)
next
  case (Some b)
  from assms show thesis
    unfolding evaluate_authority_def Some option.case
    apply (simp only: split: if_splits)
    apply (simp_all only: sum.distinct)
    apply (rule that [of b])
    by (auto simp: Some not_less)
qed

subsection \<open>Properties\<close>

text \<open>
  C26. Effective authority is exactly the common grant: when \<open>evaluate_authority\<close> returns, an
  action is effective iff the lease, the signed token and the package all allow it, a resource
  is covered by the effective set iff all three cover it, the lease is issued or active, the
  executor and subject are the token's, and neither the expiry nor the delegation depth nor the
  epoch goes beyond what the token carries.
\<close>

theorem effective_authority_exact:
  assumes "evaluate_authority l (Some b) pa conn now = Inr eff"
  shows "(a \<in> ac_allowed_actions eff \<longleftrightarrow>
      a \<in> ls_allowed_actions l \<and> a \<in> ac_allowed_actions b \<and> a \<in> ac_allowed_actions pa) \<and>
    (resource_in r (ac_allowed_resources eff) \<longleftrightarrow>
      resource_in r (ls_allowed_resources l) \<and> resource_in r (ac_allowed_resources b) \<and>
      resource_in r (ac_allowed_resources pa)) \<and>
    ls_lease_state l \<in> {LS_ISSUED, LS_ACTIVE} \<and>
    ac_executor_spiffe_id eff = ac_executor_spiffe_id b \<and> ac_subject_spiffe_id eff = ac_subject_spiffe_id b \<and>
    (ac_expires_at b = Some be \<longrightarrow> whole_seconds (ls_expires_at l) \<le> whole_seconds be) \<and>
    ls_delegation_depth l \<le> ac_max_delegation_depth b \<and> ac_authority_epoch b \<le> ac_authority_epoch eff"
  using assms by (rule evaluate_authority_Inr) (simp add: grant_simps)

definition sample_lease :: lease where
  "sample_lease =
    \<lparr>ls_lease_id = ''lease_m'', ls_mount_id = ''m'', ls_capability_id = ''cap'', ls_policy_version = ''1.0'',
     ls_execution_identity = ''ex'', ls_subject_spiffe_id = ''s'', ls_executor_spiffe_id = ''e'',
     ls_biscuit_hash = ''none'', ls_issued_at = 0, ls_not_before = 0, ls_expires_at = 60000000,
     ls_lease_state = LS_ACTIVE, ls_lease_state_version = 1, ls_authority_epoch = 0, ls_revocation_epoch = 0,
     ls_revocation_scope = ''workspace'', ls_delegation_depth = 0, ls_max_delegation_depth = 0,
     ls_allowed_actions = {''read''}, ls_allowed_resources = {''docs/*''}, ls_offline_enabled = False,
     ls_maximum_offline_duration = 0, ls_offline_budget = 0, ls_offline_side_effect_limit = 0,
     ls_last_known_policy_epoch = 0, ls_last_known_revocation_epoch = 0, ls_reconciliation_required = False,
     ls_created_at = 0, ls_updated_at = 0\<rparr>"

definition sample_authority :: authority_context where
  "sample_authority =
    \<lparr>ac_allowed_actions = {''read'', ''write''}, ac_allowed_resources = {''*''}, ac_executor_spiffe_id = ''e'',
     ac_subject_spiffe_id = ''s'', ac_expires_at = Some 60000000, ac_delegation_depth = 0,
     ac_max_delegation_depth = 1, ac_authority_epoch = 0\<rparr>"

theorem effective_authority_exact_witness:
  "\<exists>eff. evaluate_authority sample_lease (Some sample_authority) sample_authority ONLINE 0 = Inr eff \<and>
     (resource_in (Some ''docs/a'') (ac_allowed_resources eff) \<longleftrightarrow>
       resource_in (Some ''docs/a'') (ls_allowed_resources sample_lease) \<and>
       resource_in (Some ''docs/a'') (ac_allowed_resources sample_authority))"
proof -
  obtain eff where "evaluate_authority sample_lease (Some sample_authority) sample_authority ONLINE 0 = Inr eff"
    by (simp add: evaluate_authority_def sample_lease_def sample_authority_def resource_issubset_def)
  from effective_authority_exact [OF this, of _ "Some ''docs/a''"] this show ?thesis by blast
qed

text \<open>
  C32. Attenuation narrows: after \<open>attenuate\<close> every allowed action and every covered resource was
  allowed before, the lease state and the authority epoch are unchanged and the revocation epoch
  does not go back, provided no new resource is the bare directory of an old \<open>dir/*\<close> grant. That
  one form passes \<open>_resource_issubset\<close> although \<open>dir/*\<close> does not cover \<open>dir\<close> itself, and so does widen
  the lease: see \<open>attenuate_bare_directory\<close> below.
\<close>

theorem attenuate_narrows:
  assumes "attenuate l acts ress ep = Inr l'"
    and "\<forall>n \<in> ress. n @ ''/*'' \<notin> ls_allowed_resources l"
  shows "ls_allowed_actions l' \<subseteq> ls_allowed_actions l \<and>
    (resource_in r (ls_allowed_resources l') \<longrightarrow> resource_in r (ls_allowed_resources l)) \<and>
    ls_lease_state l' = ls_lease_state l \<and> ls_authority_epoch l' = ls_authority_epoch l \<and>
    ls_revocation_epoch l \<le> ls_revocation_epoch l'"
proof -
  have sub: "resource_issubset ress (ls_allowed_resources l)"
    and l': "ls_allowed_resources l' = ress" "ls_allowed_actions l' \<subseteq> ls_allowed_actions l"
      "ls_lease_state l' = ls_lease_state l" "ls_authority_epoch l' = ls_authority_epoch l"
      "ls_revocation_epoch l \<le> ls_revocation_epoch l'"
    using assms(1) by (auto simp: attenuate_def split: if_splits)
  have cov: "\<exists>w \<in> ls_allowed_resources l. covered n w" if "n \<in> ress" "''*'' \<notin> ls_allowed_resources l" for n
  proof -
    obtain p where "p \<in> ls_allowed_resources l"
      "p = n \<or> is_dir p \<and> (starts_with n (dir_prefix p) \<or> n = butlast (butlast p))"
      using sub \<open>n \<in> ress\<close> \<open>''*'' \<notin> _\<close> by (auto simp: resource_issubset_def)
    moreover have "p = butlast (butlast p) @ ''/*''" if "is_dir p" using that by (metis is_dirE)
    ultimately show ?thesis using assms(2) \<open>n \<in> ress\<close> by (auto simp: covered_def)
  qed
  have star: "covered ''*'' w \<Longrightarrow> w = ''*''" for w
    by (auto simp: covered_def starts_with_iff Cons_eq_append_conv elim!: is_dirE)
  have "resource_in r (ls_allowed_resources l)" if "resource_in r ress"
  proof (cases "''*'' \<in> ls_allowed_resources l")
    case True
    then show ?thesis by (simp add: resource_in_def)
  next
    case False
    then have "''*'' \<notin> ress" using cov star by blast
    with that obtain x n where x: "r = Some x" "n \<in> ress" "covered x n"
      by (cases r) (auto simp: resource_in_def covered_def)
    then obtain w where "w \<in> ls_allowed_resources l" "covered n w" using cov False by blast
    then show ?thesis using x covered_trans by (auto simp: resource_in_covered)
  qed
  then show ?thesis using l' by blast
qed

theorem attenuate_narrows_witness:
  "\<exists>l'. attenuate sample_lease {''read''} {''docs/a''} 3 = Inr l' \<and>
     (resource_in (Some ''docs/a'') (ls_allowed_resources l') \<longrightarrow>
      resource_in (Some ''docs/a'') (ls_allowed_resources sample_lease)) \<and>
     ls_revocation_epoch sample_lease \<le> ls_revocation_epoch l'"
proof -
  have "\<exists>l'. attenuate sample_lease {''read''} {''docs/a''} 3 = Inr l'"
    by (simp add: attenuate_def sample_lease_def resource_issubset_def is_dir_def ends_with_def starts_with_def)
  then obtain l' where l': "attenuate sample_lease {''read''} {''docs/a''} 3 = Inr l'" by blast
  have "\<forall>n \<in> {''docs/a''}. n @ ''/*'' \<notin> ls_allowed_resources sample_lease"
    by (simp add: sample_lease_def)
  from attenuate_narrows [OF l' this, of "Some ''docs/a''"] l' show ?thesis by blast
qed

text \<open>A lease of \<open>docs/*\<close> does not cover \<open>docs\<close>, and is attenuated to one that does.\<close>

lemma attenuate_bare_directory:
  "\<exists>l'. attenuate sample_lease {''read''} {''docs''} 0 = Inr l' \<and> resource_in (Some ''docs'') (ls_allowed_resources l') \<and>
     \<not> resource_in (Some ''docs'') (ls_allowed_resources sample_lease)"
  by (simp add: attenuate_def sample_lease_def resource_issubset_def resource_in_def is_dir_def ends_with_def starts_with_def)

subsection \<open>The lease state machine\<close>

inductive lease_step :: "lease \<Rightarrow> lease \<Rightarrow> bool" where
  step_transition: "transition_state l st ep = Inr l' \<Longrightarrow> lease_step l l'"
| step_attenuate: "attenuate l acts ress ep = Inr l' \<Longrightarrow> lease_step l l'"

inductive_cases lease_stepE: "lease_step l l'"

lemma transition_state_Inr:
  assumes "transition_state l st ep = Inr l'"
  shows "ls_lease_state l' = st" "ls_authority_epoch l' = ep" "ls_authority_epoch l \<le> ep"
    "ls_lease_state l \<in> {LS_REVOKED, LS_EXPIRED} \<Longrightarrow> st = ls_lease_state l"
    "ls_revocation_epoch l \<le> ls_revocation_epoch l'" "ls_mount_id l' = ls_mount_id l"
    "ls_lease_state_version l' = ls_lease_state_version l + 1" "ls_lease_id l' = ls_lease_id l"
    "ls_allowed_actions l' = ls_allowed_actions l" "ls_allowed_resources l' = ls_allowed_resources l"
  using assms by (auto simp: transition_state_def Let_def split: if_splits)

lemma attenuate_Inr:
  assumes "attenuate l acts ress ep = Inr l'"
  shows "ls_lease_state l' = ls_lease_state l" "ls_authority_epoch l' = ls_authority_epoch l"
    "ls_revocation_epoch l \<le> ls_revocation_epoch l'"
    "ls_lease_state_version l' = ls_lease_state_version l + 1"
  using assms by (auto simp: attenuate_def split: if_splits)

lemma lease_step_mono:
  assumes "lease_step l l'"
  shows "ls_authority_epoch l \<le> ls_authority_epoch l'" "ls_revocation_epoch l \<le> ls_revocation_epoch l'"
    "ls_lease_state_version l < ls_lease_state_version l'"
    "ls_lease_state l \<in> {LS_REVOKED, LS_EXPIRED} \<Longrightarrow> ls_lease_state l' = ls_lease_state l"
  using assms by (auto elim!: lease_stepE dest: transition_state_Inr attenuate_Inr)

text \<open>
  C33. A revoked or expired lease never authorizes again: through any sequence of transitions
  and attenuations it keeps its state, \<open>evaluate_authority\<close> refuses it for every token, package
  and connectivity, and along the way its authority and revocation epochs never go back.
\<close>

theorem dead_lease_stays_dead:
  assumes "lease_step\<^sup>*\<^sup>* l l'" "ls_lease_state l \<in> {LS_REVOKED, LS_EXPIRED}"
  shows "ls_lease_state l' = ls_lease_state l \<and>
    evaluate_authority l' ba pa conn now = Inl (Lease_Cannot_Authorize (ls_lease_state l)) \<and>
    ls_authority_epoch l \<le> ls_authority_epoch l' \<and> ls_revocation_epoch l \<le> ls_revocation_epoch l'"
proof -
  from assms have "ls_lease_state l' = ls_lease_state l \<and> ls_authority_epoch l \<le> ls_authority_epoch l' \<and>
      ls_revocation_epoch l \<le> ls_revocation_epoch l'"
    by (induction rule: rtranclp_induct) (auto dest: lease_step_mono)
  then show ?thesis using assms(2) by (auto simp: evaluate_authority_def)
qed

theorem dead_lease_stays_dead_witness:
  "\<exists>l'. lease_step\<^sup>*\<^sup>* (sample_lease\<lparr>ls_lease_state := LS_REVOKED\<rparr>) l' \<and> ls_authority_epoch l' = 5 \<and>
     evaluate_authority l' (Some sample_authority) sample_authority ONLINE 0 = Inl (Lease_Cannot_Authorize LS_REVOKED)"
proof -
  let ?l = "sample_lease\<lparr>ls_lease_state := LS_REVOKED\<rparr>"
  obtain l' where l': "transition_state ?l LS_REVOKED 5 = Inr l'"
    by (simp add: transition_state_def sample_lease_def)
  then have "lease_step\<^sup>*\<^sup>* ?l l'" by (blast intro: step_transition)
  moreover have "ls_authority_epoch l' = 5" using l' by (rule transition_state_Inr)
  ultimately show ?thesis
    using dead_lease_stays_dead [of ?l l' "Some sample_authority" sample_authority ONLINE 0] by auto
qed

end
