(* ===== verification/Merkle.thy ===== *)
theory Merkle
  imports Canonical
begin

text \<open>
  The append-only Merkle tree of \<open>security/merkle.py\<close> (RFC 6962 style): tree hashes, inclusion
  and consistency proofs, and their verifiers. Python's \<open>proof.pop(0)\<close> on the verifier's copy is
  the threaded remainder of the proof; running out of nodes (\<open>IndexError\<close>) is \<open>None\<close>. SHA-256 is
  the parameter \<open>sha\<close>. Completeness holds for every digest function; soundness is shown for an
  ideal one, \<open>ideal_hash\<close>: injective, with digests that are neither proper prefixes nor proper
  suffixes of one another (fixed length gives the last two).
\<close>

subsection \<open>Hashes and splits\<close>

definition hash_leaf :: "(string \<Rightarrow> digest) \<Rightarrow> string \<Rightarrow> digest" where
  "hash_leaf sha data = sha (CHR 0x00 # data)"

definition hash_children :: "(string \<Rightarrow> digest) \<Rightarrow> digest \<Rightarrow> digest \<Rightarrow> digest" where
  "hash_children sha left right = sha (CHR 0x01 # left @ right)"

text \<open>The doubling loop; \<open>k\<close> starts at 1 and stays positive.\<close>

function shift_until :: "nat \<Rightarrow> nat \<Rightarrow> nat" where
  "shift_until k n = (if 0 < k \<and> k < n then shift_until (k * 2) n else k)"
  by pat_completeness auto
termination by (relation "measure (\<lambda>(k, n). n - k)") auto

declare shift_until.simps [simp del]

definition largest_power_of_2_less_than :: "nat \<Rightarrow> nat" where
  "largest_power_of_2_less_than n = shift_until 1 n div 2"

lemma shift_until_bounds:
  assumes "0 < k" "k < n"
  shows "\<exists>j. shift_until k n = k * 2 * 2 ^ j \<and> n \<le> shift_until k n \<and> shift_until k n < 2 * n"
  using assms
proof (induction k n rule: shift_until.induct)
  case (1 k n)
  show ?case
  proof (cases "k * 2 < n")
    case True
    with 1 obtain j where j: "shift_until (k * 2) n = k * 2 * 2 * 2 ^ j" "n \<le> shift_until (k * 2) n"
      "shift_until (k * 2) n < 2 * n" by auto
    have "shift_until k n = shift_until (k * 2) n" using 1 by (subst shift_until.simps) simp
    then have "shift_until k n = k * 2 * 2 ^ Suc j" "n \<le> shift_until k n" "shift_until k n < 2 * n"
      using j by simp_all
    then show ?thesis by blast
  next
    case False
    then have "shift_until k n = k * 2"
      using 1 by (subst shift_until.simps, simp, subst shift_until.simps, simp)
    then have "shift_until k n = k * 2 * 2 ^ 0 \<and> n \<le> shift_until k n \<and> shift_until k n < 2 * n"
      using False 1 by simp
    then show ?thesis by blast
  qed
qed

lemma split_power: "2 \<le> n \<Longrightarrow> \<exists>j. largest_power_of_2_less_than n = 2 ^ j"
  using shift_until_bounds [of 1 n] by (auto simp: largest_power_of_2_less_than_def)

lemma split_bounds:
  assumes "2 \<le> n"
  shows "0 < largest_power_of_2_less_than n" "largest_power_of_2_less_than n < n"
    "n \<le> 2 * largest_power_of_2_less_than n"
proof -
  obtain j where "shift_until 1 n = 2 * 2 ^ j" "n \<le> shift_until 1 n" "shift_until 1 n < 2 * n"
    using shift_until_bounds [of 1 n] assms by auto
  then show "0 < largest_power_of_2_less_than n" "largest_power_of_2_less_than n < n"
    "n \<le> 2 * largest_power_of_2_less_than n"
    by (auto simp: largest_power_of_2_less_than_def)
qed

text \<open>Sizes between a split point and the whole have the same split point.\<close>

lemma power2_split_unique:
  fixes i j n :: nat
  assumes "2 ^ i < n" "n \<le> 2 * 2 ^ i" "2 ^ j < n" "n \<le> 2 * 2 ^ j"
  shows "i = j"
proof (rule ccontr)
  assume "i \<noteq> j"
  then have "Suc i \<le> j \<or> Suc j \<le> i" by linarith
  then have "(2::nat) ^ Suc i \<le> 2 ^ j \<or> (2::nat) ^ Suc j \<le> 2 ^ i"
    using power_increasing [of "Suc i" j "2::nat"] power_increasing [of "Suc j" i "2::nat"] by auto
  then show False using assms by auto
qed

lemma split_same:
  assumes "2 \<le> n" "largest_power_of_2_less_than n < m" "m \<le> n"
  shows "largest_power_of_2_less_than m = largest_power_of_2_less_than n"
proof -
  have m: "2 \<le> m" using assms split_bounds(1) [OF assms(1)] by linarith
  obtain i j where ij: "largest_power_of_2_less_than n = 2 ^ i" "largest_power_of_2_less_than m = 2 ^ j"
    using split_power assms(1) m by metis
  have "i = j" using split_bounds [OF assms(1)] split_bounds [OF m] assms ij
    by (intro power2_split_unique [of i m j]) auto
  then show ?thesis using ij by simp
qed

abbreviation split_at :: "nat \<Rightarrow> nat" where
  "split_at \<equiv> largest_power_of_2_less_than"

lemma split_simps [simp]:
  "n \<noteq> 0 \<Longrightarrow> n \<noteq> Suc 0 \<Longrightarrow> 0 < split_at n" "n \<noteq> 0 \<Longrightarrow> n \<noteq> Suc 0 \<Longrightarrow> split_at n < n"
  using split_bounds [of n] by simp_all

subsection \<open>The tree\<close>

function merkle_hash :: "(string \<Rightarrow> digest) \<Rightarrow> string list \<Rightarrow> nat \<Rightarrow> nat \<Rightarrow> digest" where
  "merkle_hash sha leaves start len =
    (if len = 0 then sha []
     else if len = 1 then hash_leaf sha (leaves ! start)
     else hash_children sha (merkle_hash sha leaves start (split_at len))
            (merkle_hash sha leaves (start + split_at len) (len - split_at len)))"
  by pat_completeness auto
termination by (relation "measure (\<lambda>(sha, leaves, start, len). len)") auto

function merkle_path :: "(string \<Rightarrow> digest) \<Rightarrow> string list \<Rightarrow> nat \<Rightarrow> nat \<Rightarrow> nat \<Rightarrow> digest list" where
  "merkle_path sha leaves m start len =
    (if len \<le> 1 then []
     else if m < start + split_at len then
       merkle_path sha leaves m start (split_at len) @
         [merkle_hash sha leaves (start + split_at len) (len - split_at len)]
     else
       merkle_path sha leaves m (start + split_at len) (len - split_at len) @
         [merkle_hash sha leaves start (split_at len)])"
  by pat_completeness auto
termination by (relation "measure (\<lambda>(sha, leaves, m, start, len). len)") auto

text \<open>\<open>m\<close> is at least 1 and at most \<open>len\<close> in every call, so \<open>len = 0\<close> only ever meets \<open>m = len\<close>.\<close>

function merkle_subproof :: "(string \<Rightarrow> digest) \<Rightarrow> string list \<Rightarrow> nat \<Rightarrow> nat \<Rightarrow> nat \<Rightarrow> bool \<Rightarrow> digest list" where
  "merkle_subproof sha leaves m start len b =
    (if m = len \<or> len \<le> 1 then (if b then [] else [merkle_hash sha leaves start len])
     else if m \<le> split_at len then
       merkle_subproof sha leaves m start (split_at len) b @
         [merkle_hash sha leaves (start + split_at len) (len - split_at len)]
     else
       merkle_subproof sha leaves (m - split_at len) (start + split_at len) (len - split_at len) False @
         [merkle_hash sha leaves start (split_at len)])"
  by pat_completeness auto
termination by (relation "measure (\<lambda>(sha, leaves, m, start, len, b). len)") auto

declare merkle_hash.simps [simp del] merkle_path.simps [simp del] merkle_subproof.simps [simp del]

datatype merkle_error = Merkle_ValueError | Merkle_IndexError

text \<open>
  A size beyond the stored leaves fails with \<open>IndexError\<close> when a missing leaf is hashed; an
  inclusion path hashes every leaf but the proved one.
\<close>

definition tree_append :: "string list \<Rightarrow> string \<Rightarrow> string list \<times> nat" where
  "tree_append leaves data = (leaves @ [data], length (leaves @ [data]) - 1)"

definition tree_root :: "(string \<Rightarrow> digest) \<Rightarrow> string list \<Rightarrow> nat option \<Rightarrow> merkle_error + digest" where
  "tree_root sha leaves n =
    (let n = (case n of None \<Rightarrow> length leaves | Some n \<Rightarrow> n)
     in if n > length leaves then Inl Merkle_IndexError else Inr (merkle_hash sha leaves 0 n))"

definition inclusion_proof ::
  "(string \<Rightarrow> digest) \<Rightarrow> string list \<Rightarrow> nat \<Rightarrow> nat option \<Rightarrow> merkle_error + digest list" where
  "inclusion_proof sha leaves m n =
    (let n = (case n of None \<Rightarrow> length leaves | Some n \<Rightarrow> n)
     in if \<not> m < n then Inl Merkle_ValueError
        else if \<exists>i \<in> {length leaves..<n}. i \<noteq> m then Inl Merkle_IndexError
        else Inr (merkle_path sha leaves m 0 n))"

definition consistency_proof ::
  "(string \<Rightarrow> digest) \<Rightarrow> string list \<Rightarrow> nat \<Rightarrow> nat option \<Rightarrow> merkle_error + digest list" where
  "consistency_proof sha leaves first second =
    (let second = (case second of None \<Rightarrow> length leaves | Some n \<Rightarrow> n)
     in if \<not> (first \<le> second \<and> second \<le> length leaves) then Inl Merkle_ValueError
        else if first = 0 \<or> first = second then Inr []
        else Inr (merkle_subproof sha leaves first 0 second True))"

subsection \<open>The verifiers\<close>

fun pop_node :: "digest list \<Rightarrow> (digest \<times> digest list) option" where
  "pop_node [] = None"
| "pop_node (x # xs) = Some (x, xs)"

function recompute_root ::
  "(string \<Rightarrow> digest) \<Rightarrow> digest \<Rightarrow> nat \<Rightarrow> nat \<Rightarrow> nat \<Rightarrow> digest list \<Rightarrow> (digest \<times> digest list) option" where
  "recompute_root sha h m start len proof =
    (if len \<le> 1 then Some (h, proof)
     else if m < start + split_at len then
       (case recompute_root sha h m start (split_at len) proof of
          None \<Rightarrow> None
        | Some (left, rest) \<Rightarrow>
            (case pop_node rest of None \<Rightarrow> None
             | Some (sibling, rest') \<Rightarrow> Some (hash_children sha left sibling, rest')))
     else
       (case recompute_root sha h m (start + split_at len) (len - split_at len) proof of
          None \<Rightarrow> None
        | Some (right, rest) \<Rightarrow>
            (case pop_node rest of None \<Rightarrow> None
             | Some (sibling, rest') \<Rightarrow> Some (hash_children sha sibling right, rest'))))"
  by pat_completeness auto
termination by (relation "measure (\<lambda>(sha, h, m, start, len, proof). len)") auto

definition verify_inclusion_proof ::
  "(string \<Rightarrow> digest) \<Rightarrow> digest \<Rightarrow> nat \<Rightarrow> nat \<Rightarrow> digest list \<Rightarrow> digest \<Rightarrow> bool" where
  "verify_inclusion_proof sha leaf_hash m n proof root =
    (if \<not> m < n then False
     else case recompute_root sha leaf_hash m 0 n proof of
       None \<Rightarrow> False
     | Some (computed, rest) \<Rightarrow> computed = root \<and> rest = [])"

function verify_subproof ::
  "(string \<Rightarrow> digest) \<Rightarrow> nat \<Rightarrow> nat \<Rightarrow> nat \<Rightarrow> bool \<Rightarrow> digest list \<Rightarrow> digest \<Rightarrow> ((digest \<times> digest) \<times> digest list) option" where
  "verify_subproof sha m start len b proof first_root =
    (if m = len \<or> len \<le> 1 then
       (if b then Some ((first_root, first_root), proof)
        else (case pop_node proof of None \<Rightarrow> None | Some (node, rest) \<Rightarrow> Some ((node, node), rest)))
     else if m \<le> split_at len then
       (case verify_subproof sha m start (split_at len) b proof first_root of
          None \<Rightarrow> None
        | Some ((fl, sl), rest) \<Rightarrow>
            (case pop_node rest of None \<Rightarrow> None
             | Some (right, rest') \<Rightarrow> Some ((fl, hash_children sha sl right), rest')))
     else
       (case verify_subproof sha (m - split_at len) (start + split_at len) (len - split_at len) False proof first_root of
          None \<Rightarrow> None
        | Some ((fl, sl), rest) \<Rightarrow>
            (case pop_node rest of None \<Rightarrow> None
             | Some (left, rest') \<Rightarrow> Some ((hash_children sha left fl, hash_children sha left sl), rest'))))"
  by pat_completeness auto
termination by (relation "measure (\<lambda>(sha, m, start, len, b, proof, fr). len)") auto

declare recompute_root.simps [simp del] verify_subproof.simps [simp del]

definition verify_consistency_proof ::
  "(string \<Rightarrow> digest) \<Rightarrow> nat \<Rightarrow> nat \<Rightarrow> digest \<Rightarrow> digest \<Rightarrow> digest list \<Rightarrow> bool" where
  "verify_consistency_proof sha first second first_root second_root proof =
    (if first = second then first_root = second_root \<and> proof = []
     else if first = 0 \<or> first > second then False
     else case verify_subproof sha first 0 second True proof first_root of
       None \<Rightarrow> False
     | Some ((fr, sr), rest) \<Rightarrow> fr = first_root \<and> sr = second_root \<and> rest = [])"

subsection \<open>Completeness\<close>

lemma merkle_hash_append:
  "start + len \<le> length xs \<Longrightarrow> merkle_hash sha (xs @ ys) start len = merkle_hash sha xs start len"
proof (induction sha xs start len rule: merkle_hash.induct)
  case (1 sha leaves start len)
  show ?case
  proof (cases "len \<le> 1")
    case True
    with "1.prems" show ?thesis by (subst (1 2) merkle_hash.simps) (auto simp: nth_append)
  next
    case False
    then have "split_at len < len" using split_bounds [of len] by simp
    with "1.prems" have "start + split_at len \<le> length leaves" "start + split_at len + (len - split_at len) \<le> length leaves"
      by linarith+
    with False 1 have "merkle_hash sha (leaves @ ys) start (split_at len) = merkle_hash sha leaves start (split_at len)"
      "merkle_hash sha (leaves @ ys) (start + split_at len) (len - split_at len) =
        merkle_hash sha leaves (start + split_at len) (len - split_at len)"
      by simp_all
    with False show ?thesis by (subst (1 2) merkle_hash.simps) simp
  qed
qed

lemma pop_node_append [simp]: "pop_node ([x] @ xs) = Some (x, xs)"
  by simp

lemma recompute_path:
  "start \<le> m \<Longrightarrow> m < start + len \<Longrightarrow>
   recompute_root sha (hash_leaf sha (leaves ! m)) m start len (merkle_path sha leaves m start len @ rest) =
     Some (merkle_hash sha leaves start len, rest)"
proof (induction sha leaves m start len arbitrary: rest rule: merkle_path.induct)
  case (1 sha leaves m start len)
  show ?case
  proof (cases "len \<le> 1")
    case True
    with "1.prems" have "len = 1" "m = start" by auto
    then show ?thesis by (simp add: recompute_root.simps merkle_path.simps merkle_hash.simps)
  next
    case False
    then have len: "\<not> len \<le> 1" "len \<noteq> 0" "len \<noteq> Suc 0" by auto
    then have k: "0 < split_at len" "split_at len < len" by simp_all
    show ?thesis
    proof (cases "m < start + split_at len")
      case True
      with 1 len k show ?thesis
        by (simp add: recompute_root.simps [of _ _ m start len] merkle_path.simps [of _ _ m start len]
            merkle_hash.simps [of _ _ start len])
    next
      case False
      with 1 len k show ?thesis
        by (simp add: recompute_root.simps [of _ _ m start len] merkle_path.simps [of _ _ m start len]
            merkle_hash.simps [of _ _ start len])
    qed
  qed
qed

lemma verify_subproof_complete:
  "0 < m \<Longrightarrow> m \<le> len \<Longrightarrow> (b \<Longrightarrow> fr = merkle_hash sha leaves start m) \<Longrightarrow>
   verify_subproof sha m start len b (merkle_subproof sha leaves m start len b @ rest) fr =
     Some ((merkle_hash sha leaves start m, merkle_hash sha leaves start len), rest)"
proof (induction sha leaves m start len b arbitrary: rest rule: merkle_subproof.induct)
  case (1 sha leaves m start len b)
  show ?case
  proof (cases "m = len")
    case True
    with "1.prems" show ?thesis by (cases b) (simp_all add: verify_subproof.simps merkle_subproof.simps)
  next
    case False
    with "1.prems" have len: "\<not> len \<le> 1" "len \<noteq> 0" "len \<noteq> Suc 0" "m < len" "m \<noteq> len" by auto
    then have k: "0 < split_at len" "split_at len < len" by simp_all
    have sp: "merkle_hash sha leaves start len = hash_children sha (merkle_hash sha leaves start (split_at len))
        (merkle_hash sha leaves (start + split_at len) (len - split_at len))"
      using len by (simp add: merkle_hash.simps [of _ _ start len])
    show ?thesis
    proof (cases "m \<le> split_at len")
      case True
      with 1 len k sp show ?thesis
        by (simp add: verify_subproof.simps [of _ m start len] merkle_subproof.simps [of _ _ m start len])
    next
      case gt: False
      then have "m \<noteq> 0" "m \<noteq> Suc 0" using k by auto
      then have sm: "merkle_hash sha leaves start m = hash_children sha (merkle_hash sha leaves start (split_at len))
          (merkle_hash sha leaves (start + split_at len) (m - split_at len))"
        using gt len split_same [of len m] by (simp add: merkle_hash.simps [of _ _ start m])
      from gt 1 len k sp sm show ?thesis
        by (simp add: verify_subproof.simps [of _ m start len] merkle_subproof.simps [of _ _ m start len])
    qed
  qed
qed

subsection \<open>Soundness\<close>

definition ideal_hash :: "(string \<Rightarrow> digest) \<Rightarrow> bool" where
  "ideal_hash sha \<longleftrightarrow> inj sha \<and> (\<forall>x y s t. sha x @ s = sha y @ t \<longrightarrow> sha x = sha y) \<and>
     (\<forall>x y s t. s @ sha x = t @ sha y \<longrightarrow> sha x = sha y)"

definition is_digest :: "(string \<Rightarrow> digest) \<Rightarrow> digest \<Rightarrow> bool" where
  "is_digest sha d \<longleftrightarrow> d \<in> range sha"

lemma is_digest_hash [simp]:
  "is_digest sha (hash_leaf sha d)" "is_digest sha (hash_children sha l r)"
  by (simp_all add: is_digest_def hash_leaf_def hash_children_def)

lemma is_digest_merkle [simp]: "is_digest sha (merkle_hash sha leaves start len)"
  by (subst merkle_hash.simps) (simp add: is_digest_def hash_leaf_def hash_children_def)

lemma hash_leaf_inject: "ideal_hash sha \<Longrightarrow> hash_leaf sha a = hash_leaf sha b \<longleftrightarrow> a = b"
  by (auto simp: ideal_hash_def hash_leaf_def dest: injD)

lemma hash_children_left:
  assumes "ideal_hash sha" "hash_children sha l r = hash_children sha l' r'" "is_digest sha l" "is_digest sha l'"
  shows "l = l'" "r = r'"
proof -
  have e: "l @ r = l' @ r'" using assms(1,2) by (auto simp: ideal_hash_def hash_children_def dest: injD)
  obtain x y where "l = sha x" "l' = sha y" using assms(3,4) by (auto simp: is_digest_def)
  with e assms(1) show "l = l'" unfolding ideal_hash_def by blast
  with e show "r = r'" by simp
qed

lemma hash_children_right:
  assumes "ideal_hash sha" "hash_children sha l r = hash_children sha l' r'" "is_digest sha r" "is_digest sha r'"
  shows "l = l'" "r = r'"
proof -
  have e: "l @ r = l' @ r'" using assms(1,2) by (auto simp: ideal_hash_def hash_children_def dest: injD)
  obtain x y where "r = sha x" "r' = sha y" using assms(3,4) by (auto simp: is_digest_def)
  with e assms(1) show "r = r'" unfolding ideal_hash_def by blast
  with e show "l = l'" by simp
qed

lemma recompute_digest:
  "recompute_root sha h m start len proof = Some (d, rest) \<Longrightarrow> is_digest sha h \<Longrightarrow> is_digest sha d"
  by (subst (asm) recompute_root.simps) (auto split: if_splits option.splits)

lemma recompute_sound:
  assumes "ideal_hash sha" "is_digest sha h"
  shows "recompute_root sha h m start len proof = Some (merkle_hash sha leaves start len, rest) \<Longrightarrow>
    start \<le> m \<Longrightarrow> m < start + len \<Longrightarrow> h = hash_leaf sha (leaves ! m)"
proof (induction len arbitrary: start rest rule: less_induct)
  case (less len)
  show ?case
  proof (cases "len \<le> 1")
    case True
    with less.prems have "len = 1" "m = start" by auto
    with less.prems(1) show ?thesis by (simp add: recompute_root.simps merkle_hash.simps)
  next
    case False
    then have len: "\<not> len \<le> 1" "len \<noteq> 0" "len \<noteq> Suc 0" by auto
    then have k: "0 < split_at len" "split_at len < len" by simp_all
    have sp: "merkle_hash sha leaves start len = hash_children sha (merkle_hash sha leaves start (split_at len))
        (merkle_hash sha leaves (start + split_at len) (len - split_at len))"
      using len by (simp add: merkle_hash.simps [of _ _ start len])
    show ?thesis
    proof (cases "m < start + split_at len")
      case True
      then obtain l r rs where l: "recompute_root sha h m start (split_at len) proof = Some (l, r # rs)"
        "hash_children sha l r = merkle_hash sha leaves start len"
        using less.prems(1) len
        by (subst (asm) recompute_root.simps) (auto split: option.splits elim!: pop_node.elims)
      have "l = merkle_hash sha leaves start (split_at len)"
        using hash_children_left(1) [OF assms(1)] l(2) sp recompute_digest [OF l(1) assms(2)]
        by (metis is_digest_merkle)
      with less.IH [OF k(2)] l(1) True less.prems(2) show ?thesis by blast
    next
      case False
      then obtain l r rs where l: "recompute_root sha h m (start + split_at len) (len - split_at len) proof = Some (r, l # rs)"
        "hash_children sha l r = merkle_hash sha leaves start len"
        using less.prems(1) len
        by (subst (asm) recompute_root.simps) (auto split: option.splits elim!: pop_node.elims)
      have "r = merkle_hash sha leaves (start + split_at len) (len - split_at len)"
        using hash_children_right(2) [OF assms(1)] l(2) sp recompute_digest [OF l(1) assms(2)]
        by (metis is_digest_merkle)
      with less.IH [of "len - split_at len" "start + split_at len"] l(1) False k less.prems(3) show ?thesis
        by simp
    qed
  qed
qed

lemma verify_subproof_left:
  assumes "verify_subproof sha m start len b proof fr = Some ((f, s), rest)" "m \<noteq> len" "\<not> len \<le> 1" "m \<le> split_at len"
  obtains sl r where "verify_subproof sha m start (split_at len) b proof fr = Some ((f, sl), r # rest)"
    "s = hash_children sha sl r"
  using assms by (subst (asm) verify_subproof.simps) (auto split: option.splits elim!: pop_node.elims)

lemma verify_subproof_right:
  assumes "verify_subproof sha m start len b proof fr = Some ((f, s), rest)" "m \<noteq> len" "\<not> len \<le> 1" "\<not> m \<le> split_at len"
  obtains fl sl l where "verify_subproof sha (m - split_at len) (start + split_at len) (len - split_at len) False
      proof fr = Some ((fl, sl), l # rest)"
    "s = hash_children sha l sl" "f = hash_children sha l fl"
  using assms by (subst (asm) verify_subproof.simps) (auto split: option.splits elim!: pop_node.elims)

lemma verify_subproof_digest:
  "verify_subproof sha m start len b proof fr = Some ((f, s), rest) \<Longrightarrow> is_digest sha fr \<Longrightarrow>
   \<forall>p \<in> set proof. is_digest sha p \<Longrightarrow> is_digest sha f \<and> is_digest sha s \<and> (\<forall>p \<in> set rest. is_digest sha p)"
proof (induction len arbitrary: m start b f s rest rule: less_induct)
  case (less len)
  show ?case
  proof (cases "m = len \<or> len \<le> 1")
    case True
    with less.prems show ?thesis
      by (subst (asm) verify_subproof.simps) (auto split: if_splits option.splits elim!: pop_node.elims)
  next
    case False
    then have k: "0 < split_at len" "split_at len < len" "len - split_at len < len" by auto
    show ?thesis
    proof (cases "m \<le> split_at len")
      case True
      then obtain sl r where v: "verify_subproof sha m start (split_at len) b proof fr = Some ((f, sl), r # rest)"
        "s = hash_children sha sl r"
        using verify_subproof_left [OF less.prems(1)] False by blast
      from less.IH [OF k(2) v(1) less.prems(2,3)] v(2) show ?thesis by simp
    next
      case gt: False
      then obtain fl sl l where v: "verify_subproof sha (m - split_at len) (start + split_at len)
          (len - split_at len) False proof fr = Some ((fl, sl), l # rest)"
        "s = hash_children sha l sl" "f = hash_children sha l fl"
        using verify_subproof_right [OF less.prems(1)] False by blast
      from less.IH [OF k(3) v(1) less.prems(2,3)] v(2,3) show ?thesis by simp
    qed
  qed
qed

lemma verify_subproof_sound:
  assumes "ideal_hash sha" "is_digest sha fr" "\<forall>p \<in> set proof. is_digest sha p"
  shows "verify_subproof sha m start len b proof fr = Some ((f, merkle_hash sha leaves start len), rest) \<Longrightarrow>
    0 < m \<Longrightarrow> m \<le> len \<Longrightarrow> f = merkle_hash sha leaves start m"
proof (induction len arbitrary: m start b f rest rule: less_induct)
  case (less len)
  show ?case
  proof (cases "m = len")
    case True
    with less.prems(1) show ?thesis
      by (subst (asm) verify_subproof.simps) (auto split: if_splits option.splits)
  next
    case False
    with less.prems have len: "\<not> len \<le> 1" "len \<noteq> 0" "len \<noteq> Suc 0" "m < len" by auto
    then have k: "0 < split_at len" "split_at len < len" by simp_all
    have sp: "merkle_hash sha leaves start len = hash_children sha (merkle_hash sha leaves start (split_at len))
        (merkle_hash sha leaves (start + split_at len) (len - split_at len))"
      using len by (simp add: merkle_hash.simps [of _ _ start len])
    show ?thesis
    proof (cases "m \<le> split_at len")
      case True
      then obtain sl r where v: "verify_subproof sha m start (split_at len) b proof fr = Some ((f, sl), r # rest)"
        "merkle_hash sha leaves start len = hash_children sha sl r"
        using verify_subproof_left [OF less.prems(1) False len(1)] by blast
      have "sl = merkle_hash sha leaves start (split_at len)"
        using hash_children_left(1) [OF assms(1)] v(2) sp verify_subproof_digest [OF v(1) assms(2,3)]
        by (metis is_digest_merkle)
      with less.IH [OF k(2)] v(1) True less.prems(2) show ?thesis by blast
    next
      case gt: False
      then obtain fl sl l where v: "verify_subproof sha (m - split_at len) (start + split_at len)
          (len - split_at len) False proof fr = Some ((fl, sl), l # rest)"
        "merkle_hash sha leaves start len = hash_children sha l sl" "f = hash_children sha l fl"
        using verify_subproof_right [OF less.prems(1) False len(1)] by blast
      have d: "is_digest sha sl" using verify_subproof_digest [OF v(1) assms(2,3)] by simp
      have sl: "sl = merkle_hash sha leaves (start + split_at len) (len - split_at len)"
        and l: "l = merkle_hash sha leaves start (split_at len)"
        using hash_children_right [OF assms(1) trans [OF v(2) [symmetric] sp] d is_digest_merkle] by simp_all
      have "fl = merkle_hash sha leaves (start + split_at len) (m - split_at len)"
        using less.IH [of "len - split_at len"] v(1) sl gt k len(4) by simp
      moreover have "m \<noteq> 0" "m \<noteq> Suc 0" using gt k by auto
      ultimately show ?thesis
        using v(3) l gt len split_same [of len m] by (simp add: merkle_hash.simps [of _ _ start m])
    qed
  qed
qed

subsection \<open>Properties\<close>

text \<open>
  C25. Inclusion proofs are complete and sound. For a leaf position below the tree size the proof
  the tree produces is accepted for the leaf stored there, and no proof whatsoever is accepted
  at that position for any other data.
\<close>

theorem inclusion_proof_correct:
  assumes "ideal_hash sha" "m < n" "n \<le> length leaves" "tree_root sha leaves (Some n) = Inr root"
  shows "\<exists>path. inclusion_proof sha leaves m (Some n) = Inr path \<and>
      verify_inclusion_proof sha (hash_leaf sha (leaves ! m)) m n path root \<and>
      (verify_inclusion_proof sha (hash_leaf sha d) m n forged root \<longrightarrow> d = leaves ! m)"
proof -
  have root: "root = merkle_hash sha leaves 0 n"
    using assms(3,4) by (simp add: tree_root_def split: if_splits)
  have "inclusion_proof sha leaves m (Some n) = Inr (merkle_path sha leaves m 0 n)"
    using assms(2,3) by (auto simp: inclusion_proof_def)
  moreover have "verify_inclusion_proof sha (hash_leaf sha (leaves ! m)) m n (merkle_path sha leaves m 0 n) root"
    using recompute_path [of 0 m n sha leaves "[]"] assms(2) root by (simp add: verify_inclusion_proof_def)
  moreover have "d = leaves ! m" if "verify_inclusion_proof sha (hash_leaf sha d) m n forged root"
  proof -
    have "recompute_root sha (hash_leaf sha d) m 0 n forged = Some (merkle_hash sha leaves 0 n, [])"
      using that root by (auto simp: verify_inclusion_proof_def split: if_splits option.splits)
    then show ?thesis
      using recompute_sound [OF assms(1), of "hash_leaf sha d" m 0 n forged leaves] assms(1,2)
      by (simp add: hash_leaf_inject)
  qed
  ultimately show ?thesis by blast
qed

text \<open>
  C18. Consistency proofs are complete and sound. For two sizes of the same tree the produced
  proof is accepted with the two roots, and any accepted proof made of digests forces the
  earlier root to be the root of the first leaves of the later tree: history cannot be rewritten.
\<close>

theorem consistency_proof_correct:
  assumes "ideal_hash sha" "0 < first" "first \<le> second" "second \<le> length leaves"
    and "tree_root sha leaves (Some first) = Inr r1" "tree_root sha leaves (Some second) = Inr r2"
  shows "\<exists>path. consistency_proof sha leaves first (Some second) = Inr path \<and>
      verify_consistency_proof sha first second r1 r2 path \<and>
      (is_digest sha r \<and> list_all (is_digest sha) forged \<and>
       verify_consistency_proof sha first second r r2 forged \<longrightarrow> r = r1)"
proof -
  have r1: "r1 = merkle_hash sha leaves 0 first" and r2: "r2 = merkle_hash sha leaves 0 second"
    using assms(3-6) by (simp_all add: tree_root_def split: if_splits)
  let ?path = "if first = second then [] else merkle_subproof sha leaves first 0 second True"
  have "consistency_proof sha leaves first (Some second) = Inr ?path"
    using assms(2-4) by (simp add: consistency_proof_def)
  moreover have "verify_consistency_proof sha first second r1 r2 ?path"
    using verify_subproof_complete [of first second True r1 sha leaves 0 "[]"] assms(2,3) r1 r2
    by (simp add: verify_consistency_proof_def)
  moreover have "r = r1" if "is_digest sha r" "list_all (is_digest sha) forged"
      "verify_consistency_proof sha first second r r2 forged"
  proof (cases "first = second")
    case True
    then show ?thesis using that(3) r1 r2 by (simp add: verify_consistency_proof_def)
  next
    case False
    then have "verify_subproof sha first 0 second True forged r = Some ((r, merkle_hash sha leaves 0 second), [])"
      using that(3) r2 by (auto simp: verify_consistency_proof_def split: if_splits option.splits)
    from verify_subproof_sound [OF assms(1) that(1) _ this assms(2,3)] that(2) r1 show ?thesis
      by (simp add: list_all_iff)
  qed
  ultimately show ?thesis by blast
qed

subsection \<open>An ideal hash\<close>

text \<open>Hexadecimal between two marks: injective, and read unambiguously from either end.\<close>

definition hex_pair :: "char \<Rightarrow> string" where
  "hex_pair c = [hex_digit (of_char c div 16), hex_digit (of_char c mod 16)]"

definition marked :: "string \<Rightarrow> digest" where
  "marked x = CHR ''|'' # concat (map hex_pair x) @ ''|''"

lemma high_nibble: "(of_char c :: nat) div 16 < 16"
  using nat_of_char_less_256 [of c] by linarith

lemma hex_pair_inject: "hex_pair c @ s = hex_pair d @ t \<Longrightarrow> c = d \<and> s = t"
proof -
  assume e: "hex_pair c @ s = hex_pair d @ t"
  from e have "hex_value (hex_digit (of_char c div 16)) = hex_value (hex_digit (of_char d div 16))"
    "hex_value (hex_digit (of_char c mod 16)) = hex_value (hex_digit (of_char d mod 16))" "s = t"
    by (simp_all add: hex_pair_def)
  then have "(of_char c :: nat) div 16 = of_char d div 16" "(of_char c :: nat) mod 16 = of_char d mod 16"
    by (simp_all add: hex_value_digit high_nibble)
  then have "(of_char c :: nat) = of_char d" by (metis div_mult_mod_eq)
  then show ?thesis using \<open>s = t\<close> by simp
qed

lemma hex_body_inject: "concat (map hex_pair x) = concat (map hex_pair y) \<Longrightarrow> x = y"
proof (induction x arbitrary: y)
  case Nil
  then show ?case by (cases y) (simp_all add: hex_pair_def)
next
  case (Cons c x)
  then obtain d y' where "y = d # y'" by (cases y) (simp_all add: hex_pair_def)
  with Cons hex_pair_inject [of c "concat (map hex_pair x)" d] show ?case by auto
qed

lemma hex_digit_not_mark: "n < 16 \<Longrightarrow> hex_digit n \<noteq> CHR ''|''"
proof
  assume "n < 16" "hex_digit n = CHR ''|''"
  then have "hex_value (hex_digit n) = 37" by (simp add: hex_value_def)
  with \<open>n < 16\<close> show False by (simp add: hex_value_digit)
qed

lemma hex_body_not_mark: "CHR ''|'' \<notin> set (concat (map hex_pair x))"
proof -
  have "CHR ''|'' \<notin> set (hex_pair c)" for c
    using hex_digit_not_mark [of "of_char c div 16"] hex_digit_not_mark [of "of_char c mod 16"]
    by (auto simp: hex_pair_def high_nibble)
  then show ?thesis by auto
qed

lemma ideal_hash_marked: "ideal_hash marked"
proof -
  have body: "marked x = marked y \<longleftrightarrow> x = y" for x y
    by (auto simp: marked_def dest: hex_body_inject)
  have "x = y" if "marked x @ s = marked y @ t" for x y s t
    using that mark_cancel [OF hex_body_not_mark hex_body_not_mark, of x s y t]
    by (auto simp: marked_def dest: hex_body_inject)
  moreover have "x = y" if "s @ marked x = t @ marked y" for x y s t
  proof -
    have "rev (s @ marked x) = rev (t @ marked y)" using that by simp
    then have "rev (concat (map hex_pair x)) @ CHR ''|'' # rev s = rev (concat (map hex_pair y)) @ CHR ''|'' # rev t"
      by (simp add: marked_def del: rev_concat)
    then have "rev (concat (map hex_pair x)) = rev (concat (map hex_pair y))"
      using mark_cancel [of "CHR ''|''" "rev (concat (map hex_pair x))" "rev (concat (map hex_pair y))"] hex_body_not_mark
      by (metis set_rev)
    then show ?thesis by (metis hex_body_inject rev_rev_ident)
  qed
  ultimately show ?thesis unfolding ideal_hash_def inj_def body by blast
qed

theorem inclusion_proof_correct_witness:
  "\<exists>root path. tree_root marked [''a'', ''b'', ''c''] (Some 3) = Inr root \<and>
     inclusion_proof marked [''a'', ''b'', ''c''] 2 (Some 3) = Inr path \<and>
     verify_inclusion_proof marked (hash_leaf marked ([''a'', ''b'', ''c''] ! 2)) 2 3 path root"
proof -
  obtain root where "tree_root marked [''a'', ''b'', ''c''] (Some 3) = Inr root"
    by (simp add: tree_root_def)
  with inclusion_proof_correct [OF ideal_hash_marked, of 2 3 "[''a'', ''b'', ''c'']"] show ?thesis by fastforce
qed

theorem consistency_proof_correct_witness:
  "\<exists>r1 r2 path. tree_root marked [''a'', ''b'', ''c''] (Some 2) = Inr r1 \<and>
     tree_root marked [''a'', ''b'', ''c''] (Some 3) = Inr r2 \<and>
     consistency_proof marked [''a'', ''b'', ''c''] 2 (Some 3) = Inr path \<and>
     verify_consistency_proof marked 2 3 r1 r2 path"
proof -
  obtain r1 r2 where "tree_root marked [''a'', ''b'', ''c''] (Some 2) = Inr r1"
    "tree_root marked [''a'', ''b'', ''c''] (Some 3) = Inr r2"
    by (simp add: tree_root_def)
  with consistency_proof_correct [OF ideal_hash_marked, of 2 3 "[''a'', ''b'', ''c'']"] show ?thesis by fastforce
qed

end
