(* ===== verification/Ledger.thy ===== *)
theory Ledger
  imports Canonical "HOL-Library.AList"
begin

text \<open>
  The hash-chained ledgers: appending (\<open>services/audit_service.py\<close>) and verification
  (\<open>services/ledger_verifier.py\<close>). A ledger is the list of its rows in insertion order. The
  pointer walk of the verifier is a loop over data that may have been tampered with; it is
  modelled with fuel, and \<open>None\<close> means that the loop has not ended yet. The lemmas show that the
  walk ends on every ledger whose row hashes are distinct, that appended ledgers verify, that a
  verified ledger is one unbroken chain, and that its last hash determines its whole content.
\<close>

subsection \<open>Rows and appending\<close>

record audit_event =
  ae_log_id :: string
  ae_operation_type :: string
  ae_workspace_id :: "string option"
  ae_run_id :: "string option"
  ae_payload :: json
  ae_previous_log_hash :: "digest option"
  ae_log_hash :: digest
  ae_created_at :: time

definition chained_json :: "string \<Rightarrow> string option \<Rightarrow> string option \<Rightarrow> json \<Rightarrow> digest option \<Rightarrow> json" where
  "chained_json operation_type workspace_id run_id payload previous = JObj
     [(''operation_type'', JStr operation_type),
      (''workspace_id'', jopt workspace_id),
      (''run_id'', jopt run_id),
      (''payload'', payload),
      (''previous_log_hash'', jopt previous)]"

text \<open>The newest row that no other row points to, or else the newest row.\<close>

definition latest_hash :: "audit_event list \<Rightarrow> digest option" where
  "latest_hash evs =
    (case latest_by ae_created_at
        (filter (\<lambda>e. \<forall>c \<in> set evs. ae_previous_log_hash c \<noteq> Some (ae_log_hash e)) evs) of
       Some tail \<Rightarrow> Some (ae_log_hash tail)
     | None \<Rightarrow> map_option ae_log_hash (latest_by ae_created_at evs))"

definition new_audit_event ::
  "(string \<Rightarrow> digest) \<Rightarrow> string \<Rightarrow> time \<Rightarrow> digest option \<Rightarrow> string \<Rightarrow> json \<Rightarrow> string option \<Rightarrow> string option \<Rightarrow> audit_event" where
  "new_audit_event sha log_id now previous operation_type payload workspace_id run_id =
    \<lparr>ae_log_id = log_id, ae_operation_type = operation_type, ae_workspace_id = workspace_id,
     ae_run_id = run_id, ae_payload = payload, ae_previous_log_hash = previous,
     ae_log_hash = sha256_json sha (chained_json operation_type workspace_id run_id payload previous),
     ae_created_at = now\<rparr>"

text \<open>
  \<open>record\<close> reads the tail and adds the row in one transaction. Forwarding to the external ledger
  and the alert sink happen in other processes and leave the table alone.
\<close>

definition audit_record ::
  "(string \<Rightarrow> digest) \<Rightarrow> string \<Rightarrow> time \<Rightarrow> string \<Rightarrow> json \<Rightarrow> string option \<Rightarrow> string option \<Rightarrow>
   audit_event list \<Rightarrow> audit_event list \<times> audit_event" where
  "audit_record sha log_id now operation_type payload workspace_id run_id evs =
    (let event = new_audit_event sha log_id now (latest_hash evs) operation_type payload workspace_id run_id
     in (evs @ [event], event))"

definition record_law0_violation ::
  "(string \<Rightarrow> digest) \<Rightarrow> string \<Rightarrow> time \<Rightarrow> string \<Rightarrow> (string \<times> json) list \<Rightarrow> string option \<Rightarrow> string option \<Rightarrow>
   audit_event list \<Rightarrow> audit_event list \<times> audit_event" where
  "record_law0_violation sha log_id now detail extra workspace_id run_id evs =
    audit_record sha log_id now ''law0_violation''
      (JObj (AList.merge [(''detail'', JStr detail), (''law0'', JBool True)] extra)) workspace_id run_id evs"

subsection \<open>Verification\<close>

record chain_report =
  cr_name :: string
  cr_total :: nat
  cr_valid :: bool
  cr_broken_links :: "(string \<times> string) list"

definition report_fail :: "string \<Rightarrow> string \<Rightarrow> chain_report \<Rightarrow> chain_report" where
  "report_fail node_id reason r =
     r\<lparr>cr_valid := False, cr_broken_links := cr_broken_links r @ [(node_id, reason)]\<rparr>"

text \<open>The walk: \<open>Some (Inr n)\<close> after the last node, \<open>Some (Inl fs)\<close> on an early return.\<close>

fun walk_links ::
  "nat \<Rightarrow> ('e \<Rightarrow> digest) \<Rightarrow> ('e \<Rightarrow> digest option) \<Rightarrow> 'e list \<Rightarrow> digest list \<Rightarrow> 'e option \<Rightarrow> nat \<Rightarrow> ('e list + nat) option" where
  "walk_links fuel self_hash prev_hash events by_hash None visited = Some (Inr visited)"
| "walk_links 0 self_hash prev_hash events by_hash (Some current) visited = None"
| "walk_links (Suc fuel) self_hash prev_hash events by_hash (Some current) visited =
    (if self_hash current \<notin> set by_hash then Some (Inl [])
     else
       let next_nodes = filter (\<lambda>e. prev_hash e = Some (self_hash current)) events
       in if length next_nodes > 1 then Some (Inl next_nodes)
          else walk_links fuel self_hash prev_hash events by_hash
                 (case next_nodes of [] \<Rightarrow> None | n # _ \<Rightarrow> Some n) (visited + 1))"

definition verify_links ::
  "nat \<Rightarrow> chain_report \<Rightarrow> 'e list \<Rightarrow> digest list \<Rightarrow> ('e \<Rightarrow> string) \<Rightarrow> ('e \<Rightarrow> digest) \<Rightarrow> ('e \<Rightarrow> digest option) \<Rightarrow>
   chain_report option" where
  "verify_links fuel report events by_hash node_id self_hash prev_hash =
    (case filter (\<lambda>e. prev_hash e = None) events of
       [] \<Rightarrow> Some (report_fail ''<chain>'' ''no genesis node (every node references a parent)'' report)
     | [g] \<Rightarrow>
         (case walk_links fuel self_hash prev_hash events by_hash (Some g) 0 of
            None \<Rightarrow> None
          | Some (Inl forked) \<Rightarrow>
              Some (fold (\<lambda>e. report_fail (node_id e) ''chain forks: multiple nodes share a parent'') forked report)
          | Some (Inr visited) \<Rightarrow>
              if visited \<noteq> length events then
                Some (report_fail ''<chain>''
                  (''chain reachable='' @ show_nat visited @ '' but total='' @ show_nat (length events) @
                   '' (broken link or orphaned node)'') report)
              else Some report)
     | gs \<Rightarrow> Some (fold (\<lambda>e. report_fail (node_id e) ''multiple genesis nodes (forked chain)'') gs report))"

definition audit_node_ok :: "(string \<Rightarrow> digest) \<Rightarrow> audit_event \<Rightarrow> bool" where
  "audit_node_ok sha ev \<longleftrightarrow> sha256_json sha (chained_json (ae_operation_type ev) (ae_workspace_id ev)
     (ae_run_id ev) (ae_payload ev) (ae_previous_log_hash ev)) = ae_log_hash ev"

text \<open>Node integrity, shared by both ledgers: the failures and the hashes that verified.\<close>

definition check_nodes ::
  "('e \<Rightarrow> bool) \<Rightarrow> ('e \<Rightarrow> string) \<Rightarrow> ('e \<Rightarrow> digest) \<Rightarrow> string \<Rightarrow> 'e list \<Rightarrow> chain_report \<Rightarrow> chain_report \<times> digest list" where
  "check_nodes ok node_id self_hash reason events report =
     (fold (\<lambda>e r. if ok e then r else report_fail (node_id e) reason r) events report,
      map self_hash (filter ok events))"

definition verify_audit_chain :: "(string \<Rightarrow> digest) \<Rightarrow> nat \<Rightarrow> audit_event list \<Rightarrow> chain_report option" where
  "verify_audit_chain sha fuel table =
    (let events = sort_key ae_created_at table;
         report = \<lparr>cr_name = ''audit_events'', cr_total = length events, cr_valid = True, cr_broken_links = []\<rparr>
     in if events = [] then Some report
        else let (report, by_hash) = check_nodes (audit_node_ok sha) ae_log_id ae_log_hash
               ''log_hash does not match recomputed hash'' events report
             in verify_links fuel report events by_hash ae_log_id ae_log_hash ae_previous_log_hash)"

text \<open>The per-certificate ledger: \<open>{**payload, "previous_event_hash": previous}\<close>.\<close>

record pgl_event =
  pe_event_id :: string
  pe_certificate_id :: string
  pe_event_type :: string
  pe_payload :: "(string \<times> json) list"
  pe_previous_event_hash :: "digest option"
  pe_event_hash :: digest
  pe_created_at :: time

definition pgl_node_ok :: "(string \<Rightarrow> digest) \<Rightarrow> pgl_event \<Rightarrow> bool" where
  "pgl_node_ok sha ev \<longleftrightarrow> sha256_json sha (JObj (AList.update ''previous_event_hash''
     (jopt (pe_previous_event_hash ev)) (pe_payload ev))) = pe_event_hash ev"

definition verify_pgl_chain :: "(string \<Rightarrow> digest) \<Rightarrow> nat \<Rightarrow> pgl_event list \<Rightarrow> string \<Rightarrow> chain_report option" where
  "verify_pgl_chain sha fuel table certificate_id =
    (let events = sort_key pe_created_at (filter (\<lambda>e. pe_certificate_id e = certificate_id) table);
         report = \<lparr>cr_name = ''pgl_ledger:'' @ certificate_id, cr_total = length events, cr_valid = True,
                   cr_broken_links = []\<rparr>
     in if events = [] then Some report
        else let (report, by_hash) = check_nodes (pgl_node_ok sha) pe_event_id pe_event_hash
               ''event_hash does not match recomputed hash'' events report
             in verify_links fuel report events by_hash pe_event_id pe_event_hash pe_previous_event_hash)"

definition verify_all_pgl_chains :: "(string \<Rightarrow> digest) \<Rightarrow> nat \<Rightarrow> pgl_event list \<Rightarrow> chain_report list option" where
  "verify_all_pgl_chains sha fuel table =
     those (map (verify_pgl_chain sha fuel table) (sorted_list_of_set (pe_certificate_id ` set table)))"

definition verify_all :: "(string \<Rightarrow> digest) \<Rightarrow> nat \<Rightarrow> audit_event list \<Rightarrow> pgl_event list \<Rightarrow> (bool \<times> chain_report list) option" where
  "verify_all sha fuel audit_table pgl_table =
    (case verify_audit_chain sha fuel audit_table of
       None \<Rightarrow> None
     | Some audit \<Rightarrow>
         (case verify_all_pgl_chains sha fuel pgl_table of
            None \<Rightarrow> None
          | Some pgl \<Rightarrow> let chains = audit # pgl in Some (list_all cr_valid chains, chains)))"

subsection \<open>Linked rows\<close>

fun linked :: "('e \<Rightarrow> digest) \<Rightarrow> ('e \<Rightarrow> digest option) \<Rightarrow> digest option \<Rightarrow> 'e list \<Rightarrow> bool" where
  "linked self_hash prev_hash p [] \<longleftrightarrow> True"
| "linked self_hash prev_hash p (e # es) \<longleftrightarrow>
     prev_hash e = p \<and> linked self_hash prev_hash (Some (self_hash e)) es"

lemma linked_snoc:
  "linked sh ph p (es @ [e]) \<longleftrightarrow> linked sh ph p es \<and>
     ph e = (if es = [] then p else Some (sh (last es)))"
  by (induction es arbitrary: p) auto

lemma linked_nth:
  "linked sh ph p es \<Longrightarrow> i < length es \<Longrightarrow> ph (es ! i) = (if i = 0 then p else Some (sh (es ! (i - 1))))"
proof (induction es arbitrary: p i)
  case (Cons e es)
  then show ?case by (cases i) (auto simp: nth_Cons')
qed simp

text \<open>
  What the walk needs of a ledger: a row that verifies has the predecessor its hash commits to.
  The digest function is a parameter of the law, which is stated for collision-free ones.
\<close>

locale hash_ledger =
  fixes self_hash :: "'e \<Rightarrow> digest" and prev_hash :: "'e \<Rightarrow> digest option"
    and node_ok :: "(string \<Rightarrow> digest) \<Rightarrow> 'e \<Rightarrow> bool" and content :: "'e \<Rightarrow> 'c"
  assumes binds: "inj sha \<Longrightarrow> node_ok sha a \<Longrightarrow> node_ok sha b \<Longrightarrow> self_hash a = self_hash b \<Longrightarrow>
    prev_hash a = prev_hash b \<and> content a = content b"
begin

lemma chain_distinct:
  assumes "inj sha"
  shows "linked self_hash prev_hash None es \<Longrightarrow> list_all (node_ok sha) es \<Longrightarrow> distinct (map self_hash es)"
proof (induction es rule: rev_induct)
  case (snoc x es)
  then have es: "linked self_hash prev_hash None es" "list_all (node_ok sha) es" "node_ok sha x"
    by (simp_all add: linked_snoc)
  have "self_hash x \<notin> self_hash ` set es"
  proof
    assume "self_hash x \<in> self_hash ` set es"
    then obtain i where i: "i < length es" "self_hash x = self_hash (es ! i)" by (auto simp: in_set_conv_nth)
    then have "prev_hash x = prev_hash (es ! i)"
      using binds [OF assms es(3)] es(2) by (simp add: list_all_length)
    moreover have "es \<noteq> []" using i(1) by auto
    then have "prev_hash x = Some (self_hash (es ! (length es - 1)))"
      using snoc.prems(1) by (simp add: linked_snoc last_conv_nth)
    ultimately have "i \<noteq> 0" "self_hash (es ! (i - 1)) = self_hash (es ! (length es - 1))"
      using linked_nth [OF es(1) i(1)] by (auto split: if_splits)
    moreover have "distinct (map self_hash es)" using snoc es by blast
    ultimately have "i - 1 = length es - 1"
      using i(1) nth_eq_iff_index_eq [of "map self_hash es" "i - 1" "length es - 1"] by fastforce
    then show False using i(1) \<open>i \<noteq> 0\<close> by linarith
  qed
  then show ?case using snoc es by simp
qed simp

lemma tail_determines:
  assumes "inj sha"
  shows "linked self_hash prev_hash None a \<Longrightarrow> linked self_hash prev_hash None b \<Longrightarrow>
    list_all (node_ok sha) a \<Longrightarrow> list_all (node_ok sha) b \<Longrightarrow> a \<noteq> [] \<Longrightarrow> b \<noteq> [] \<Longrightarrow>
    self_hash (last a) = self_hash (last b) \<Longrightarrow> map content a = map content b"
proof (induction a arbitrary: b rule: rev_induct)
  case (snoc x a)
  obtain b' y where b: "b = b' @ [y]" using snoc.prems(6) by (cases b rule: rev_cases) auto
  have xy: "prev_hash x = prev_hash y" "content x = content y"
    using binds [OF assms, of x y] snoc.prems b by simp_all
  show ?case
  proof (cases "a = []")
    case True
    then have "b' = []" using xy(1) snoc.prems(1,2) b by (simp add: linked_snoc split: if_splits)
    then show ?thesis using True xy b by simp
  next
    case False
    then have "b' \<noteq> []" using xy(1) snoc.prems(1,2) b by (auto simp: linked_snoc split: if_splits)
    then have "map content a = map content b'"
      using snoc.IH [of b'] snoc.prems b xy(1) False by (simp add: linked_snoc)
    then show ?thesis using xy b by simp
  qed
qed simp

end

subsection \<open>The walk\<close>

text \<open>A repeat along a linked path would need two rows with one hash.\<close>

lemma linked_extend_distinct:
  assumes "linked sh ph None ps" "ps \<noteq> []" "distinct ps" "inj_on sh (set ps)" "ph n = Some (sh (last ps))"
  shows "n \<notin> set ps"
proof
  assume "n \<in> set ps"
  then obtain i where i: "i < length ps" "n = ps ! i" by (auto simp: in_set_conv_nth)
  then have "i \<noteq> 0" "sh (ps ! (i - 1)) = sh (last ps)"
    using linked_nth [OF assms(1) i(1)] assms(5) by (auto split: if_splits)
  then have "ps ! (i - 1) = ps ! (length ps - 1)"
    using assms(2,4) i(1) by (auto simp: last_conv_nth dest: inj_onD)
  then have "i - 1 = length ps - 1"
    using assms(3) i(1) nth_eq_iff_index_eq [of ps "i - 1" "length ps - 1"] by fastforce
  then show False using i(1) \<open>i \<noteq> 0\<close> by linarith
qed

lemma filter_Cons_in: "filter P xs = y # ys \<Longrightarrow> y \<in> set xs \<and> P y"
  by (induction xs) (auto split: if_splits)

lemma walk_terminates:
  assumes "inj_on sh (set events)"
  shows "linked sh ph None ps \<Longrightarrow> ps \<noteq> [] \<Longrightarrow> distinct ps \<Longrightarrow> set ps \<subseteq> set events \<Longrightarrow>
    length events < fuel + length ps \<Longrightarrow> \<exists>r. walk_links fuel sh ph events by_hash (Some (last ps)) v = Some r"
proof (induction fuel arbitrary: ps v)
  case 0
  have "length ps = card (set ps)" using 0 by (simp add: distinct_card)
  also have "\<dots> \<le> length events" using 0 by (meson card_length card_mono finite_set le_trans)
  finally show ?case using 0 by simp
next
  case (Suc fuel)
  let ?next = "filter (\<lambda>e. ph e = Some (sh (last ps))) events"
  show ?case
  proof (cases ?next)
    case (Cons n ns)
    then have n: "n \<in> set events" "ph n = Some (sh (last ps))" by (auto dest: filter_Cons_in)
    have "n \<notin> set ps"
      using linked_extend_distinct Suc.prems n(2) assms by (metis inj_on_subset)
    then have "\<exists>r. walk_links fuel sh ph events by_hash (Some (last (ps @ [n]))) (v + 1) = Some r"
      using Suc.prems n by (intro Suc.IH) (auto simp: linked_snoc)
    then show ?thesis using Cons by (simp add: Let_def)
  qed simp
qed

lemma walk_sound:
  "walk_links fuel sh ph events by_hash (Some g) v = Some (Inr n) \<Longrightarrow>
   \<exists>es. linked sh ph (ph g) (g # es) \<and> set es \<subseteq> set events \<and> n = v + Suc (length es)"
proof (induction fuel arbitrary: g v)
  case (Suc fuel)
  let ?next = "filter (\<lambda>e. ph e = Some (sh g)) events"
  show ?case
  proof (cases ?next)
    case Nil
    then have "linked sh ph (ph g) [g] \<and> n = v + 1" using Suc.prems by (auto split: if_splits)
    then show ?thesis by (intro exI [of _ "[]"]) simp
  next
    case (Cons c cs)
    then have c: "c \<in> set events" "ph c = Some (sh g)" by (auto dest: filter_Cons_in)
    from Cons Suc.prems have "walk_links fuel sh ph events by_hash (Some c) (v + 1) = Some (Inr n)"
      by (auto simp: Let_def split: if_splits)
    from Suc.IH [OF this] obtain es where "linked sh ph (ph c) (c # es)" "set es \<subseteq> set events"
      "n = v + 1 + Suc (length es)" by blast
    then show ?thesis using c by (intro exI [of _ "c # es"]) auto
  qed
qed simp

lemma filter_singleton:
  assumes "mset events = mset es" "distinct es" "x \<in> set es" "\<And>y. y \<in> set es \<Longrightarrow> P y \<longleftrightarrow> y = x"
  shows "filter P events = [x]"
proof -
  have "distinct events" "set events = set es"
    using assms(1,2) mset_eq_imp_distinct_iff mset_eq_setD by blast+
  then have fs: "set (filter P events) = {x}" "distinct (filter P events)" using assms by auto
  then have "length (filter P events) = 1" by (metis distinct_card is_singletonI is_singleton_altdef)
  then show ?thesis using fs(1) by (cases "filter P events") auto
qed

lemma distinct_map_dest: "distinct (map f xs) \<Longrightarrow> distinct xs"
  by (simp add: distinct_map)

lemma walk_no_silent_stop:
  "sh ` set events \<subseteq> set by_hash \<Longrightarrow> g \<in> set events \<Longrightarrow>
   walk_links fuel sh ph events by_hash (Some g) v \<noteq> Some (Inl [])"
proof (induction fuel arbitrary: g v)
  case (Suc fuel)
  show ?case
  proof (cases "filter (\<lambda>e. ph e = Some (sh g)) events")
    case (Cons c cs)
    then have "c \<in> set events" by (auto dest: filter_Cons_in)
    then have "walk_links fuel sh ph events by_hash (Some c) (v + 1) \<noteq> Some (Inl [])"
      using Suc.IH Suc.prems(1) by blast
    then show ?thesis using Suc.prems Cons by (auto simp: Let_def)
  qed (use Suc.prems in auto)
qed simp

lemma walk_complete:
  assumes "mset events = mset es" "distinct (map sh es)" "linked sh ph None es" "sh ` set es \<subseteq> set by_hash"
  shows "i < length es \<Longrightarrow> length es < fuel + i \<Longrightarrow>
    walk_links fuel sh ph events by_hash (Some (es ! i)) v = Some (Inr (v + (length es - i)))"
proof (induction fuel arbitrary: i v)
  case (Suc fuel)
  have hash: "sh (es ! i) \<in> set by_hash" using assms(4) Suc.prems by auto
  have child: "ph y = Some (sh (es ! i)) \<longleftrightarrow> Suc i < length es \<and> y = es ! Suc i" if y: "y \<in> set es" for y
  proof -
    obtain j where j: "j < length es" "y = es ! j" using y by (auto simp: in_set_conv_nth)
    have d: "distinct es" using assms(2) by (rule distinct_map_dest)
    have "ph y = Some (sh (es ! i)) \<longleftrightarrow> j \<noteq> 0 \<and> sh (es ! (j - 1)) = sh (es ! i)"
      using linked_nth [OF assms(3) j(1)] j(2) by auto
    also have "\<dots> \<longleftrightarrow> j = Suc i"
      using assms(2) j(1) Suc.prems(1) nth_eq_iff_index_eq [of "map sh es" "j - 1" i] by auto
    finally show ?thesis using j d nth_eq_iff_index_eq by auto
  qed
  show ?case
  proof (cases "Suc i < length es")
    case True
    then have "filter (\<lambda>e. ph e = Some (sh (es ! i))) events = [es ! Suc i]"
      using child by (intro filter_singleton [OF assms(1) distinct_map_dest [OF assms(2)]]) auto
    then show ?thesis using hash Suc.IH [of "Suc i" "v + 1"] True Suc.prems(2) by simp
  next
    case False
    have "set events = set es" using assms(1) by (rule mset_eq_setD)
    then have "filter (\<lambda>e. ph e = Some (sh (es ! i))) events = []"
      using child False by (auto simp: filter_empty_conv)
    then show ?thesis using hash False Suc.prems(1) by simp
  qed
qed simp

subsection \<open>Reports\<close>

lemma report_fail_invalid [simp]: "\<not> cr_valid (report_fail n r rep)"
  by (simp add: report_fail_def)

lemma fold_fail_mono: "cr_valid (fold (\<lambda>e. report_fail (f e) r) es rep) \<Longrightarrow> cr_valid rep \<and> es = []"
proof (induction es arbitrary: rep)
  case (Cons e es)
  then have "cr_valid (fold (\<lambda>e. report_fail (f e) r) es (report_fail (f e) r rep))" by simp
  from Cons.IH [OF this] show ?case by simp
qed simp

lemma check_nodes_valid:
  "cr_valid (fst (check_nodes ok nid sh reason events rep)) \<longleftrightarrow> cr_valid rep \<and> list_all ok events"
proof -
  have "cr_valid (fold (\<lambda>e r. if ok e then r else report_fail (nid e) reason r) events rep) \<longleftrightarrow>
      cr_valid rep \<and> list_all ok events"
    by (induction events arbitrary: rep) (auto simp: report_fail_def)
  then show ?thesis by (simp add: check_nodes_def)
qed

lemma verify_links_valid:
  assumes "verify_links fuel rep events by_hash nid sh ph = Some r" "cr_valid r" "sh ` set events \<subseteq> set by_hash"
  shows "cr_valid rep \<and> (\<exists>g. filter (\<lambda>e. ph e = None) events = [g] \<and>
    walk_links fuel sh ph events by_hash (Some g) 0 = Some (Inr (length events)))"
proof -
  have "walk_links fuel sh ph events by_hash (Some g) 0 \<noteq> Some (Inl [])"
    if "filter (\<lambda>e. ph e = None) events = [g]" for g
    using walk_no_silent_stop [OF assms(3)] filter_Cons_in [OF that] by blast
  then show ?thesis
    using assms(1,2)
    by (auto simp: verify_links_def report_fail_def dest!: fold_fail_mono
        split: list.splits option.splits sum.splits if_splits)
qed

lemma verify_links_returns:
  assumes "\<And>g. filter (\<lambda>e. ph e = None) events = [g] \<Longrightarrow> \<exists>w. walk_links fuel sh ph events by_hash (Some g) 0 = Some w"
  shows "\<exists>r. verify_links fuel rep events by_hash nid sh ph = Some r"
proof (cases "\<exists>g. filter (\<lambda>e. ph e = None) events = [g]")
  case True
  then obtain g w where "filter (\<lambda>e. ph e = None) events = [g]" "walk_links fuel sh ph events by_hash (Some g) 0 = Some w"
    using assms by blast
  then show ?thesis by (cases w) (simp_all add: verify_links_def)
next
  case False
  then show ?thesis by (auto simp: verify_links_def split: list.split)
qed

lemma verify_links_report_mono:
  "verify_links fuel rep events by_hash nid sh ph = Some r \<Longrightarrow> cr_valid r \<Longrightarrow> cr_valid rep"
  by (auto simp: verify_links_def report_fail_def dest!: fold_fail_mono
      split: list.splits option.splits sum.splits if_splits)

text \<open>
  The two ledgers share one verification result: for collision-free digests a row list is
  reported valid exactly when it is a permutation of one chain of rows that all verify.
\<close>

context hash_ledger
begin

lemma verify_links_chain:
  assumes "inj sha" "list_all (node_ok sha) events" "by_hash = map self_hash (filter (node_ok sha) events)"
    and "verify_links fuel rep events by_hash nid self_hash prev_hash = Some r" "cr_valid r" "distinct events"
  shows "\<exists>es. mset es = mset events \<and> linked self_hash prev_hash None es"
proof -
  have cover: "self_hash ` set events \<subseteq> set by_hash"
    using assms(2,3) by (auto simp: list_all_iff)
  obtain g where g: "filter (\<lambda>e. prev_hash e = None) events = [g]"
    "walk_links fuel self_hash prev_hash events by_hash (Some g) 0 = Some (Inr (length events))"
    using verify_links_valid [OF assms(4,5) cover] by blast
  have gp: "g \<in> set events" "prev_hash g = None" using filter_Cons_in [OF g(1)] by auto
  obtain es where es: "linked self_hash prev_hash (prev_hash g) (g # es)" "set es \<subseteq> set events"
    "length events = Suc (length es)" using walk_sound [OF g(2)] by auto
  have "list_all (node_ok sha) (g # es)" using es(2) gp(1) assms(2) by (auto simp: list_all_iff)
  then have d: "distinct (g # es)"
    using es(1) gp(2) by (intro distinct_map_dest [OF chain_distinct [OF assms(1)]]) simp_all
  have "card (set (g # es)) = card (set events)"
    using distinct_card [OF d] distinct_card [OF assms(6)] es(3) by simp
  then have "set (g # es) = set events"
    using es(2) gp(1) by (intro card_subset_eq) auto
  then have "mset (g # es) = mset events" using d assms(6) by (metis set_eq_iff_mset_eq_distinct)
  then show ?thesis using es(1) gp(2) by metis
qed

lemma chain_verify_links:
  assumes "inj sha" "mset es = mset events" "linked self_hash prev_hash None es" "list_all (node_ok sha) es"
    and "es \<noteq> []" "length events < fuel" "by_hash = map self_hash (filter (node_ok sha) events)"
  shows "verify_links fuel rep events by_hash nid self_hash prev_hash = Some rep"
proof -
  have d: "distinct (map self_hash es)" using chain_distinct assms by blast
  have len: "length es = length events" "events \<noteq> []" using assms(2,5) by (auto dest: mset_eq_length)
  have "filter (\<lambda>e. prev_hash e = None) events = [es ! 0]"
  proof (rule filter_singleton [OF assms(2) [symmetric] distinct_map_dest [OF d]])
    show "es ! 0 \<in> set es" using assms(5) by simp
    show "prev_hash y = None \<longleftrightarrow> y = es ! 0" if y: "y \<in> set es" for y
      using y linked_nth [OF assms(3)] distinct_map_dest [OF d] assms(5)
      by (auto simp: in_set_conv_nth nth_eq_iff_index_eq split: if_splits)
  qed
  moreover have "self_hash ` set es \<subseteq> set by_hash"
    using assms(2,4,7) mset_eq_setD by (fastforce simp: list_all_iff)
  then have "walk_links fuel self_hash prev_hash events by_hash (Some (es ! 0)) 0 = Some (Inr (length events))"
    using walk_complete [OF assms(2) [symmetric] d assms(3), of by_hash 0 fuel 0] assms(5,6) len by simp
  ultimately show ?thesis by (simp add: verify_links_def)
qed

end

subsection \<open>The two ledgers\<close>

definition audit_content :: "audit_event \<Rightarrow> string \<times> string option \<times> string option \<times> json" where
  "audit_content e = (ae_operation_type e, ae_workspace_id e, ae_run_id e, sort_keys (ae_payload e))"

definition pgl_content :: "pgl_event \<Rightarrow> string \<rightharpoonup> json" where
  "pgl_content e = (dict_of (pe_payload e))(''previous_event_hash'' := None)"

lemma chained_lookup:
  "dict_of [(''operation_type'', JStr op), (''workspace_id'', jopt ws), (''run_id'', jopt run),
      (''payload'', pl), (''previous_log_hash'', jopt prev)] =
   [''operation_type'' \<mapsto> JStr op, ''workspace_id'' \<mapsto> jopt ws, ''run_id'' \<mapsto> jopt run,
      ''payload'' \<mapsto> sort_keys pl, ''previous_log_hash'' \<mapsto> jopt prev]"
  by (rule ext) (simp add: dict_of_def)

interpretation audit_ledger: hash_ledger ae_log_hash ae_previous_log_hash audit_node_ok audit_content
proof unfold_locales
  fix sha :: "string \<Rightarrow> digest" and a b
  assume "inj sha" "audit_node_ok sha a" "audit_node_ok sha b" "ae_log_hash a = ae_log_hash b"
  then have d: "dict_of [(''operation_type'', JStr (ae_operation_type a)), (''workspace_id'', jopt (ae_workspace_id a)),
      (''run_id'', jopt (ae_run_id a)), (''payload'', ae_payload a), (''previous_log_hash'', jopt (ae_previous_log_hash a))] =
    dict_of [(''operation_type'', JStr (ae_operation_type b)), (''workspace_id'', jopt (ae_workspace_id b)),
      (''run_id'', jopt (ae_run_id b)), (''payload'', ae_payload b), (''previous_log_hash'', jopt (ae_previous_log_hash b))]"
    unfolding audit_node_ok_def sha256_json_def chained_json_def
    by (intro canonical_json_dictD) (metis injD)
  note at = fun_cong [OF d [unfolded chained_lookup]]
  show "ae_previous_log_hash a = ae_previous_log_hash b \<and> audit_content a = audit_content b"
    using at [of "''operation_type''"] at [of "''workspace_id''"] at [of "''run_id''"] at [of "''payload''"]
      at [of "''previous_log_hash''"] by (simp add: audit_content_def)
qed

interpretation pgl_ledger: hash_ledger pe_event_hash pe_previous_event_hash pgl_node_ok pgl_content
proof unfold_locales
  fix sha :: "string \<Rightarrow> digest" and a b
  assume "inj sha" "pgl_node_ok sha a" "pgl_node_ok sha b" "pe_event_hash a = pe_event_hash b"
  then have "dict_of (AList.update ''previous_event_hash'' (jopt (pe_previous_event_hash a)) (pe_payload a)) =
      dict_of (AList.update ''previous_event_hash'' (jopt (pe_previous_event_hash b)) (pe_payload b))"
    unfolding pgl_node_ok_def sha256_json_def by (intro canonical_json_dictD) (metis injD)
  moreover have "dict_of (AList.update k v kvs) = (dict_of kvs)(k \<mapsto> sort_keys v)" for k v kvs
    by (rule ext) (simp add: dict_of_def update_conv)
  ultimately have d: "(dict_of (pe_payload a))(''previous_event_hash'' \<mapsto> jopt (pe_previous_event_hash a)) =
      (dict_of (pe_payload b))(''previous_event_hash'' \<mapsto> jopt (pe_previous_event_hash b))"
    by simp
  have "jopt (pe_previous_event_hash a) = jopt (pe_previous_event_hash b)"
    using fun_cong [OF d, of "''previous_event_hash''"] by simp
  moreover have "pgl_content a = pgl_content b"
    using arg_cong [OF d, of "\<lambda>m. m(''previous_event_hash'' := None)"] by (simp add: pgl_content_def)
  ultimately show "pe_previous_event_hash a = pe_previous_event_hash b \<and> pgl_content a = pgl_content b"
    by simp
qed

subsection \<open>Appended ledgers\<close>

inductive recorded :: "(string \<Rightarrow> digest) \<Rightarrow> audit_event list \<Rightarrow> bool" for sha where
  recorded_Nil: "recorded sha []"
| recorded_step: "recorded sha evs \<Longrightarrow> audit_record sha log_id now op pl ws run evs = (evs', e) \<Longrightarrow> recorded sha evs'"

lemma latest_hash_chain:
  assumes "linked ae_log_hash ae_previous_log_hash None evs" "distinct (map ae_log_hash evs)"
  shows "latest_hash evs = (if evs = [] then None else Some (ae_log_hash (last evs)))"
proof (cases evs rule: rev_cases)
  case (snoc es x)
  let ?orphan = "\<lambda>e. \<forall>c \<in> set evs. ae_previous_log_hash c \<noteq> Some (ae_log_hash e)"
  have nth: "ae_previous_log_hash (evs ! i) = (if i = 0 then None else Some (ae_log_hash (evs ! (i - 1))))"
    if "i < length evs" for i using linked_nth [OF assms(1) that] .
  have "?orphan y \<longleftrightarrow> y = x" if y: "y \<in> set evs" for y
  proof -
    obtain j where j: "j < length evs" "y = evs ! j" using y by (auto simp: in_set_conv_nth)
    have inj: "ae_log_hash (evs ! i) = ae_log_hash (evs ! k) \<longleftrightarrow> i = k" if "i < length evs" "k < length evs" for i k
      using assms(2) that nth_eq_iff_index_eq [of "map ae_log_hash evs" i k] by simp
    have "?orphan y \<longleftrightarrow> (\<forall>i < length evs. i = 0 \<or> i - 1 \<noteq> j)"
      using nth j inj by (auto simp: all_set_conv_all_nth)
    also have "\<dots> \<longleftrightarrow> j = length evs - 1"
    proof
      assume *: "\<forall>i < length evs. i = 0 \<or> i - 1 \<noteq> j"
      show "j = length evs - 1" using * [rule_format, of "Suc j"] j(1) by force
    qed (use j(1) in auto)
    also have "\<dots> \<longleftrightarrow> y = x"
      using j snoc distinct_map_dest [OF assms(2)] nth_eq_iff_index_eq [of evs j "length evs - 1"] by auto
    finally show ?thesis .
  qed
  then have "filter ?orphan evs = [x]"
    using snoc by (intro filter_singleton [OF refl distinct_map_dest [OF assms(2)]]) auto
  then show ?thesis using snoc by (simp add: latest_hash_def)
qed (simp add: latest_hash_def)

lemma recorded_chain:
  assumes "inj sha" "recorded sha evs"
  shows "linked ae_log_hash ae_previous_log_hash None evs \<and> list_all (audit_node_ok sha) evs"
  using assms(2)
proof induction
  case (recorded_step evs log_id now op pl ws run evs' e)
  then have "distinct (map ae_log_hash evs)" using audit_ledger.chain_distinct [OF assms(1)] by blast
  then show ?case
    using recorded_step latest_hash_chain
    by (auto simp: audit_record_def new_audit_event_def linked_snoc audit_node_ok_def Let_def)
qed simp

lemma sort_key_Nil_iff: "sort_key f xs = [] \<longleftrightarrow> xs = []"
  by (metis length_0_conv length_sort)

lemma verify_audit_unfold:
  assumes "table \<noteq> []"
  shows "verify_audit_chain sha fuel table =
    verify_links fuel
      (fst (check_nodes (audit_node_ok sha) ae_log_id ae_log_hash ''log_hash does not match recomputed hash''
        (sort_key ae_created_at table)
        \<lparr>cr_name = ''audit_events'', cr_total = length table, cr_valid = True, cr_broken_links = []\<rparr>))
      (sort_key ae_created_at table)
      (map ae_log_hash (filter (audit_node_ok sha) (sort_key ae_created_at table)))
      ae_log_id ae_log_hash ae_previous_log_hash"
  using assms by (simp add: verify_audit_chain_def check_nodes_def Let_def sort_key_Nil_iff)

subsection \<open>Properties\<close>

text \<open>
  C34. Whatever the order of the timestamps, a ledger written by successive \<open>record\<close> calls is
  reported valid by the verifier, whose walk ends within one step more than there are rows.
\<close>

theorem audit_appends_verify:
  assumes "inj sha" "recorded sha evs" "length evs < fuel"
  shows "\<exists>r. verify_audit_chain sha fuel evs = Some r \<and> cr_valid r \<and> cr_total r = length evs"
proof (cases "evs = []")
  case False
  have c: "linked ae_log_hash ae_previous_log_hash None evs" "list_all (audit_node_ok sha) evs"
    using recorded_chain [OF assms(1,2)] by simp_all
  let ?rep = "\<lparr>cr_name = ''audit_events'', cr_total = length evs, cr_valid = True, cr_broken_links = []\<rparr>"
  let ?cn = "check_nodes (audit_node_ok sha) ae_log_id ae_log_hash ''log_hash does not match recomputed hash''
    (sort_key ae_created_at evs) ?rep"
  have all: "list_all (audit_node_ok sha) (sort_key ae_created_at evs)" using c(2) by (simp add: list_all_iff)
  have same: "fst ?cn = ?rep"
  proof -
    have "fold (\<lambda>e r. if ok e then r else report_fail (nid e) why r) es rep = rep"
      if "list_all ok es" for ok nid why rep and es :: "audit_event list"
      using that by (induction es arbitrary: rep) auto
    then show ?thesis using all by (simp add: check_nodes_def)
  qed
  have "verify_audit_chain sha fuel evs = Some ?rep"
    unfolding verify_audit_unfold [OF False] same
    using audit_ledger.chain_verify_links [OF assms(1) _ c False] assms(3) by simp
  then show ?thesis by simp
qed (simp add: verify_audit_chain_def)

text \<open>
  C22. A ledger reported valid is one unbroken chain: its rows, in some order, start at the single
  row without predecessor, each next row points at the hash of the one before it, no row is
  left out or shared, and every row's hash is the hash of its own content.
\<close>

theorem audit_valid_is_chain:
  assumes "inj sha" "distinct table" "verify_audit_chain sha fuel table = Some r" "cr_valid r"
  shows "\<exists>es. mset es = mset table \<and> linked ae_log_hash ae_previous_log_hash None es \<and>
    list_all (audit_node_ok sha) es"
proof (cases "table = []")
  case False
  let ?evs = "sort_key ae_created_at table"
  note v = assms(3) [unfolded verify_audit_unfold [OF False]]
  have "cr_valid (fst (check_nodes (audit_node_ok sha) ae_log_id ae_log_hash ''log_hash does not match recomputed hash''
      ?evs \<lparr>cr_name = ''audit_events'', cr_total = length table, cr_valid = True, cr_broken_links = []\<rparr>))"
    using v assms(4) verify_links_report_mono by blast
  then have ok: "list_all (audit_node_ok sha) ?evs" by (simp add: check_nodes_valid)
  obtain es where "mset es = mset ?evs" "linked ae_log_hash ae_previous_log_hash None es"
    using audit_ledger.verify_links_chain [OF assms(1) ok refl v assms(4)] assms(2) by auto
  moreover have "list_all (audit_node_ok sha) es" using ok calculation(1) by (metis list_all_iff mset_eq_setD)
  ultimately show ?thesis by auto
qed (auto intro: exI [of _ "[]"])

text \<open>
  The head of the ledger commits to all of it: two chains of verifying rows with the same
  last hash have the same operations, workspaces, runs and payloads in the same order.
\<close>

theorem audit_head_commits:
  assumes "inj sha" "linked ae_log_hash ae_previous_log_hash None a" "linked ae_log_hash ae_previous_log_hash None b"
    and "list_all (audit_node_ok sha) a" "list_all (audit_node_ok sha) b" "a \<noteq> []" "b \<noteq> []"
    and "ae_log_hash (last a) = ae_log_hash (last b)"
  shows "map audit_content a = map audit_content b"
  using assms by (rule audit_ledger.tail_determines)

text \<open>
  C35. The verifier returns on every ledger whose row hashes are distinct, tampered or not.
\<close>

theorem audit_verify_returns:
  assumes "distinct (map ae_log_hash table)" "length table < fuel"
  shows "\<exists>r. verify_audit_chain sha fuel table = Some r"
proof (cases "table = []")
  case False
  let ?evs = "sort_key ae_created_at table"
  have inj: "inj_on ae_log_hash (set ?evs)" using assms(1) by (simp add: distinct_map)
  have walk: "\<exists>w. walk_links fuel ae_log_hash ae_previous_log_hash ?evs bh (Some g) 0 = Some w"
    if "filter (\<lambda>e. ae_previous_log_hash e = None) ?evs = [g]" for g bh
    using walk_terminates [OF inj, of ae_previous_log_hash "[g]" fuel] filter_Cons_in [OF that] assms(2) by simp
  show ?thesis
    unfolding verify_audit_unfold [OF False]
    using verify_links_returns [of ae_previous_log_hash ?evs fuel ae_log_hash] walk by blast
qed (simp add: verify_audit_chain_def)

text \<open>Rows of the examples: a genesis row, its successor, and a third row whose hash was overwritten.\<close>

definition row_a :: audit_event where
  "row_a = new_audit_event id ''a'' 0 None ''op'' JNull None None"

definition row_b :: audit_event where
  "row_b = new_audit_event id ''b'' 1 (Some (ae_log_hash row_a)) ''op'' JNull None None"

definition tampered_row :: audit_event where
  "tampered_row = (new_audit_event id ''c'' 2 (Some (ae_log_hash row_b)) ''op'' JNull None None)
     \<lparr>ae_log_hash := ae_log_hash row_a\<rparr>"

lemma sample_rows [simp]:
  "ae_previous_log_hash row_a = None" "ae_previous_log_hash row_b = Some (ae_log_hash row_a)"
  "ae_previous_log_hash tampered_row = Some (ae_log_hash row_b)" "ae_log_hash tampered_row = ae_log_hash row_a"
  "ae_created_at row_a = 0" "ae_created_at row_b = 1" "ae_created_at tampered_row = 2"
  "audit_node_ok id row_a" "audit_node_ok id row_b"
  by (simp_all add: row_a_def row_b_def tampered_row_def new_audit_event_def audit_node_ok_def)

lemma row_hashes [simp]: "ae_log_hash row_a \<noteq> ae_log_hash row_b" "ae_log_hash row_b \<noteq> ae_log_hash row_a"
  using audit_ledger.binds [OF inj_on_id, of row_a row_b] by auto

lemma row_ids [simp]: "row_a \<noteq> row_b" "row_b \<noteq> row_a"
  by (metis row_hashes)+

lemma recorded_rows: "recorded id [row_a, row_b]"
proof -
  have "audit_record id ''a'' 0 ''op'' JNull None None [] = ([row_a], row_a)"
    by (simp add: audit_record_def row_a_def latest_hash_def Let_def)
  then have a: "recorded id [row_a]" using recorded_step recorded_Nil by blast
  have "audit_record id ''b'' 1 ''op'' JNull None None [row_a] = ([row_a, row_b], row_b)"
    by (simp add: audit_record_def row_b_def latest_hash_def Let_def)
  with a show ?thesis using recorded_step by blast
qed

theorem audit_appends_verify_witness:
  "\<exists>r. verify_audit_chain id 3 [row_a, row_b] = Some r \<and> cr_valid r \<and> cr_total r = 2"
  using audit_appends_verify [OF inj_on_id recorded_rows, of 3] by (simp add: numeral_2_eq_2)

theorem audit_valid_is_chain_witness:
  "\<exists>es. mset es = mset [row_a, row_b] \<and> linked ae_log_hash ae_previous_log_hash None es \<and>
     list_all (audit_node_ok id) es"
proof -
  have "verify_audit_chain id 3 [row_a, row_b] = Some \<lparr>cr_name = ''audit_events'', cr_total = 2, cr_valid = True,
      cr_broken_links = []\<rparr>"
    by (simp add: verify_audit_chain_def check_nodes_def verify_links_def numeral_3_eq_3)
  from audit_valid_is_chain [OF inj_on_id _ this] show ?thesis by simp
qed

theorem audit_head_commits_witness:
  "map audit_content [row_a, row_b] = map audit_content [row_a, row_b\<lparr>ae_log_id := ''z'', ae_created_at := 9\<rparr>]"
proof (rule audit_head_commits [OF inj_on_id])
  have "audit_node_ok id (row_b\<lparr>ae_log_id := ''z'', ae_created_at := 9\<rparr>)"
    by (simp add: audit_node_ok_def row_b_def new_audit_event_def)
  then show "list_all (audit_node_ok id) [row_a, row_b\<lparr>ae_log_id := ''z'', ae_created_at := 9\<rparr>]" by simp
qed simp_all

theorem audit_verify_returns_witness: "\<exists>r. verify_audit_chain id 3 [row_b, row_a] = Some r"
  by (rule audit_verify_returns) simp_all

text \<open>
  Distinct hashes are needed: when a later row's stored hash is overwritten with the hash of
  the first row, the walk goes round the cycle and never ends, whatever the number of steps. The
  overwritten row fails its own hash check, but the walk only asks whether some verified row has
  that hash.
\<close>

theorem audit_verify_tampered_cycle:
  "verify_audit_chain id fuel [row_a, row_b, tampered_row] = None"
proof -
  let ?t = "[row_a, row_b, tampered_row]"
  have "walk_links fuel ae_log_hash ae_previous_log_hash ?t bh (Some row_b) v = None \<and>
      walk_links fuel ae_log_hash ae_previous_log_hash ?t bh (Some tampered_row) v = None \<and>
      walk_links fuel ae_log_hash ae_previous_log_hash ?t bh (Some row_a) v = None"
    if "ae_log_hash row_a \<in> set bh" "ae_log_hash row_b \<in> set bh" for bh v
    using that by (induction fuel arbitrary: v) auto
  then show ?thesis
    by (simp add: verify_audit_chain_def check_nodes_def verify_links_def)
qed

end
