(* ===== verification/Effects.thy ===== *)
theory Effects
  imports Canonical
begin

text \<open>
  Server-side effect targets (\<open>capability_mount/effects.py\<close>): the resource name check, the
  governed counter over its SQLite table, the file-backed record store, and the registry of
  targets. The counter table is a finite map from (workspace, project, resource) to value and
  version; the record store maps file names to documents. A dispatch returns the new target
  state with either the Python exception it raised or its result.
\<close>

subsection \<open>Resource names\<close>

definition is_alnum :: "char \<Rightarrow> bool" where
  "is_alnum c \<longleftrightarrow> CHR ''A'' \<le> c \<and> c \<le> CHR ''Z'' \<or> CHR ''a'' \<le> c \<and> c \<le> CHR ''z'' \<or> CHR ''0'' \<le> c \<and> c \<le> CHR ''9''"

definition valid_resource :: "string \<Rightarrow> bool" where
  "valid_resource s \<longleftrightarrow> 1 \<le> length s \<and> length s \<le> 128 \<and>
     list_all (\<lambda>c. is_alnum c \<or> c = CHR ''.'' \<or> c = CHR ''_'' \<or> c = CHR ''-'') s"

datatype target_error =
    ValueError string
  | KeyError string

record consequence_context =
  cx_action :: string
  cx_resource :: string
  cx_arguments :: "(string \<times> json) list"
  cx_operation_id :: "string option"
  cx_workspace :: "string option"
  cx_project :: "string option"

subsection \<open>The governed counter\<close>

type_synonym counter_key = "string \<times> string \<times> string"

record counter_target =
  ct_rows :: "counter_key \<Rightarrow> (int \<times> int) option"
  ct_invocation_count :: nat
  ct_invocations_by_action :: "string \<Rightarrow> nat"

definition counter_actions :: "string set" where
  "counter_actions = {''counter.read'', ''counter.increment'', ''counter.reset''}"

text \<open>\<open>arguments["delta"] != 1\<close>: Python's \<open>True\<close> equals 1.\<close>

definition delta_is_one :: "json \<Rightarrow> bool" where
  "delta_is_one v \<longleftrightarrow> v = JNum 1 \<or> v = JBool True"

definition counter_key_of :: "consequence_context \<Rightarrow> target_error + counter_key" where
  "counter_key_of cx =
    (if \<not> valid_resource (cx_resource cx) then Inl (ValueError ''invalid_target_resource'')
     else if \<not> truthy (cx_workspace cx) then Inl (ValueError ''missing_workspace_identity'')
     else if \<not> truthy (cx_project cx) then Inl (ValueError ''missing_project_scope'')
     else Inr (the (cx_workspace cx), the (cx_project cx), cx_resource cx))"

definition counter_read_state :: "counter_target \<Rightarrow> consequence_context \<Rightarrow> target_error + json" where
  "counter_read_state t cx =
    (case counter_key_of cx of
       Inl e \<Rightarrow> Inl e
     | Inr k \<Rightarrow>
         let (v, n) = (case ct_rows t k of None \<Rightarrow> (0, 0) | Some r \<Rightarrow> r)
         in Inr (JObj [(''resource'', JStr (cx_resource cx)), (''value'', JNum v), (''version'', JNum n)]))"

definition counter_count :: "counter_target \<Rightarrow> string \<Rightarrow> counter_target" where
  "counter_count t act =
    t\<lparr>ct_invocation_count := ct_invocation_count t + 1,
      ct_invocations_by_action := (ct_invocations_by_action t)(act := ct_invocations_by_action t act + 1)\<rparr>"

definition counter_dispatch :: "counter_target \<Rightarrow> consequence_context \<Rightarrow> counter_target \<times> (target_error + json)" where
  "counter_dispatch t0 cx =
    (let t = counter_count t0 (cx_action cx)
     in case counter_key_of cx of
       Inl e \<Rightarrow> (t, Inl e)
     | Inr k \<Rightarrow>
         if cx_action cx = ''counter.read'' then (t, counter_read_state t cx)
         else if (case map_of (cx_arguments cx) ''delta'' of None \<Rightarrow> False | Some v \<Rightarrow> \<not> delta_is_one v) then
           (t, Inl (ValueError ''invalid_counter_delta''))
         else
           let (value, version) = (case ct_rows t k of None \<Rightarrow> (0, 0) | Some r \<Rightarrow> r)
           in if cx_action cx = ''counter.increment'' then
                (t\<lparr>ct_rows := (ct_rows t)(k \<mapsto> (value + 1, version + 1))\<rparr>,
                 Inr (JObj [(''resource'', JStr (cx_resource cx)), (''previous_value'', JNum value),
                            (''value'', JNum (value + 1)), (''version'', JNum (version + 1))]))
              else if cx_action cx = ''counter.reset'' then
                (t\<lparr>ct_rows := (ct_rows t)(k \<mapsto> (0, version + 1))\<rparr>,
                 Inr (JObj [(''resource'', JStr (cx_resource cx)), (''value'', JNum 0),
                            (''version'', JNum (version + 1))]))
              else (t\<lparr>ct_rows := (ct_rows t)(k \<mapsto> (value, version))\<rparr>, Inl (ValueError ''target_not_mapped'')))"

subsection \<open>The record store\<close>

record record_target =
  rt_files :: "string \<Rightarrow> json option"
  rt_invocation_count :: nat
  rt_invocations_by_action :: "string \<Rightarrow> nat"

definition record_actions :: "string set" where
  "record_actions = {''record.create'', ''record.read'', ''record.delete''}"

text \<open>The file of a resource under the store's root; a valid name has no separator, so the
  parent check after \<open>resolve()\<close> never refuses one.\<close>

definition record_path :: "string \<Rightarrow> target_error + string" where
  "record_path resource =
    (if \<not> valid_resource resource then Inl (ValueError ''invalid_target_resource'')
     else Inr (resource @ ''.json''))"

definition record_read_state :: "record_target \<Rightarrow> consequence_context \<Rightarrow> target_error + json" where
  "record_read_state t cx =
    (case record_path (cx_resource cx) of
       Inl e \<Rightarrow> Inl e
     | Inr p \<Rightarrow> (case rt_files t p of None \<Rightarrow> Inl (KeyError (cx_resource cx)) | Some d \<Rightarrow> Inr d))"

definition record_dispatch :: "record_target \<Rightarrow> consequence_context \<Rightarrow> record_target \<times> (target_error + json)" where
  "record_dispatch t0 cx =
    (let t = t0\<lparr>rt_invocation_count := rt_invocation_count t0 + 1,
               rt_invocations_by_action := (rt_invocations_by_action t0)
                 (cx_action cx := rt_invocations_by_action t0 (cx_action cx) + 1)\<rparr>
     in case record_path (cx_resource cx) of
       Inl e \<Rightarrow> (t, Inl e)
     | Inr p \<Rightarrow>
         if cx_action cx = ''record.create'' then
           (t\<lparr>rt_files := (rt_files t)(p \<mapsto> JObj (cx_arguments cx))\<rparr>, Inr (JObj (cx_arguments cx)))
         else if cx_action cx = ''record.read'' then (t, record_read_state t cx)
         else if cx_action cx = ''record.delete'' then
           (case rt_files t p of
              None \<Rightarrow> (t, Inl (KeyError (cx_resource cx)))
            | Some _ \<Rightarrow> (t\<lparr>rt_files := (rt_files t)(p := None)\<rparr>, Inr (JObj [(''deleted'', JStr (cx_resource cx))])))
         else (t, Inl (ValueError ''target_not_mapped'')))"

subsection \<open>The registry\<close>

definition register_target :: "string \<Rightarrow> 'a \<Rightarrow> (string \<rightharpoonup> 'a) \<Rightarrow> (string \<rightharpoonup> 'a)" where
  "register_target ref adapter targets = targets(ref \<mapsto> adapter)"

definition resolve_target :: "(string \<rightharpoonup> 'a) \<Rightarrow> string \<Rightarrow> 'a option" where
  "resolve_target targets ref = targets ref"

lemma resolve_register [simp]:
  "resolve_target (register_target r a ts) s = (if s = r then Some a else resolve_target ts s)"
  by (simp add: resolve_target_def register_target_def)

subsection \<open>Properties\<close>

definition sum_isr :: "'a + 'b \<Rightarrow> bool" where
  "sum_isr x \<longleftrightarrow> (case x of Inl _ \<Rightarrow> False | Inr _ \<Rightarrow> True)"

lemma counter_rows_other:
  assumes "counter_key_of cx = Inr k" "k' \<noteq> k"
  shows "ct_rows (fst (counter_dispatch t cx)) k' = ct_rows t k'"
  using assms by (simp add: counter_dispatch_def counter_count_def Let_def split: prod.split)

lemma counter_rows_error:
  assumes "counter_key_of cx = Inl e"
  shows "ct_rows (fst (counter_dispatch t cx)) = ct_rows t"
  using assms by (simp add: counter_dispatch_def counter_count_def Let_def)

text \<open>
  Sandbox isolation at the counter target: a dispatch, whatever its action, arguments and
  outcome, leaves every counter of every other workspace, project or resource exactly as it was,
  so an operation in the sandbox project cannot change a live counter.
\<close>

theorem counter_dispatch_isolated:
  assumes "Some ws \<noteq> cx_workspace cx \<or> Some proj \<noteq> cx_project cx \<or> res \<noteq> cx_resource cx"
  shows "ct_rows (fst (counter_dispatch t cx)) (ws, proj, res) = ct_rows t (ws, proj, res)"
proof (cases "counter_key_of cx")
  case (Inl e)
  then show ?thesis by (simp add: counter_rows_error)
next
  case (Inr k)
  then have "k = (the (cx_workspace cx), the (cx_project cx), cx_resource cx)"
    "truthy (cx_workspace cx)" "truthy (cx_project cx)"
    by (auto simp: counter_key_of_def split: if_splits)
  then have "k \<noteq> (ws, proj, res)" using assms by (cases "cx_workspace cx"; cases "cx_project cx") auto
  then show ?thesis using counter_rows_other [OF Inr] by metis
qed

text \<open>
  A successful increment adds exactly one to the value and to the version of its own counter
  and reports the old and the new value; a rejected dispatch never changes a counter's value.
\<close>

theorem counter_increment_exact:
  assumes "counter_key_of cx = Inr k" "cx_action cx = ''counter.increment''"
    and "ct_rows t k = Some (v, n)" "counter_dispatch t cx = (t', r)"
  shows "(if sum_isr r then ct_rows t' k = Some (v + 1, n + 1) \<and>
            r = Inr (JObj [(''resource'', JStr (cx_resource cx)), (''previous_value'', JNum v),
                       (''value'', JNum (v + 1)), (''version'', JNum (n + 1))])
          else ct_rows t' k = Some (v, n) \<and> r = Inl (ValueError ''invalid_counter_delta''))
    \<and> ct_invocation_count t' = Suc (ct_invocation_count t)"
  using assms by (auto simp: counter_dispatch_def counter_count_def sum_isr_def Let_def split: if_splits)

definition sample_context :: consequence_context where
  "sample_context = \<lparr>cx_action = ''counter.increment'', cx_resource = ''main'', cx_arguments = [(''delta'', JNum 1)],
     cx_operation_id = Some ''op'', cx_workspace = Some ''w'', cx_project = Some ''sandbox''\<rparr>"

definition sample_counter :: counter_target where
  "sample_counter = \<lparr>ct_rows = [(''w'', ''sandbox'', ''main'') \<mapsto> (4, 9), (''w'', ''live'', ''main'') \<mapsto> (7, 7)],
     ct_invocation_count = 0, ct_invocations_by_action = (\<lambda>_. 0)\<rparr>"

theorem counter_dispatch_isolated_witness:
  "ct_rows (fst (counter_dispatch sample_counter sample_context)) (''w'', ''live'', ''main'') =
   ct_rows sample_counter (''w'', ''live'', ''main'')"
  by (rule counter_dispatch_isolated) (simp add: sample_context_def)

lemma sample_key: "counter_key_of sample_context = Inr (''w'', ''sandbox'', ''main'')"
  by (simp add: counter_key_of_def sample_context_def valid_resource_def is_alnum_def less_eq_char_def)

theorem counter_increment_exact_witness:
  "ct_rows (fst (counter_dispatch sample_counter sample_context)) (''w'', ''sandbox'', ''main'') = Some (5, 10)"
proof -
  obtain t' r where d: "counter_dispatch sample_counter sample_context = (t', r)" by fastforce
  have "sum_isr r" using d sample_key
    by (auto simp: counter_dispatch_def sample_context_def delta_is_one_def sum_isr_def Let_def split: prod.splits)
  with counter_increment_exact [OF sample_key _ _ d, of 4 9] d show ?thesis
    by (simp add: sample_context_def sample_counter_def)
qed

end
