(* ===== verification/Permits.thy ===== *)
theory Permits
  imports Canonical
begin

text \<open>
  Consequence permits (\<open>capability_mount/permits.py\<close>) and operation envelopes
  (\<open>capability_mount/envelope.py\<close>). HMAC-SHA-256 is the parameter \<open>mac\<close> (key, message), SHA-256
  the parameter \<open>sha\<close>, and Ed25519 verification the parameter \<open>verify_sig\<close>. The lemmas show that
  a permit commits to the operation, mount, receipt, payload and target it was minted for, and
  that an envelope digest commits to every part of the operation it binds.
\<close>

subsection \<open>Permits\<close>

abbreviation newline :: char where
  "newline \<equiv> CHR 0x0A"

definition permit_domain :: string where
  "permit_domain = ''veklom-consequence-permit-v2''"

definition redeem_domain :: string where
  "redeem_domain = ''veklom-target-redeem-v1''"

record permit_settings =
  ps_consequence_permit_key :: "string option"
  ps_approval_token_signing_key :: "string option"

definition permit_key ::
  "(string \<Rightarrow> digest) \<Rightarrow> (string \<Rightarrow> string \<Rightarrow> digest) \<Rightarrow> permit_settings option \<Rightarrow> string option" where
  "permit_key sha mac settings =
    (let explicit = (case settings of None \<Rightarrow> [] | Some s \<Rightarrow> or_str (ps_consequence_permit_key s) []);
         base = (case settings of None \<Rightarrow> [] | Some s \<Rightarrow> or_str (ps_approval_token_signing_key s) [])
     in if explicit \<noteq> [] then Some (sha (permit_domain @ ''|explicit|'' @ explicit))
        else if base \<noteq> [] then Some (mac base (permit_domain @ ''|derived''))
        else None)"

definition payload_digest :: "(string \<Rightarrow> digest) \<Rightarrow> string \<Rightarrow> digest" where
  "payload_digest sha payload = sha payload"

text \<open>\<open>"\n".join(parts)\<close>.\<close>

fun join_lines :: "string list \<Rightarrow> string" where
  "join_lines [] = []"
| "join_lines [x] = x"
| "join_lines (x # y # zs) = x @ newline # join_lines (y # zs)"

definition permit_message :: "string \<Rightarrow> string \<Rightarrow> string option \<Rightarrow> string \<Rightarrow> string \<Rightarrow> string" where
  "permit_message operation_id mount_id receipt_id payload_sha256 target_ref =
     permit_domain @ newline # join_lines [operation_id, mount_id, or_str receipt_id [], payload_sha256, target_ref]"

text \<open>\<open>None\<close> is the \<open>ValueError\<close> of a permit without target.\<close>

definition mint_permit ::
  "(string \<Rightarrow> string \<Rightarrow> digest) \<Rightarrow> string \<Rightarrow> string \<Rightarrow> string \<Rightarrow> string option \<Rightarrow> string \<Rightarrow> string \<Rightarrow> digest option" where
  "mint_permit mac key operation_id mount_id receipt_id payload_sha256 target_ref =
    (if target_ref = [] then None
     else Some (mac key (permit_message operation_id mount_id receipt_id payload_sha256 target_ref)))"

definition permit_matches ::
  "(string \<Rightarrow> string \<Rightarrow> digest) \<Rightarrow> string \<Rightarrow> string \<Rightarrow> string \<Rightarrow> string \<Rightarrow> string option \<Rightarrow> string \<Rightarrow> string \<Rightarrow> bool option" where
  "permit_matches mac key presented operation_id mount_id receipt_id payload_sha256 target_ref =
    (case mint_permit mac key operation_id mount_id receipt_id payload_sha256 target_ref of
       None \<Rightarrow> None
     | Some expected \<Rightarrow> Some (expected = presented))"

definition redeem_message :: "(string \<Rightarrow> digest) \<Rightarrow> string \<Rightarrow> string \<Rightarrow> string \<Rightarrow> string \<Rightarrow> string" where
  "redeem_message sha operation_id payload_sha256 permit target_ref =
     join_lines [redeem_domain, operation_id, payload_sha256, sha permit, target_ref]"

subsection \<open>Envelopes\<close>

definition operation_envelope_digest ::
  "(string \<Rightarrow> digest) \<Rightarrow> string \<Rightarrow> string \<Rightarrow> string \<Rightarrow> string \<Rightarrow> (string \<times> json) list \<Rightarrow> digest" where
  "operation_envelope_digest sha package_ref target_ref action resource arguments =
     sha (''veklom-consequence-envelope-v1'' @ newline # canonical_json (JObj
       [(''action'', JStr action), (''arguments'', JObj arguments), (''package_ref'', JStr package_ref),
        (''resource'', JStr resource), (''target_ref'', JStr target_ref)]))"

subsection \<open>What they commit to\<close>

lemma join_lines_inject:
  assumes "list_all (\<lambda>s. newline \<notin> set s) xs" "list_all (\<lambda>s. newline \<notin> set s) ys" "length xs = length ys"
  shows "join_lines xs = join_lines ys \<longleftrightarrow> xs = ys"
  using assms(3,1,2)
proof (induction xs ys rule: list_induct2)
  case (Cons x xs y ys)
  show ?case
  proof (cases "xs = []")
    case True
    then show ?thesis using Cons by (cases ys) auto
  next
    case False
    then obtain u us v vs where xs: "xs = u # us" "ys = v # vs" using Cons.hyps by (cases xs; cases ys) auto
    have nl: "newline \<notin> set x" "newline \<notin> set y" using Cons.prems by simp_all
    have "join_lines (x # xs) = x @ newline # join_lines xs" "join_lines (y # ys) = y @ newline # join_lines ys"
      by (simp_all add: xs)
    then have "join_lines (x # xs) = join_lines (y # ys) \<longleftrightarrow> x = y \<and> join_lines xs = join_lines ys"
      using mark_cancel [OF nl, of "join_lines xs" "join_lines ys"] by auto
    then show ?thesis using Cons.IH Cons.prems by simp
  qed
qed simp

text \<open>
  A permit is bound to one consequence: with a collision-free MAC key and line-free fields, a
  presented permit matches exactly when it was minted for this operation, mount, receipt, payload
  and target (a missing receipt and an empty one are the same).
\<close>

theorem permit_binds:
  assumes "inj (mac key)" "mint_permit mac key op m rc pl t = Some p" "t' \<noteq> []"
    and "list_all (\<lambda>s. newline \<notin> set s) [op, m, or_str rc [], pl, t, op', m', or_str rc' [], pl', t']"
  shows "permit_matches mac key p op' m' rc' pl' t' = Some True \<longleftrightarrow>
    op = op' \<and> m = m' \<and> or_str rc [] = or_str rc' [] \<and> pl = pl' \<and> t = t'"
proof -
  have p: "p = mac key (permit_message op m rc pl t)"
    using assms(2) by (simp add: mint_permit_def split: if_splits)
  have "permit_matches mac key p op' m' rc' pl' t' = Some True \<longleftrightarrow>
      permit_message op' m' rc' pl' t' = permit_message op m rc pl t"
    using assms(1,3) p by (simp add: permit_matches_def mint_permit_def inj_eq)
  also have "\<dots> \<longleftrightarrow> [op', m', or_str rc' [], pl', t'] = [op, m, or_str rc [], pl, t]"
    using assms(4) unfolding permit_message_def same_append_eq list.inject
    by (subst join_lines_inject) simp_all
  finally show ?thesis by auto
qed

theorem permit_binds_witness:
  "permit_matches (\<lambda>k m. m) ''k'' (permit_message ''op'' ''m'' None ''aa'' ''t'') ''op'' ''m'' None ''aa'' ''u'' = Some True
   \<longleftrightarrow> ''t'' = ''u''"
proof -
  have "mint_permit (\<lambda>k m. m) ''k'' ''op'' ''m'' None ''aa'' ''t'' =
      Some (permit_message ''op'' ''m'' None ''aa'' ''t'')"
    by (simp add: mint_permit_def)
  from permit_binds [OF _ this, of "''u''" "''op''" "''m''" None "''aa''"] show ?thesis by simp
qed

text \<open>
  An operation envelope binds everything: under a collision-free digest two operations have
  the same envelope exactly when package, target, action and resource are equal and the argument
  dictionaries are equal.
\<close>

theorem envelope_binds:
  assumes "inj sha" "distinct (map fst args)" "distinct (map fst args')"
  shows "operation_envelope_digest sha p t a r args = operation_envelope_digest sha p' t' a' r' args' \<longleftrightarrow>
    p = p' \<and> t = t' \<and> a = a' \<and> r = r' \<and> dict_of args = dict_of args'"
proof -
  let ?o = "\<lambda>p t a r args. [(''action'', JStr a), (''arguments'', JObj args), (''package_ref'', JStr p),
    (''resource'', JStr r), (''target_ref'', JStr t)]"
  have "operation_envelope_digest sha p t a r args = operation_envelope_digest sha p' t' a' r' args' \<longleftrightarrow>
      canonical_json (JObj (?o p t a r args)) = canonical_json (JObj (?o p' t' a' r' args'))"
    using assms(1) by (simp add: operation_envelope_digest_def inj_eq)
  also have "\<dots> \<longleftrightarrow> dict_of (?o p t a r args) = dict_of (?o p' t' a' r' args')"
    by (simp add: canonical_json_dict)
  also have "\<dots> \<longleftrightarrow> a = a' \<and> sort_keys (JObj args) = sort_keys (JObj args') \<and> p = p' \<and> r = r' \<and> t = t'"
  proof
    assume "dict_of (?o p t a r args) = dict_of (?o p' t' a' r' args')"
    then have at: "dict_of (?o p t a r args) k = dict_of (?o p' t' a' r' args') k" for k by simp
    show "a = a' \<and> sort_keys (JObj args) = sort_keys (JObj args') \<and> p = p' \<and> r = r' \<and> t = t'"
      using at [of "''action''"] at [of "''arguments''"] at [of "''package_ref''"] at [of "''resource''"]
        at [of "''target_ref''"] by (simp add: dict_of_def)
  qed (auto simp: dict_of_def fun_eq_iff)
  also have "sort_keys (JObj args) = sort_keys (JObj args') \<longleftrightarrow> dict_of args = dict_of args'"
    using canonical_json_dict [OF assms(2,3)] by (simp add: canonical_json_inject)
  finally show ?thesis by blast
qed

theorem envelope_binds_witness:
  "operation_envelope_digest id ''pkg@v1'' ''tgt'' ''act'' ''res'' [(''delta'', JNum 1)] \<noteq>
   operation_envelope_digest id ''pkg@v1'' ''tgt'' ''act'' ''res'' [(''delta'', JNum 2)]"
proof -
  have "dict_of [(''delta'', JNum 1)] ''delta'' \<noteq> dict_of [(''delta'', JNum 2)] ''delta''"
    by (simp add: dict_of_def)
  then show ?thesis using envelope_binds [of id "[(''delta'', JNum 1)]" "[(''delta'', JNum 2)]"] by auto
qed

end
