(* ===== verification/Mount_Engine.thy ===== *)
theory Mount_Engine
  imports Permits Effects Consequence
begin

text \<open>
  The capability mount core (\<open>capability_mount/models.py\<close>, \<open>capability_mount/engine.py\<close>):
  packages, scopes, grants, tokens and mounts; the mounter that derives a mount from a package;
  the capability profile; and the execution binding with its hash-chained audit events and the
  governed \<open>consequence\<close> call. Pydantic's coercion of policy booleans is the parameter
  \<open>lax_bool\<close>, and Python's \<open>str\<close> of an argument is the parameter \<open>py_str\<close>. The lemmas show that
  a mount never grants more than its package and request, that blocked actions always lose, that
  audit events form a verifying chain, and that an effect runs only after authorization and start.
\<close>

subsection \<open>Contract models\<close>

datatype decision = ALLOW | DENY

fun decision_value :: "decision \<Rightarrow> string" where
  "decision_value ALLOW = ''allow''"
| "decision_value DENY = ''deny''"

datatype unmount_reason = TASK_COMPLETE | TOKEN_EXPIRY | EXPLICIT_TERMINATE

fun unmount_value :: "unmount_reason \<Rightarrow> string" where
  "unmount_value TASK_COMPLETE = ''task_complete''"
| "unmount_value TOKEN_EXPIRY = ''token_expiry''"
| "unmount_value EXPLICIT_TERMINATE = ''explicit_terminate''"

record package =
  pk_id :: string
  pk_family :: string
  pk_title :: string
  pk_purpose :: string
  pk_reads :: "string list"
  pk_writes :: "string list"
  pk_blocked :: "string list"
  pk_outputs :: "string list"
  pk_policy_defaults :: "(string \<times> json) list"
  pk_external_send_actions :: "string list"
  pk_suppression_required_actions :: "string list"
  pk_target_ref :: "string option"
  pk_requires_start_claim :: bool

definition unique_actions :: "string list \<Rightarrow> bool" where
  "unique_actions acts \<longleftrightarrow> distinct acts \<and> list_all (\<lambda>a. a \<noteq> []) acts"

text \<open>The identifier pattern: a name of letters, digits, dots, underscores and dashes, then \<open>@v\<close> and digits.\<close>

definition package_id_ok :: "string \<Rightarrow> bool" where
  "package_id_ok s \<longleftrightarrow> (\<exists>i \<in> set [0..<length s]. 0 < i \<and>
     list_all (\<lambda>c. is_alnum c \<or> c = CHR ''.'' \<or> c = CHR ''_'' \<or> c = CHR ''-'') (take i s) \<and>
     starts_with (drop i s) ''@v'' \<and> drop (i + 2) s \<noteq> [] \<and> list_all is_digit (drop (i + 2) s))"

definition package_valid :: "package \<Rightarrow> bool" where
  "package_valid p \<longleftrightarrow> package_id_ok (pk_id p) \<and> pk_family p \<noteq> [] \<and> pk_title p \<noteq> [] \<and> pk_purpose p \<noteq> [] \<and>
     list_all unique_actions [pk_reads p, pk_writes p, pk_blocked p, pk_outputs p,
       pk_external_send_actions p, pk_suppression_required_actions p] \<and>
     set (pk_external_send_actions p) \<subseteq> set (pk_writes p) \<and>
     set (pk_suppression_required_actions p) \<subseteq> set (pk_writes p) \<and> pk_target_ref p \<noteq> Some []"

record bound_operation =
  bo_target_ref :: string
  bo_action :: string
  bo_resource :: string
  bo_arguments :: "(string \<times> json) list"

record mount_scope =
  sc_workspace :: string
  sc_project :: string
  sc_reads :: "string list option"
  sc_writes :: "string list option"
  sc_resources :: "string list option"
  sc_blocked :: "string list"
  sc_operation :: "bound_operation option"

record grants =
  gr_reads :: "string list"
  gr_writes :: "string list"
  gr_resources :: "string list"
  gr_blocked :: "string list"
  gr_external_send :: "string list"
  gr_suppression_required :: "string list"
  gr_envelope_digest :: "digest option"

record mount_policy =
  mp_mode :: string
  mp_require_human_approval_for_external_send :: bool
  mp_require_suppression_check :: bool
  mp_persistent_memory_allowed :: bool

record token =
  tk_token_id :: string
  tk_mount_id :: string
  tk_execution_id :: string
  tk_package_ref :: string
  tk_substrate_id :: "string option"
  tk_boot_instance_id :: "string option"
  tk_runtime_key_thumbprint :: "string option"
  tk_state_root :: "string option"
  tk_workspace :: string
  tk_project :: string
  tk_grants :: grants
  tk_policy :: mount_policy
  tk_issued_at :: time
  tk_expires_at :: time
  tk_ttl_seconds :: int
  tk_nonce_consumed :: bool
  tk_nonce :: string
  tk_biscuit_token :: "string option"

record mount =
  mt_id :: string
  mt_package_ref :: string
  mt_role :: string
  mt_scope :: mount_scope
  mt_ttl_seconds :: int
  mt_grants :: grants
  mt_policy :: mount_policy
  mt_substrate_id :: "string option"
  mt_boot_instance_id :: "string option"
  mt_runtime_key_thumbprint :: "string option"
  mt_state_root :: "string option"
  mt_incarnation :: int
  mt_previous_history_head :: "digest option"
  mt_history_head :: "digest option"
  mt_decision_hash :: "string option"
  mt_handover_reason :: "string option"

subsection \<open>The capability profile\<close>

definition profile_allows :: "grants \<Rightarrow> string \<Rightarrow> bool" where
  "profile_allows g action =
     (if action \<in> set (gr_blocked g) then False else action \<in> set (gr_reads g) \<or> action \<in> set (gr_writes g))"

definition profile_is_blocked :: "grants \<Rightarrow> string \<Rightarrow> bool" where
  "profile_is_blocked g action \<longleftrightarrow> action \<in> set (gr_blocked g)"

definition profile_covers_resource :: "grants \<Rightarrow> string option \<Rightarrow> bool" where
  "profile_covers_resource g resource =
     (if gr_resources g = [] then True
      else case resource of None \<Rightarrow> False | Some r \<Rightarrow> r \<in> set (gr_resources g))"

subsection \<open>The mounter\<close>

definition default_policy :: mount_policy where
  "default_policy = \<lparr>mp_mode = ''draft_only'', mp_require_human_approval_for_external_send = True,
     mp_require_suppression_check = True, mp_persistent_memory_allowed = False\<rparr>"

text \<open>
  \<open>MountPolicy.model_validate\<close> on the policy keys of the package defaults: a missing key takes its
  default, a value of the wrong type is a validation error (\<open>None\<close>).
\<close>

definition bool_field :: "(json \<Rightarrow> bool option) \<Rightarrow> (string \<times> json) list \<Rightarrow> string \<Rightarrow> bool \<Rightarrow> bool option" where
  "bool_field lax_bool raw key dflt = (case map_of raw key of None \<Rightarrow> Some dflt | Some v \<Rightarrow> lax_bool v)"

definition trusted_policy :: "(json \<Rightarrow> bool option) \<Rightarrow> (string \<times> json) list \<Rightarrow> mount_policy option" where
  "trusted_policy lax_bool raw =
    (let mode = (case map_of raw ''mode'' of None \<Rightarrow> Some (mp_mode default_policy)
                 | Some (JStr m) \<Rightarrow> (if m = [] then None else Some m) | Some _ \<Rightarrow> None);
         dflt = (case map_of raw ''default'' of None \<Rightarrow> True | Some v \<Rightarrow> v = JStr ''deny'');
         human = bool_field lax_bool raw ''require_human_approval_for_external_send'' True;
         supp = bool_field lax_bool raw ''require_suppression_check'' True;
         mem = bool_field lax_bool raw ''persistent_memory_allowed'' False
     in case (mode, human, supp, mem) of
          (Some m, Some h, Some s, Some p) \<Rightarrow>
            if dflt then Some \<lparr>mp_mode = m, mp_require_human_approval_for_external_send = h,
                               mp_require_suppression_check = s, mp_persistent_memory_allowed = p\<rparr>
            else None
        | _ \<Rightarrow> None)"

definition effective_policy ::
  "(json \<Rightarrow> bool option) \<Rightarrow> package \<Rightarrow> mount_policy option \<Rightarrow> mount_policy option" where
  "effective_policy lax_bool pkg requested =
    (case trusted_policy lax_bool (pk_policy_defaults pkg) of
       None \<Rightarrow> None
     | Some trusted \<Rightarrow>
         let caller = (case requested of None \<Rightarrow> default_policy | Some p \<Rightarrow> p)
         in Some
           \<lparr>mp_mode = mp_mode trusted,
            mp_require_human_approval_for_external_send =
              (mp_require_human_approval_for_external_send trusted \<or>
               mp_require_human_approval_for_external_send caller),
            mp_require_suppression_check =
              (mp_require_suppression_check trusted \<or> mp_require_suppression_check caller),
            mp_persistent_memory_allowed =
              (mp_persistent_memory_allowed trusted \<and> mp_persistent_memory_allowed caller)\<rparr>)"

datatype mount_failure =
    MountError string
  | ValidationError

abbreviation sorted_set :: "string set \<Rightarrow> string list" where
  "sorted_set \<equiv> sorted_list_of_set"

text \<open>
  The grants a request gets, before identifiers are drawn: \<open>make_grants\<close> builds the profile from
  the read, write and resource sets that \<open>mount_grants\<close> has derived.
\<close>

definition requested :: "string set \<Rightarrow> string list option \<Rightarrow> string set" where
  "requested dflt req = (case req of None \<Rightarrow> dflt | Some xs \<Rightarrow> set xs)"

definition make_grants :: "package \<Rightarrow> mount_scope \<Rightarrow> string set \<Rightarrow> string set \<Rightarrow> digest option \<Rightarrow> grants" where
  "make_grants pkg scope writes resources envelope =
    \<lparr>gr_reads = sorted_set (set (pk_reads pkg) \<inter> requested (set (pk_reads pkg)) (sc_reads scope)),
     gr_writes = sorted_set writes,
     gr_resources = sorted_set resources,
     gr_blocked = sorted_set (set (pk_blocked pkg) \<union> set (sc_blocked scope)),
     gr_external_send = sorted_set (set (pk_external_send_actions pkg) \<inter> writes),
     gr_suppression_required = sorted_set (set (pk_suppression_required_actions pkg) \<inter> writes),
     gr_envelope_digest = envelope\<rparr>"

definition mount_grants :: "(string \<Rightarrow> digest) \<Rightarrow> package \<Rightarrow> mount_scope \<Rightarrow> mount_failure + grants" where
  "mount_grants sha pkg scope =
    (let granted_writes = set (pk_writes pkg) \<inter> requested (set (pk_writes pkg)) (sc_writes scope);
         granted_resources = requested {} (sc_resources scope)
     in if sc_resources scope = Some [] then
          Inl (MountError ''resources, when given, must name at least one resource'')
        else if sc_resources scope \<noteq> None \<and> \<not> list_all valid_resource (the (sc_resources scope)) then
          Inl (MountError ''invalid_resource'')
        else case sc_operation scope of
               None \<Rightarrow> Inr (make_grants pkg scope granted_writes granted_resources None)
             | Some operation \<Rightarrow>
                 if \<not> truthy (pk_target_ref pkg) \<or> Some (bo_target_ref operation) \<noteq> pk_target_ref pkg then
                   Inl (MountError ''operation_target_not_bound_to_package'')
                 else if bo_action operation \<notin> granted_writes then
                   Inl (MountError ''operation_action_not_granted'')
                 else if \<not> valid_resource (bo_resource operation) then
                   Inl (MountError ''invalid_resource'')
                 else if sc_resources scope \<noteq> None \<and> granted_resources \<noteq> {bo_resource operation} then
                   Inl (MountError ''operation_resource_mismatch'')
                 else
                   Inr (make_grants pkg scope {bo_action operation} {bo_resource operation}
                     (Some (operation_envelope_digest sha (pk_id pkg) (bo_target_ref operation)
                        (bo_action operation) (bo_resource operation) (bo_arguments operation)))))"

definition MAX_TTL_SECONDS :: int where "MAX_TTL_SECONDS = 600"

record substrate_binding =
  sb_substrate_id :: "string option"
  sb_boot_instance_id :: "string option"
  sb_runtime_key_thumbprint :: "string option"
  sb_state_root :: "string option"

text \<open>\<open>uid 0\<close>, \<open>uid 1\<close>, \<open>uid 2\<close> are the \<open>uuid4().hex\<close> values in the order of the source, \<open>nonce\<close> is \<open>token_hex(32)\<close>.\<close>

definition mounter_mount ::
  "(string \<Rightarrow> digest) \<Rightarrow> (json \<Rightarrow> bool option) \<Rightarrow> (nat \<Rightarrow> string) \<Rightarrow> string \<Rightarrow> time \<Rightarrow> package \<Rightarrow> mount_scope \<Rightarrow>
   mount_policy option \<Rightarrow> int \<Rightarrow> string \<Rightarrow> string option \<Rightarrow> substrate_binding \<Rightarrow> mount_failure + mount \<times> token" where
  "mounter_mount sha lax_bool uid nonce now pkg scope policy ttl role execution_id sb =
    (if ttl < 1 \<or> ttl > MAX_TTL_SECONDS then
       Inl (MountError (''ttl must be between 1 and '' @ show_int MAX_TTL_SECONDS @ '' seconds''))
     else case effective_policy lax_bool pkg policy of
       None \<Rightarrow> Inl ValidationError
     | Some selected_policy \<Rightarrow>
         if mp_persistent_memory_allowed selected_policy then
           Inl (MountError ''persistent memory is not permitted for ephemeral mounts'')
         else case mount_grants sha pkg scope of
           Inl e \<Rightarrow> Inl e
         | Inr g \<Rightarrow> if role = [] then Inl ValidationError else
             let mount_id = ''mnt_'' @ uid 0;
                 resolved_execution_id = or_str execution_id (''exec_'' @ uid 1);
                 expires_at = now + ttl * 1000000;
                 tok = \<lparr>tk_token_id = ''tok_'' @ uid 2, tk_mount_id = mount_id,
                   tk_execution_id = resolved_execution_id, tk_package_ref = pk_id pkg,
                   tk_substrate_id = sb_substrate_id sb, tk_boot_instance_id = sb_boot_instance_id sb,
                   tk_runtime_key_thumbprint = sb_runtime_key_thumbprint sb, tk_state_root = sb_state_root sb,
                   tk_workspace = sc_workspace scope, tk_project = sc_project scope, tk_grants = g,
                   tk_policy = selected_policy, tk_issued_at = now, tk_expires_at = expires_at,
                   tk_ttl_seconds = ttl, tk_nonce_consumed = False, tk_nonce = nonce, tk_biscuit_token = None\<rparr>;
                 mnt = \<lparr>mt_id = mount_id, mt_package_ref = pk_id pkg, mt_role = role, mt_scope = scope,
                   mt_ttl_seconds = ttl, mt_grants = g, mt_policy = selected_policy,
                   mt_substrate_id = sb_substrate_id sb, mt_boot_instance_id = sb_boot_instance_id sb,
                   mt_runtime_key_thumbprint = sb_runtime_key_thumbprint sb, mt_state_root = sb_state_root sb,
                   mt_incarnation = 1, mt_previous_history_head = None, mt_history_head = None,
                   mt_decision_hash = None, mt_handover_reason = None\<rparr>
             in Inr (mnt, tok))"

subsection \<open>Execution bindings\<close>

record exec_audit_event =
  xa_event_id :: string
  xa_execution_id :: string
  xa_action :: string
  xa_decision :: decision
  xa_reason :: string
  xa_ts :: time
  xa_prev_hash :: "digest option"
  xa_event_hash :: digest

text \<open>
  The payload texts are identifiers, reasons and timestamps in ASCII, on which \<open>json.dumps\<close> gives
  the same text with and without \<open>ensure_ascii\<close>.
\<close>

definition event_hash :: "(string \<Rightarrow> digest) \<Rightarrow> exec_audit_event \<Rightarrow> digest" where
  "event_hash sha ev = sha256_json sha (JObj
     [(''event_id'', JStr (xa_event_id ev)), (''execution_id'', JStr (xa_execution_id ev)),
      (''action'', JStr (xa_action ev)), (''decision'', JStr (decision_value (xa_decision ev))),
      (''reason'', JStr (xa_reason ev)), (''ts'', JStr (isoformat (xa_ts ev))),
      (''prev_hash'', jopt (xa_prev_hash ev))])"

fun verify_chain_from :: "(string \<Rightarrow> digest) \<Rightarrow> digest option \<Rightarrow> exec_audit_event list \<Rightarrow> bool" where
  "verify_chain_from sha previous [] = True"
| "verify_chain_from sha previous (ev # evs) =
    (if xa_prev_hash ev \<noteq> previous then False
     else if event_hash sha ev \<noteq> xa_event_hash ev then False
     else verify_chain_from sha (Some (xa_event_hash ev)) evs)"

definition verify_chain :: "(string \<Rightarrow> digest) \<Rightarrow> exec_audit_event list \<Rightarrow> bool" where
  "verify_chain sha events = verify_chain_from sha None events"

text \<open>
  A binding holds its token, the terminated flag, the hash of the last event and the events it
  has appended to its sink. Each operation takes the identifiers (\<open>uid\<close>) and clock readings
  (\<open>clk\<close>) it draws.
\<close>

record binding =
  bd_token :: token
  bd_terminated :: bool
  bd_last_hash :: "digest option"
  bd_events :: "exec_audit_event list"

definition new_binding :: "token \<Rightarrow> binding" where
  "new_binding tok = \<lparr>bd_token = tok, bd_terminated = False, bd_last_hash = None, bd_events = []\<rparr>"

definition binding_append ::
  "(string \<Rightarrow> digest) \<Rightarrow> string \<Rightarrow> time \<Rightarrow> string \<Rightarrow> decision \<Rightarrow> string \<Rightarrow> binding \<Rightarrow> binding" where
  "binding_append sha u now action dec reason b =
    (let event = \<lparr>xa_event_id = ''evt_'' @ u, xa_execution_id = tk_execution_id (bd_token b),
           xa_action = action, xa_decision = dec, xa_reason = reason, xa_ts = now,
           xa_prev_hash = bd_last_hash b, xa_event_hash = ''pending''\<rparr>;
         hashed = event\<lparr>xa_event_hash := event_hash sha event\<rparr>
     in b\<lparr>bd_events := bd_events b @ [hashed], bd_last_hash := Some (xa_event_hash hashed)\<rparr>)"

datatype policy_error =
    PolicyError string
  | TokenExpiredError string
  | ExecutionTerminatedError string
  | TargetRefusedError string

fun policy_error_text :: "policy_error \<Rightarrow> string" where
  "policy_error_text (PolicyError m) = m"
| "policy_error_text (TokenExpiredError m) = m"
| "policy_error_text (ExecutionTerminatedError m) = m"
| "policy_error_text (TargetRefusedError m) = m"

text \<open>\<open>revoked\<close> is the process-local set of revoked mounts.\<close>

definition mark_mount_revoked :: "string \<Rightarrow> string set \<Rightarrow> string set" where
  "mark_mount_revoked mount_id revoked = insert mount_id revoked"

definition is_mount_revoked :: "string \<Rightarrow> string set \<Rightarrow> bool" where
  "is_mount_revoked mount_id revoked \<longleftrightarrow> mount_id \<in> revoked"

definition check_live ::
  "(string \<Rightarrow> digest) \<Rightarrow> (nat \<Rightarrow> string) \<Rightarrow> (nat \<Rightarrow> time) \<Rightarrow> string set \<Rightarrow> binding \<Rightarrow> binding \<times> policy_error option" where
  "check_live sha uid clk revoked b =
    (if bd_terminated b \<or> is_mount_revoked (tk_mount_id (bd_token b)) revoked then
       (binding_append sha (uid 0) (clk 1) ''execution'' DENY ''terminated'' (b\<lparr>bd_terminated := True\<rparr>),
        Some (ExecutionTerminatedError ''execution is terminated''))
     else if clk 0 > tk_expires_at (bd_token b) then
       (binding_append sha (uid 0) (clk 1) ''execution'' DENY ''token_expired'' b,
        Some (TokenExpiredError ''execution token has expired''))
     else (b, None))"

definition kw_resource :: "(json \<Rightarrow> string) \<Rightarrow> (string \<times> json) list \<Rightarrow> string option" where
  "kw_resource py_str kwargs = (case map_of kwargs ''resource'' of
      None \<Rightarrow> None | Some JNull \<Rightarrow> None | Some v \<Rightarrow> Some (py_str v))"

definition drop_keys :: "string list \<Rightarrow> (string \<times> json) list \<Rightarrow> (string \<times> json) list" where
  "drop_keys ks kvs = filter (\<lambda>(k, v). k \<notin> set ks) kvs"

definition local_eval ::
  "(string \<Rightarrow> digest) \<Rightarrow> (json \<Rightarrow> string) \<Rightarrow> (nat \<Rightarrow> string) \<Rightarrow> (nat \<Rightarrow> time) \<Rightarrow> string set \<Rightarrow> string \<Rightarrow>
   (string \<times> json) list \<Rightarrow> binding \<Rightarrow> binding \<times> (policy_error + (string \<times> json) list)" where
  "local_eval sha py_str uid clk revoked action kwargs b0 =
    (case check_live sha uid clk revoked b0 of
       (b, Some err) \<Rightarrow> (b, Inl err)
     | (b, None) \<Rightarrow>
         let g = tk_grants (bd_token b); pol = tk_policy (bd_token b);
             deny = (\<lambda>reason. (binding_append sha (uid 1) (clk 2) action DENY reason b, Inl (PolicyError reason)))
         in if \<not> profile_allows g action then
              deny (if profile_is_blocked g action then ''blocked_action'' else ''not_in_capability_profile'')
            else if \<not> profile_covers_resource g (kw_resource py_str kwargs) then deny ''resource_not_granted''
            else
              let kwargs' = drop_keys [''approval_token'', ''suppression_confirmed''] kwargs
              in if action \<in> set (gr_external_send g) \<and> mp_require_human_approval_for_external_send pol then
                   deny ''human_approval_not_verified''
                 else if action \<in> set (gr_suppression_required g) \<and> mp_require_suppression_check pol then
                   deny ''suppression_not_verified''
                 else (b, Inr kwargs'))"

definition evaluate_pure ::
  "(string \<Rightarrow> digest) \<Rightarrow> (json \<Rightarrow> string) \<Rightarrow> (nat \<Rightarrow> string) \<Rightarrow> (nat \<Rightarrow> time) \<Rightarrow> string set \<Rightarrow> string \<Rightarrow>
   (string \<times> json) list \<Rightarrow> binding \<Rightarrow> binding \<times> policy_error option" where
  "evaluate_pure sha py_str uid clk revoked action kwargs b =
    (case local_eval sha py_str uid clk revoked action kwargs b of
       (b', Inl err) \<Rightarrow> (b', Some err)
     | (b', Inr _) \<Rightarrow> (binding_append sha (uid 2) (clk 3) action ALLOW ''allowed'' b', None))"

definition binding_terminate ::
  "(string \<Rightarrow> digest) \<Rightarrow> string \<Rightarrow> time \<Rightarrow> unmount_reason \<Rightarrow> binding \<Rightarrow> binding" where
  "binding_terminate sha u now reason b =
    (if bd_terminated b then b
     else binding_append sha u now ''execution'' ALLOW (''terminated:'' @ unmount_value reason)
            (b\<lparr>bd_terminated := True\<rparr>))"

subsection \<open>The governed call\<close>

text \<open>
  \<open>consequence\<close> drives four callbacks over a state of type \<open>'s\<close> (the durable state they share):
  the evaluator, the start claim, the effect itself and the outcome report. An exception is its
  class name, its text, and which of the handlers of the callers it meets.
\<close>

datatype exc_class = PolicyExc policy_error | ValueExc | OtherExc

record exc =
  ex_name :: string
  ex_text :: string
  ex_class :: exc_class

datatype 'r effect_result = Returned 'r | Raised exc

datatype claim = Owned bool | Claim_Policy policy_error | Claim_Failed

record 's callbacks =
  cb_evaluator :: "(string \<Rightarrow> (string \<times> json) list \<Rightarrow> string \<Rightarrow> digest \<Rightarrow> 's \<Rightarrow> 's \<times> (exc + decision \<times> string \<times> string option)) option"
  cb_begin :: "(string \<Rightarrow> 's \<Rightarrow> 's \<times> claim) option"
  cb_reporter :: "(string \<Rightarrow> bool \<Rightarrow> string option \<Rightarrow> bool \<Rightarrow> string \<Rightarrow> 's \<Rightarrow> 's) option"

definition normalized_args :: "(json \<Rightarrow> string) \<Rightarrow> (string \<times> json) list \<Rightarrow> (string \<times> json) list" where
  "normalized_args py_str kwargs =
     map (\<lambda>(k, v). (k, JStr (py_str v)))
       (drop_keys [''approval_token'', ''suppression_evidence'', ''suppression_confirmed''] kwargs)"

definition kw_resource_text :: "(json \<Rightarrow> string) \<Rightarrow> (string \<times> json) list \<Rightarrow> string option" where
  "kw_resource_text py_str kwargs = map_option py_str (map_of kwargs ''resource'')"

definition consequence_intent ::
  "(string \<Rightarrow> digest) \<Rightarrow> (json \<Rightarrow> string) \<Rightarrow> string \<Rightarrow> string \<Rightarrow> string \<Rightarrow> (string \<times> json) list \<Rightarrow> digest" where
  "consequence_intent sha py_str mount_id execution_id action kwargs =
     build_intent_hash sha mount_id execution_id action (kw_resource_text py_str kwargs)
       (normalized_args py_str kwargs)"

text \<open>Running the effect and reporting how it settled.\<close>

definition run_effect ::
  "(string \<Rightarrow> digest) \<Rightarrow> string \<Rightarrow> time \<Rightarrow> string \<Rightarrow> string \<Rightarrow> 's callbacks \<Rightarrow>
   ((string \<times> json) list \<Rightarrow> 's \<Rightarrow> 's \<times> 'r effect_result) \<Rightarrow> (string \<times> json) list \<Rightarrow> binding \<Rightarrow> 's \<Rightarrow>
   binding \<times> 's \<times> 'r effect_result" where
  "run_effect sha u now action op_id cb fn kwargs b s =
    (case fn kwargs s of
       (s1, Raised ex) \<Rightarrow>
         let is_uncertain = (ex_name ex = ''CappoUncertainError'');
             s2 = (case cb_reporter cb of None \<Rightarrow> s1
                   | Some report \<Rightarrow> report op_id False (Some (ex_name ex @ '': '' @ ex_text ex)) is_uncertain
                                     ''callback_exception'' s1)
         in (binding_append sha u now action DENY (''consequence_failed:'' @ ex_name ex) b, s2, Raised ex)
     | (s1, Returned r) \<Rightarrow>
         let s2 = (case cb_reporter cb of None \<Rightarrow> s1
                   | Some report \<Rightarrow> report op_id True None False ''callback_return'' s1)
         in (binding_append sha u now action ALLOW ''allowed'' b, s2, Returned r))"

definition policy_exc :: "policy_error \<Rightarrow> exc" where
  "policy_exc e = \<lparr>ex_name = (case e of PolicyError _ \<Rightarrow> ''PolicyError'' | TokenExpiredError _ \<Rightarrow> ''TokenExpiredError''
      | ExecutionTerminatedError _ \<Rightarrow> ''ExecutionTerminatedError'' | TargetRefusedError _ \<Rightarrow> ''TargetRefusedError''),
     ex_text = policy_error_text e, ex_class = PolicyExc e\<rparr>"

definition consequence ::
  "(string \<Rightarrow> digest) \<Rightarrow> (json \<Rightarrow> string) \<Rightarrow> (nat \<Rightarrow> string) \<Rightarrow> (nat \<Rightarrow> time) \<Rightarrow> string set \<Rightarrow> 's callbacks \<Rightarrow>
   string \<Rightarrow> ((string \<times> json) list \<Rightarrow> 's \<Rightarrow> 's \<times> 'r effect_result) \<Rightarrow> string option \<Rightarrow> (string \<times> json) list \<Rightarrow>
   binding \<Rightarrow> 's \<Rightarrow> binding \<times> 's \<times> 'r effect_result" where
  "consequence sha py_str uid clk revoked cb action fn operation_id kwargs0 b0 s0 =
    (case local_eval sha py_str uid clk revoked action kwargs0 b0 of
       (b, Inl err) \<Rightarrow> (b, s0, Raised (policy_exc err))
     | (b, Inr kwargs) \<Rightarrow>
         (case cb_evaluator cb of
            None \<Rightarrow>
              (binding_append sha (uid 2) (clk 3) action DENY ''cappo_evaluator_missing'' b, s0,
               Raised (policy_exc (PolicyError ''cappo_evaluator_missing'')))
          | Some evaluator \<Rightarrow>
              let op_id = or_str operation_id (uid 3);
                  i_hash = consequence_intent sha py_str (tk_mount_id (bd_token b))
                    (tk_execution_id (bd_token b)) action kwargs
              in case evaluator action kwargs op_id i_hash s0 of
                (s1, Inl ex) \<Rightarrow> (b, s1, Raised ex)
              | (s1, Inr (dec, reason, receipt_id)) \<Rightarrow>
                  if dec \<noteq> ALLOW then
                    (binding_append sha (uid 2) (clk 3) action dec reason b, s1,
                     Raised (policy_exc (PolicyError reason)))
                  else
                    let (s2, owned) = (case cb_begin cb of None \<Rightarrow> (s1, Owned True) | Some claim \<Rightarrow> claim op_id s1)
                    in (case owned of
                          Claim_Policy err \<Rightarrow>
                            (binding_append sha (uid 2) (clk 3) action DENY (policy_error_text err) b, s2,
                             Raised (policy_exc err))
                        | Owned True \<Rightarrow> run_effect sha (uid 2) (clk 3) action op_id cb fn kwargs b s2
                        | _ \<Rightarrow>
                            (binding_append sha (uid 2) (clk 3) action DENY ''consequence_already_started'' b, s2,
                             Raised (policy_exc (PolicyError ''consequence_already_started''))))))"

subsection \<open>Audit chains\<close>

lemma verify_chain_snoc:
  "verify_chain_from sha p (evs @ [e]) \<longleftrightarrow> verify_chain_from sha p evs \<and>
     xa_prev_hash e = (if evs = [] then p else Some (xa_event_hash (last evs))) \<and> event_hash sha e = xa_event_hash e"
  by (induction evs arbitrary: p) auto

definition binding_ok :: "(string \<Rightarrow> digest) \<Rightarrow> binding \<Rightarrow> bool" where
  "binding_ok sha b \<longleftrightarrow> verify_chain sha (bd_events b) \<and>
     bd_last_hash b = (if bd_events b = [] then None else Some (xa_event_hash (last (bd_events b))))"

lemma event_hash_pending [simp]: "event_hash sha (e\<lparr>xa_event_hash := h\<rparr>) = event_hash sha e"
  by (simp add: event_hash_def)

lemma binding_ok_new [simp, inv_intros]: "binding_ok sha (new_binding tok)"
  by (simp add: binding_ok_def new_binding_def verify_chain_def)

lemma binding_ok_append [simp, inv_intros]: "binding_ok sha b \<Longrightarrow> binding_ok sha (binding_append sha u now a d r b)"
  by (simp add: binding_ok_def binding_append_def verify_chain_def verify_chain_snoc event_hash_def Let_def)

lemma binding_ok_flag [simp, inv_intros]: "binding_ok sha b \<Longrightarrow> binding_ok sha (b\<lparr>bd_terminated := t\<rparr>)"
  by (simp add: binding_ok_def)

lemma binding_append_token [simp]: "bd_token (binding_append sha u now a d r b) = bd_token b"
  by (simp add: binding_append_def Let_def)

lemma binding_append_terminated [simp]: "bd_terminated (binding_append sha u now a d r b) = bd_terminated b"
  by (simp add: binding_append_def Let_def)

lemma check_live_ok [inv_intros]:
  "binding_ok sha b \<Longrightarrow> binding_ok sha (fst (check_live sha uid clk revoked b))"
  by (simp add: check_live_def)

lemma check_live_None:
  "check_live sha uid clk revoked b = (b', None) \<longleftrightarrow>
    b' = b \<and> \<not> bd_terminated b \<and> tk_mount_id (bd_token b) \<notin> revoked \<and> clk 0 \<le> tk_expires_at (bd_token b)"
  by (auto simp: check_live_def is_mount_revoked_def)

lemma local_eval_ok [inv_intros]:
  "binding_ok sha b \<Longrightarrow> binding_ok sha (fst (local_eval sha py_str uid clk revoked action kwargs b))"
  using check_live_ok [of sha b uid clk revoked]
  by (auto simp: local_eval_def Let_def split: prod.splits option.splits)

lemma local_eval_Inr:
  assumes "local_eval sha py_str uid clk revoked action kwargs b = (b', Inr kw)"
  shows "b' = b" "\<not> bd_terminated b" "tk_mount_id (bd_token b) \<notin> revoked" "clk 0 \<le> tk_expires_at (bd_token b)"
    "profile_allows (tk_grants (bd_token b)) action"
    "profile_covers_resource (tk_grants (bd_token b)) (kw_resource py_str kwargs)"
    "kw = drop_keys [''approval_token'', ''suppression_confirmed''] kwargs"
    "\<not> (action \<in> set (gr_external_send (tk_grants (bd_token b))) \<and>
        mp_require_human_approval_for_external_send (tk_policy (bd_token b)))"
proof -
  obtain b1 e where c: "check_live sha uid clk revoked b = (b1, e)" by fastforce
  with assms have "e = None" by (cases e) (auto simp: local_eval_def)
  with c have "check_live sha uid clk revoked b = (b1, None)" by simp
  then have live: "b1 = b" "\<not> bd_terminated b" "tk_mount_id (bd_token b) \<notin> revoked"
    "clk 0 \<le> tk_expires_at (bd_token b)" by (simp_all add: check_live_None)
  then show "\<not> bd_terminated b" "tk_mount_id (bd_token b) \<notin> revoked" "clk 0 \<le> tk_expires_at (bd_token b)" by simp_all
  show "b' = b" "profile_allows (tk_grants (bd_token b)) action"
    "profile_covers_resource (tk_grants (bd_token b)) (kw_resource py_str kwargs)"
    "kw = drop_keys [''approval_token'', ''suppression_confirmed''] kwargs"
    "\<not> (action \<in> set (gr_external_send (tk_grants (bd_token b))) \<and>
        mp_require_human_approval_for_external_send (tk_policy (bd_token b)))"
    using assms c \<open>e = None\<close> live(1) by (auto simp: local_eval_def Let_def split: if_splits)
qed

lemma run_effect_ok [inv_intros]:
  "binding_ok sha b \<Longrightarrow> binding_ok sha (fst (run_effect sha u now action op cb fn kwargs b s))"
  by (auto simp: run_effect_def Let_def split: prod.split effect_result.split)

lemma consequence_ok [inv_intros]:
  assumes "binding_ok sha b"
  shows "binding_ok sha (fst (consequence sha py_str uid clk revoked cb action fn operation_id kwargs b s))"
proof -
  obtain b1 r where l: "local_eval sha py_str uid clk revoked action kwargs b = (b1, r)" by fastforce
  then have "binding_ok sha b1" using local_eval_ok [OF assms] by (metis fst_conv)
  then show ?thesis
    using l run_effect_ok
    by (auto simp: consequence_def Let_def split: sum.split option.split prod.split claim.split bool.split)
qed

text \<open>Everything a binding does.\<close>

inductive binding_step :: "(string \<Rightarrow> digest) \<Rightarrow> (json \<Rightarrow> string) \<Rightarrow> binding \<Rightarrow> binding \<Rightarrow> bool" for sha py_str where
  step_check_live: "check_live sha uid clk revoked b = (b', e) \<Longrightarrow> binding_step sha py_str b b'"
| step_evaluate_pure: "evaluate_pure sha py_str uid clk revoked action kwargs b = (b', e) \<Longrightarrow> binding_step sha py_str b b'"
| step_consequence: "consequence sha py_str uid clk revoked (cb :: nat callbacks) action
     (fn :: (string \<times> json) list \<Rightarrow> nat \<Rightarrow> nat \<times> json effect_result) oid kwargs b s = (b', s', r) \<Longrightarrow> binding_step sha py_str b b'"
| step_terminate: "binding_terminate sha u now reason b = b' \<Longrightarrow> binding_step sha py_str b b'"

text \<open>
  The audit trail of an execution is always one verifying hash chain: after any sequence of
  liveness checks, pure evaluations, consequences (whatever their callbacks do) and terminations
  on a new binding, \<open>verify_chain\<close> accepts the events in its sink.
\<close>

theorem binding_audit_chain:
  assumes "(binding_step sha py_str)\<^sup>*\<^sup>* (new_binding tok) b"
  shows "verify_chain sha (bd_events b)"
proof -
  have step: "binding_ok sha b'" if "binding_step sha py_str b b'" "binding_ok sha b" for b b'
    using that
  proof (induction rule: binding_step.induct)
    case (step_evaluate_pure uid clk revoked action kwargs b b' e)
    then show ?case
      using local_eval_ok [of sha b py_str uid clk revoked action kwargs]
      by (auto simp: evaluate_pure_def split: prod.splits sum.splits)
  next
    case (step_consequence uid clk revoked cb action fn oid kwargs b s b' s' r)
    then show ?case using consequence_ok [of sha b py_str uid clk revoked cb action fn oid kwargs s] by simp
  next
    case (step_terminate u now reason b b')
    then show ?case by (auto simp: binding_terminate_def)
  next
    case (step_check_live uid clk revoked b b' e)
    then show ?case using check_live_ok [of sha b uid clk revoked] by simp
  qed
  from assms have "binding_ok sha b"
    by (induction rule: rtranclp_induct) (auto intro: step)
  then show ?thesis by (simp add: binding_ok_def)
qed

definition sample_package :: package where
  "sample_package = \<lparr>pk_id = ''lead@v1'', pk_family = ''lead'', pk_title = ''Lead'', pk_purpose = ''demo'',
     pk_reads = [''leads.read''], pk_writes = [''draft.write'', ''mail.send''], pk_blocked = [''leads.delete''],
     pk_outputs = [], pk_policy_defaults = [], pk_external_send_actions = [''mail.send''],
     pk_suppression_required_actions = [], pk_target_ref = Some ''counter'', pk_requires_start_claim = False\<rparr>"

definition sample_scope :: mount_scope where
  "sample_scope = \<lparr>sc_workspace = ''w'', sc_project = ''p'', sc_reads = None, sc_writes = Some [''draft.write''],
     sc_resources = Some [''acme''], sc_blocked = [''leads.export''], sc_operation = None\<rparr>"

definition sample_token :: token where
  "sample_token = \<lparr>tk_token_id = ''tok_c'', tk_mount_id = ''mnt_a'', tk_execution_id = ''exec_b'',
     tk_package_ref = ''lead@v1'', tk_substrate_id = None, tk_boot_instance_id = None,
     tk_runtime_key_thumbprint = None, tk_state_root = None, tk_workspace = ''w'', tk_project = ''p'',
     tk_grants = \<lparr>gr_reads = [''leads.read''], gr_writes = [''draft.write''], gr_resources = [''acme''],
       gr_blocked = [''leads.delete'', ''leads.export''], gr_external_send = [], gr_suppression_required = [],
       gr_envelope_digest = None\<rparr>,
     tk_policy = default_policy, tk_issued_at = 0, tk_expires_at = 60000000, tk_ttl_seconds = 60,
     tk_nonce_consumed = False, tk_nonce = ''n'', tk_biscuit_token = None\<rparr>"

definition sample_callbacks :: "nat callbacks" where
  "sample_callbacks = \<lparr>cb_evaluator = Some (\<lambda>action kw op ih s. (s, Inr (ALLOW, ''allowed'', None))),
     cb_begin = Some (\<lambda>op s. (Suc s, Owned True)), cb_reporter = None\<rparr>"

lemma binding_step_consequence:
  "binding_step sha py_str b (fst (consequence sha py_str uid clk revoked (cb :: nat callbacks) action
     (fn :: (string \<times> json) list \<Rightarrow> nat \<Rightarrow> nat \<times> json effect_result) oid kwargs b s))"
proof -
  obtain b' s' r where "consequence sha py_str uid clk revoked cb action fn oid kwargs b s = (b', s', r)"
    by (cases "consequence sha py_str uid clk revoked cb action fn oid kwargs b s")
  then show ?thesis using step_consequence by simp
qed

lemma binding_audit_chain_witness:
  "verify_chain id (bd_events (fst (consequence id (\<lambda>_. ''acme'') (\<lambda>_. ''e'') (\<lambda>_. 0) {}
     sample_callbacks ''draft.write'' (\<lambda>kw s. (s, Returned JNull)) None [(''resource'', JStr ''acme'')]
     (new_binding sample_token) 0)))"
  by (rule binding_audit_chain [OF r_into_rtranclp, OF binding_step_consequence])

subsection \<open>What a mount grants\<close>

lemma requested_subset: "set ps \<inter> requested (set ps) req \<subseteq> set ps \<inter> (case req of None \<Rightarrow> UNIV | Some xs \<Rightarrow> set xs)"
  by (simp add: requested_def split: option.split)

lemma finite_requested [simp]: "finite A \<Longrightarrow> finite (requested A req)"
  by (simp add: requested_def split: option.split)

lemma mount_grants_cases:
  assumes "mount_grants sha pkg scope = Inr g"
  obtains (free) "sc_operation scope = None"
      "g = make_grants pkg scope (set (pk_writes pkg) \<inter> requested (set (pk_writes pkg)) (sc_writes scope))
             (requested {} (sc_resources scope)) None"
      "sc_resources scope \<noteq> Some []" "list_all valid_resource (case sc_resources scope of None \<Rightarrow> [] | Some rs \<Rightarrow> rs)"
  | (bound) bop where "sc_operation scope = Some bop" "pk_target_ref pkg = Some (bo_target_ref bop)"
      "bo_action bop \<in> set (pk_writes pkg) \<inter> requested (set (pk_writes pkg)) (sc_writes scope)"
      "valid_resource (bo_resource bop)"
      "sc_resources scope = None \<or> requested {} (sc_resources scope) = {bo_resource bop}"
      "g = make_grants pkg scope {bo_action bop} {bo_resource bop}
         (Some (operation_envelope_digest sha (pk_id pkg) (bo_target_ref bop)
            (bo_action bop) (bo_resource bop) (bo_arguments bop)))"
proof (cases "sc_operation scope")
  case None
  then show ?thesis
    using assms by (intro free; cases "sc_resources scope"; simp add: mount_grants_def Let_def split: if_split_asm)
next
  case (Some bop)
  then show ?thesis
    using assms by (intro bound) (auto simp: mount_grants_def Let_def split: if_split_asm)
qed

lemma mount_grants_Inr:
  assumes "mount_grants sha pkg scope = Inr g"
  shows "set (gr_reads g) \<subseteq> set (pk_reads pkg) \<inter> (case sc_reads scope of None \<Rightarrow> UNIV | Some rs \<Rightarrow> set rs)"
    and "set (gr_writes g) \<subseteq> set (pk_writes pkg) \<inter> (case sc_writes scope of None \<Rightarrow> UNIV | Some ws \<Rightarrow> set ws)"
    and "set (gr_blocked g) = set (pk_blocked pkg) \<union> set (sc_blocked scope)"
    and "set (gr_external_send g) = set (pk_external_send_actions pkg) \<inter> set (gr_writes g)"
    and "set (gr_suppression_required g) = set (pk_suppression_required_actions pkg) \<inter> set (gr_writes g)"
    and "list_all valid_resource (gr_resources g)"
    and "sc_resources scope = Some rs \<Longrightarrow> gr_resources g \<noteq> [] \<and> set (gr_resources g) \<subseteq> set rs"
proof -
  note rs = requested_subset [of "pk_reads pkg" "sc_reads scope"]
  note ws = requested_subset [of "pk_writes pkg" "sc_writes scope"]
  from assms have "set (gr_reads g) \<subseteq> set (pk_reads pkg) \<inter> (case sc_reads scope of None \<Rightarrow> UNIV | Some rs \<Rightarrow> set rs) \<and>
    set (gr_writes g) \<subseteq> set (pk_writes pkg) \<inter> (case sc_writes scope of None \<Rightarrow> UNIV | Some ws \<Rightarrow> set ws) \<and>
    set (gr_blocked g) = set (pk_blocked pkg) \<union> set (sc_blocked scope) \<and>
    set (gr_external_send g) = set (pk_external_send_actions pkg) \<inter> set (gr_writes g) \<and>
    set (gr_suppression_required g) = set (pk_suppression_required_actions pkg) \<inter> set (gr_writes g) \<and>
    list_all valid_resource (gr_resources g) \<and>
    (sc_resources scope = Some rs \<longrightarrow> gr_resources g \<noteq> [] \<and> set (gr_resources g) \<subseteq> set rs)"
  proof (cases rule: mount_grants_cases)
    case free
    then show ?thesis using rs ws
      by (cases "sc_resources scope"; simp add: make_grants_def requested_def list_all_iff; auto)
  next
    case (bound bop)
    then have "bo_action bop \<in> set (pk_writes pkg) \<inter> (case sc_writes scope of None \<Rightarrow> UNIV | Some ws \<Rightarrow> set ws)"
      using ws by blast
    moreover have "bo_resource bop \<in> set rs" if "sc_resources scope = Some rs"
      using bound(5) that by (simp add: requested_def)
    ultimately show ?thesis using rs bound by (simp add: make_grants_def)
  qed
  then show "set (gr_reads g) \<subseteq> set (pk_reads pkg) \<inter> (case sc_reads scope of None \<Rightarrow> UNIV | Some rs \<Rightarrow> set rs)"
    and "set (gr_writes g) \<subseteq> set (pk_writes pkg) \<inter> (case sc_writes scope of None \<Rightarrow> UNIV | Some ws \<Rightarrow> set ws)"
    and "set (gr_blocked g) = set (pk_blocked pkg) \<union> set (sc_blocked scope)"
    and "set (gr_external_send g) = set (pk_external_send_actions pkg) \<inter> set (gr_writes g)"
    and "set (gr_suppression_required g) = set (pk_suppression_required_actions pkg) \<inter> set (gr_writes g)"
    and "list_all valid_resource (gr_resources g)"
    and "sc_resources scope = Some rs \<Longrightarrow> gr_resources g \<noteq> [] \<and> set (gr_resources g) \<subseteq> set rs"
    by simp_all
qed

lemma mounter_mount_Inr:
  assumes "mounter_mount sha lax_bool uid nonce now pkg scope policy ttl role execution_id sb = Inr (m, t)"
  shows "1 \<le> ttl \<and> ttl \<le> MAX_TTL_SECONDS" "effective_policy lax_bool pkg policy = Some (tk_policy t)"
    "\<not> mp_persistent_memory_allowed (tk_policy t)" "mount_grants sha pkg scope = Inr (tk_grants t)"
    "mt_grants m = tk_grants t" "mt_policy m = tk_policy t" "mt_id m = tk_mount_id t"
    "tk_mount_id t = ''mnt_'' @ uid 0" "tk_token_id t = ''tok_'' @ uid 2"
    "tk_issued_at t = now" "tk_expires_at t = now + ttl * 1000000"
    "tk_package_ref t = pk_id pkg" "mt_package_ref m = pk_id pkg" "\<not> tk_nonce_consumed t" "tk_nonce t = nonce"
    "tk_ttl_seconds t = ttl" "mt_ttl_seconds m = ttl" "tk_workspace t = sc_workspace scope"
  using assms
  by (auto simp: mounter_mount_def Let_def split: if_splits option.splits sum.splits)

lemma effective_policy_strict:
  assumes "effective_policy lax_bool pkg policy = Some p"
  obtains trusted where "trusted_policy lax_bool (pk_policy_defaults pkg) = Some trusted"
    "mp_mode p = mp_mode trusted"
    "mp_require_human_approval_for_external_send trusted \<Longrightarrow> mp_require_human_approval_for_external_send p"
    "mp_require_suppression_check trusted \<Longrightarrow> mp_require_suppression_check p"
    "mp_persistent_memory_allowed p \<Longrightarrow> mp_persistent_memory_allowed trusted"
  using assms by (auto simp: effective_policy_def Let_def split: option.splits)

text \<open>
  C23. A mount never holds more authority than its package and its request: read and write grants
  lie inside the package's lists and the request's, external sends and suppression checks are
  exactly the package's restricted to the granted writes, everything the package or the caller
  blocks is blocked and denied, every granted resource is a single segment, and the lifetime is
  between one second and ten minutes from issue.
\<close>

theorem mount_bounded:
  assumes "mounter_mount sha lax_bool uid nonce now pkg scope policy ttl role execution_id sb = Inr (m, t)"
  defines "g \<equiv> tk_grants t"
  shows "mt_grants m = g \<and>
    set (gr_reads g) \<subseteq> set (pk_reads pkg) \<inter> (case sc_reads scope of None \<Rightarrow> UNIV | Some rs \<Rightarrow> set rs) \<and>
    set (gr_writes g) \<subseteq> set (pk_writes pkg) \<inter> (case sc_writes scope of None \<Rightarrow> UNIV | Some ws \<Rightarrow> set ws) \<and>
    set (gr_external_send g) = set (pk_external_send_actions pkg) \<inter> set (gr_writes g) \<and>
    set (gr_suppression_required g) = set (pk_suppression_required_actions pkg) \<inter> set (gr_writes g) \<and>
    (\<forall>a. a \<in> set (pk_blocked pkg) \<union> set (sc_blocked scope) \<longrightarrow> \<not> profile_allows g a) \<and>
    (\<forall>rs. sc_resources scope = Some rs \<longrightarrow> gr_resources g \<noteq> [] \<and> set (gr_resources g) \<subseteq> set rs) \<and>
    list_all valid_resource (gr_resources g) \<and>
    \<not> mp_persistent_memory_allowed (tk_policy t) \<and>
    1 \<le> ttl \<and> ttl \<le> 600 \<and> tk_expires_at t = tk_issued_at t + ttl * 1000000"
proof -
  note mm = mounter_mount_Inr [OF assms(1)]
  note mg = mount_grants_Inr [OF mm(4)]
  show ?thesis
    unfolding g_def using mm(1) mg(1,2,7)
    by (simp add: mm mg(6) profile_allows_def MAX_TTL_SECONDS_def flip: mg(3) mg(4) mg(5))
qed

lemma sample_grants: "mount_grants id sample_package sample_scope = Inr (tk_grants sample_token)"
  by code_simp

lemma sample_policy: "effective_policy (\<lambda>_. None) sample_package None = Some default_policy"
  by code_simp

lemma sample_mount:
  "\<exists>m. mounter_mount id (\<lambda>_. None) (\<lambda>i. if i = 0 then ''a'' else if i = 1 then ''b'' else ''c'') ''n'' 0 sample_package
     sample_scope None 60 ''r'' None \<lparr>sb_substrate_id = None, sb_boot_instance_id = None,
       sb_runtime_key_thumbprint = None, sb_state_root = None\<rparr> = Inr (m, sample_token)"
  by (simp add: mounter_mount_def sample_grants sample_policy MAX_TTL_SECONDS_def Let_def)
    (simp add: sample_token_def default_policy_def sample_package_def sample_scope_def or_str_def)

lemma mount_bounded_witness:
  "list_all valid_resource (gr_resources (tk_grants sample_token)) \<and>
   \<not> profile_allows (tk_grants sample_token) ''leads.delete'' \<and>
   \<not> profile_allows (tk_grants sample_token) ''leads.export''"
proof -
  obtain m where "mounter_mount id (\<lambda>_. None) (\<lambda>i. if i = 0 then ''a'' else if i = 1 then ''b'' else ''c'') ''n'' 0
      sample_package sample_scope None 60 ''r'' None \<lparr>sb_substrate_id = None, sb_boot_instance_id = None,
       sb_runtime_key_thumbprint = None, sb_state_root = None\<rparr> = Inr (m, sample_token)"
    using sample_mount by blast
  from mount_bounded [OF this] show ?thesis
    by (simp add: sample_package_def sample_scope_def)
qed

subsection \<open>When the effect runs\<close>

text \<open>
  The effect of a consequence runs only after authorization and start: replacing the effect
  by any other that agrees with it in the states reached after the liveness and profile checks
  passed, the evaluator answered ALLOW for this operation and its intent, and the start claim was
  won, changes neither the binding, nor the state, nor the result. So in every other state the
  effect is not run at all.
\<close>

theorem effect_after_authorization:
  fixes fn fn' :: "(string \<times> json) list \<Rightarrow> 's \<Rightarrow> 's \<times> 'r effect_result"
  assumes agree: "\<And>kw op_id s1 s2 reason rc evaluator claim.
      \<lbrakk>\<not> bd_terminated b; tk_mount_id (bd_token b) \<notin> revoked; clk 0 \<le> tk_expires_at (bd_token b);
       profile_allows (tk_grants (bd_token b)) action;
       profile_covers_resource (tk_grants (bd_token b)) (kw_resource py_str kwargs);
       op_id = or_str operation_id (uid 3);
       cb_evaluator cb = Some evaluator; cb_begin cb = Some claim;
       evaluator action kw op_id (consequence_intent sha py_str (tk_mount_id (bd_token b))
         (tk_execution_id (bd_token b)) action kw) s0 = (s1, Inr (ALLOW, reason, rc));
       claim op_id s1 = (s2, Owned True)\<rbrakk> \<Longrightarrow> fn kw s2 = fn' kw s2"
    and claimed: "cb_begin cb \<noteq> None"
  shows "consequence sha py_str uid clk revoked cb action fn operation_id kwargs b s0 =
         consequence sha py_str uid clk revoked cb action fn' operation_id kwargs b s0"
proof (cases "local_eval sha py_str uid clk revoked action kwargs b")
  case (Pair b1 r)
  show ?thesis
  proof (cases r)
    case (Inr kw)
    with Pair have l: "local_eval sha py_str uid clk revoked action kwargs b = (b1, Inr kw)" by simp
    note ok = local_eval_Inr [OF l]
    show ?thesis
    proof (cases "cb_evaluator cb")
      case (Some evaluator)
      obtain claim where cl: "cb_begin cb = Some claim" using claimed by blast
      obtain s1 ans where ev: "evaluator action kw (or_str operation_id (uid 3))
          (consequence_intent sha py_str (tk_mount_id (bd_token b)) (tk_execution_id (bd_token b)) action kw) s0
          = (s1, ans)" by fastforce
      obtain s2 owned where bg: "claim (or_str operation_id (uid 3)) s1 = (s2, owned)" by fastforce
      have "run_effect sha (uid 2) (clk 3) action (or_str operation_id (uid 3)) cb fn kw b s2 =
            run_effect sha (uid 2) (clk 3) action (or_str operation_id (uid 3)) cb fn' kw b s2"
        if "ans = Inr (ALLOW, reason, rc)" "owned = Owned True" for reason rc
        using agree [OF ok(2-6) refl Some cl] ev bg that by (simp add: run_effect_def)
      then show ?thesis
        using l ok(1) Some cl ev bg
        by (auto simp: consequence_def Let_def split: sum.split prod.split claim.split bool.split)
    qed (use l ok(1) in \<open>simp add: consequence_def\<close>)
  qed (use Pair in \<open>simp add: consequence_def\<close>)
qed

lemma effect_after_authorization_witness:
  "consequence id (\<lambda>_. ''other'') (\<lambda>_. ''e'') (\<lambda>_. 0) {} sample_callbacks ''draft.write''
     (\<lambda>kw s. (0, Returned JNull)) None [(''resource'', JStr ''other'')] (new_binding sample_token) 7 =
   consequence id (\<lambda>_. ''other'') (\<lambda>_. ''e'') (\<lambda>_. 0) {} sample_callbacks ''draft.write''
     (\<lambda>kw s. (Suc s, Returned (JBool True))) None [(''resource'', JStr ''other'')] (new_binding sample_token) 7"
proof (rule effect_after_authorization)
  show "cb_begin sample_callbacks \<noteq> None" by (simp add: sample_callbacks_def)
qed (simp add: new_binding_def sample_token_def profile_covers_resource_def kw_resource_def)

end
