(* ===== verification/Evidence.thy ===== *)
theory Evidence
  imports Mount_Engine
begin

text \<open>
  Signed approval and suppression evidence (\<open>services/mount_evidence.py\<close>) and the HMAC helpers it
  uses (\<open>services/canonical.py\<close>). Base64 is modelled as CPython decodes it, skipping foreign
  characters and stopping at padding. \<open>json.loads\<close> and \<open>datetime.fromisoformat\<close> are the fields
  \<open>ec_loads\<close> and \<open>ec_fromisoformat\<close> of the codec, HMAC-SHA256 is \<open>ec_mac\<close>. The lemmas show that
  decoding inverts encoding, that issued evidence verifies for the mount, action, nonce and
  principal it names and only within its lifetime, and that whatever verifies was signed with the
  key for exactly that binding.
\<close>

subsection \<open>URL-safe Base64\<close>

definition b64_char :: "nat \<Rightarrow> char" where
  "b64_char n = (if n < 26 then char_of (65 + n) else if n < 52 then char_of (71 + n)
     else if n < 62 then char_of (n - 4) else if n = 62 then CHR ''-'' else CHR ''_'')"

text \<open>Decoding accepts both alphabets: the URL-safe characters are translated first.\<close>

definition b64_val :: "char \<Rightarrow> nat option" where
  "b64_val c = (let n = of_char c :: nat in
     if 65 \<le> n \<and> n < 91 then Some (n - 65) else if 97 \<le> n \<and> n < 123 then Some (n - 71)
     else if 48 \<le> n \<and> n < 58 then Some (n + 4)
     else if c = CHR ''-'' \<or> c = CHR ''+'' then Some 62
     else if c = CHR ''_'' \<or> c = CHR ''/'' then Some 63 else None)"

fun b64encode :: "string \<Rightarrow> string" where
  "b64encode [] = []"
| "b64encode [a] = (let x = of_char a :: nat in [b64_char (x div 4), b64_char (x mod 4 * 16)])"
| "b64encode [a, b] = (let x = of_char a :: nat; y = of_char b :: nat in
     [b64_char (x div 4), b64_char (x mod 4 * 16 + y div 16), b64_char (y mod 16 * 4)])"
| "b64encode (a # b # c # r) = (let x = of_char a :: nat; y = of_char b :: nat; z = of_char c :: nat in
     b64_char (x div 4) # b64_char (x mod 4 * 16 + y div 16) # b64_char (y mod 16 * 4 + z div 64) #
     b64_char (z mod 64) # b64encode r)"

text \<open>
  The decoder's loop: position in the quad, bits left over, pad characters seen. \<open>None\<close> is
  \<open>binascii.Error\<close>.
\<close>

fun a2b_base64 :: "nat \<Rightarrow> nat \<Rightarrow> nat \<Rightarrow> string \<Rightarrow> string option" where
  "a2b_base64 quad_pos leftchar pads [] = (if quad_pos = 0 then Some [] else None)"
| "a2b_base64 quad_pos leftchar pads (c # cs) =
    (if c = CHR ''='' then
       (if 2 \<le> quad_pos then
          (if 4 \<le> quad_pos + (pads + 1) then Some [] else a2b_base64 quad_pos leftchar (pads + 1) cs)
        else a2b_base64 quad_pos leftchar pads cs)
     else case b64_val c of
       None \<Rightarrow> a2b_base64 quad_pos leftchar pads cs
     | Some v \<Rightarrow>
         if quad_pos = 0 then a2b_base64 1 v 0 cs
         else if quad_pos = 1 then
           map_option ((#) (char_of (leftchar * 4 + v div 16))) (a2b_base64 2 (v mod 16) 0 cs)
         else if quad_pos = 2 then
           map_option ((#) (char_of (leftchar * 16 + v div 4))) (a2b_base64 3 (v mod 4) 0 cs)
         else map_option ((#) (char_of (leftchar * 64 + v))) (a2b_base64 0 0 0 cs))"

definition b64decode :: "string \<Rightarrow> string option" where
  "b64decode value =
    (if list_all (\<lambda>c. (of_char c :: nat) < 128) value
     then a2b_base64 0 0 0 (value @ replicate ((4 - length value mod 4) mod 4) (CHR ''=''))
     else None)"

subsection \<open>Signatures\<close>

definition sign_payload_hmac :: "(string \<Rightarrow> string \<Rightarrow> string) \<Rightarrow> json \<Rightarrow> string \<Rightarrow> string" where
  "sign_payload_hmac mac payload hmac_key = b64encode (mac hmac_key (canonical_json payload))"

definition verify_signature_hmac :: "(string \<Rightarrow> string \<Rightarrow> string) \<Rightarrow> json \<Rightarrow> string \<Rightarrow> string \<Rightarrow> bool" where
  "verify_signature_hmac mac payload signature hmac_key \<longleftrightarrow>
     sign_payload_hmac mac payload hmac_key = signature"

subsection \<open>Evidence\<close>

datatype evidence_kind = Human_Approval | Suppression_Check

fun kind_value :: "evidence_kind \<Rightarrow> string" where
  "kind_value Human_Approval = ''human_approval''"
| "kind_value Suppression_Check = ''suppression_check''"

definition TOKEN_VERSION :: int where "TOKEN_VERSION = 1"
definition MAX_EVIDENCE_TTL_SECONDS :: int where "MAX_EVIDENCE_TTL_SECONDS = 600"
definition MAX_FUTURE_SKEW_SECONDS :: int where "MAX_FUTURE_SKEW_SECONDS = 30"

record verified_evidence =
  ve_jti :: string
  ve_kind :: evidence_kind
  ve_expires_at :: time

record evidence_config =
  ec_approval_key :: string
  ec_suppression_key :: string
  ec_mac :: "string \<Rightarrow> string \<Rightarrow> string"
  ec_loads :: "string \<Rightarrow> json option"
  ec_fromisoformat :: "string \<Rightarrow> time option"

definition scope_hash :: "(string \<Rightarrow> digest) \<Rightarrow> mount \<Rightarrow> digest" where
  "scope_hash sha m = sha (canonical_json (JObj
     [(''workspace'', JStr (sc_workspace (mt_scope m))), (''project'', JStr (sc_project (mt_scope m)))]))"

definition nonce_hash :: "(string \<Rightarrow> digest) \<Rightarrow> string \<Rightarrow> digest" where
  "nonce_hash sha nonce = sha nonce"

text \<open>\<open>fromisoformat\<close> returns the instant in UTC; \<open>None\<close> is \<open>ValueError\<close>.\<close>

definition parse_time :: "evidence_config \<Rightarrow> json option \<Rightarrow> time option" where
  "parse_time cfg v = (case v of Some (JStr s) \<Rightarrow> ec_fromisoformat cfg s | _ \<Rightarrow> None)"

text \<open>\<open>len\<close> of a text: its bytes that do not continue a UTF-8 sequence.\<close>

definition py_len :: "string \<Rightarrow> nat" where
  "py_len s = length (filter (\<lambda>c. \<not> (128 \<le> (of_char c :: nat) \<and> (of_char c :: nat) < 192)) s)"

text \<open>\<open>token.split(".", 1)\<close>.\<close>

definition split_dot :: "string \<Rightarrow> (string \<times> string) option" where
  "split_dot s = (case dropWhile (\<lambda>c. c \<noteq> CHR ''.'') s of [] \<Rightarrow> None
     | _ # r \<Rightarrow> Some (takeWhile (\<lambda>c. c \<noteq> CHR ''.'') s, r))"

definition expected_binding ::
  "(string \<Rightarrow> digest) \<Rightarrow> string \<Rightarrow> mount \<Rightarrow> string \<Rightarrow> string \<Rightarrow> (string \<times> json) list" where
  "expected_binding sha prin m action nonce =
     [(''principal'', JStr prin), (''mount_id'', JStr (mt_id m)), (''action'', JStr action),
      (''nonce_hash'', JStr (nonce_hash sha nonce)), (''scope_hash'', JStr (scope_hash sha m))]"

text \<open>The checks on a decoded payload; Python's \<open>True == 1\<close>.\<close>

definition check_payload ::
  "(string \<Rightarrow> digest) \<Rightarrow> evidence_config \<Rightarrow> time \<Rightarrow> (string \<times> json) list \<Rightarrow> evidence_kind \<Rightarrow> string \<Rightarrow> mount \<Rightarrow>
   string \<Rightarrow> string \<Rightarrow> string + verified_evidence" where
  "check_payload sha cfg now payload kind prin m action nonce =
    (if (map_of payload ''v'' \<noteq> Some (JNum TOKEN_VERSION) \<and> map_of payload ''v'' \<noteq> Some (JBool True)) \<or>
        map_of payload ''kind'' \<noteq> Some (JStr (kind_value kind)) then Inl ''evidence_type_invalid''
     else if list_ex (\<lambda>(field, v). map_of payload field \<noteq> Some v) (expected_binding sha prin m action nonce)
       then Inl ''evidence_binding_mismatch''
     else case map_of payload ''jti'' of
       Some (JStr jti) \<Rightarrow>
         if jti = [] \<or> py_len jti > 255 then Inl ''evidence_jti_invalid''
         else (case (parse_time cfg (map_of payload ''iat''), parse_time cfg (map_of payload ''exp'')) of
             (Some issued_at, Some expires_at) \<Rightarrow>
               if issued_at > now + MAX_FUTURE_SKEW_SECONDS * 1000000 then Inl ''evidence_not_yet_valid''
               else if expires_at \<le> now then Inl ''evidence_expired''
               else if expires_at \<le> issued_at then Inl ''evidence_time_invalid''
               else if expires_at - issued_at > MAX_EVIDENCE_TTL_SECONDS * 1000000 then Inl ''evidence_ttl_excessive''
               else Inr \<lparr>ve_jti = jti, ve_kind = kind, ve_expires_at = expires_at\<rparr>
           | _ \<Rightarrow> Inl ''evidence_time_invalid'')
     | _ \<Rightarrow> Inl ''evidence_jti_invalid'')"

definition evidence_key :: "evidence_config \<Rightarrow> evidence_kind \<Rightarrow> string" where
  "evidence_key cfg kind = (if kind = Human_Approval then ec_approval_key cfg else ec_suppression_key cfg)"

definition verify_evidence ::
  "(string \<Rightarrow> digest) \<Rightarrow> evidence_config \<Rightarrow> time \<Rightarrow> string option \<Rightarrow> evidence_kind \<Rightarrow> string \<Rightarrow> mount \<Rightarrow>
   string \<Rightarrow> string \<Rightarrow> string + verified_evidence" where
  "verify_evidence sha cfg now tok kind prin m action nonce =
    (let key = evidence_key cfg kind
     in if key = [] then Inl ''verification_key_unavailable''
        else if \<not> truthy tok then Inl ''evidence_missing''
        else case split_dot (the tok) of
          None \<Rightarrow> Inl ''evidence_malformed''
        | Some (encoded_payload, signature) \<Rightarrow>
            (case b64decode encoded_payload of
               None \<Rightarrow> Inl ''evidence_malformed''
             | Some payload_bytes \<Rightarrow>
                 (case ec_loads cfg payload_bytes of
                    Some (JObj payload) \<Rightarrow>
                      if canonical_json (JObj payload) \<noteq> payload_bytes then Inl ''evidence_not_canonical''
                      else if \<not> verify_signature_hmac (ec_mac cfg) (JObj payload) signature key then
                        Inl ''evidence_signature_invalid''
                      else check_payload sha cfg now payload kind prin m action nonce
                  | _ \<Rightarrow> Inl ''evidence_malformed'')))"

definition evidence_payload ::
  "(string \<Rightarrow> digest) \<Rightarrow> evidence_kind \<Rightarrow> string \<Rightarrow> string \<Rightarrow> mount \<Rightarrow> string \<Rightarrow> string \<Rightarrow> time \<Rightarrow> time \<Rightarrow> (string \<times> json) list" where
  "evidence_payload sha kind jti prin m action nonce now expires =
     [(''v'', JNum TOKEN_VERSION), (''kind'', JStr (kind_value kind)), (''jti'', JStr jti)] @
     expected_binding sha prin m action nonce @
     [(''iat'', JStr (isoformat now)), (''exp'', JStr (isoformat expires))]"

definition issue_bound_mount_evidence ::
  "(string \<Rightarrow> digest) \<Rightarrow> (string \<Rightarrow> string \<Rightarrow> string) \<Rightarrow> string \<Rightarrow> evidence_kind \<Rightarrow> string \<Rightarrow> string \<Rightarrow> mount \<Rightarrow>
   string \<Rightarrow> string \<Rightarrow> int \<Rightarrow> string option \<Rightarrow> time \<Rightarrow> string + string" where
  "issue_bound_mount_evidence sha mac u kind signing_key prin m action nonce ttl_seconds jti now =
    (if signing_key = [] then Inl ''signing_key is required''
     else if ttl_seconds < 1 \<or> ttl_seconds > MAX_EVIDENCE_TTL_SECONDS then Inl ''invalid evidence ttl''
     else
       let payload = JObj (evidence_payload sha kind (or_str jti (''ev_'' @ u)) prin m action nonce now
             (now + ttl_seconds * 1000000))
       in Inr (b64encode (canonical_json payload) @ ''.'' @ sign_payload_hmac mac payload signing_key))"

subsection \<open>Base64 round trip\<close>

lemma b64_val_char [simp]: "n < 64 \<Longrightarrow> b64_val (b64_char n) = Some n"
  by (auto simp: b64_val_def b64_char_def Let_def)

lemma b64_char_not_pad [simp]: "n < 64 \<Longrightarrow> b64_char n \<noteq> CHR ''=''"
proof
  assume "n < 64" "b64_char n = CHR ''=''"
  then have "b64_val (CHR ''='') = Some n" by (metis b64_val_char)
  then show False by (simp add: b64_val_def)
qed

lemma byte_lt [simp]: "(of_char c :: nat) < 256"
  by (rule nat_of_char_less_256)

lemma join_bits [simp]:
  fixes h l k :: nat
  assumes "l < k"
  shows "(h * k + l) div k = h" "(h * k + l) mod k = l"
  using assms by simp_all

lemma byte_parts [simp]:
  fixes x :: nat
  shows "x div 4 * 4 + x mod 4 = x" "x div 16 * 16 + x mod 16 = x" "x div 64 * 64 + x mod 64 = x"
  by simp_all

lemma join_small: "h < m \<Longrightarrow> l < k \<Longrightarrow> h * k + l < m * (k :: nat)"
proof -
  assume "h < m" "l < k"
  then have "h * k + l < (h + 1) * k" by simp
  also have "\<dots> \<le> m * k" using \<open>h < m\<close> by (intro mult_le_mono1) simp
  finally show ?thesis .
qed

lemma byte_small [simp]:
  fixes x :: nat
  assumes "x < 256"
  shows "x div 4 < 64" "x div 16 < 16" "x div 64 < 4" "x mod 4 * 16 < 64" "x mod 16 * 4 < 64"
  using assms join_small [of "x mod 4" 4 0 16] join_small [of "x mod 16" 16 0 4]
  by (simp_all add: div_less_iff_less_mult)

lemma bytes_small [simp]:
  fixes x y :: nat
  assumes "y < 256"
  shows "x mod 4 * 16 + y div 16 < 64" "x mod 16 * 4 + y div 64 < 64"
  using join_small [of "x mod 4" 4 "y div 16" 16] join_small [of "x mod 16" 16 "y div 64" 4] assms
  by simp_all

lemma a2b_value [simp]:
  assumes "n < 64"
  shows "a2b_base64 0 l p (b64_char n # cs) = a2b_base64 1 n 0 cs"
    "a2b_base64 (Suc 0) l p (b64_char n # cs) = map_option ((#) (char_of (l * 4 + n div 16))) (a2b_base64 2 (n mod 16) 0 cs)"
    "a2b_base64 2 l p (b64_char n # cs) = map_option ((#) (char_of (l * 16 + n div 4))) (a2b_base64 3 (n mod 4) 0 cs)"
    "a2b_base64 3 l p (b64_char n # cs) = map_option ((#) (char_of (l * 64 + n))) (a2b_base64 0 0 0 cs)"
  using assms by simp_all

declare a2b_base64.simps(2) [simp del]

lemma a2b_pads [simp]:
  "a2b_base64 2 l 0 ''=='' = Some []" "a2b_base64 3 l 0 ''='' = Some []"
  by (simp_all add: a2b_base64.simps(2))

lemma replicate_two: "replicate 2 x = [x, x]"
  by (simp add: numeral_2_eq_2)

lemma b64encode_length:
  "length (b64encode (a # b # c # r)) mod 4 = length (b64encode r) mod 4"
  by (simp add: Let_def)

lemma a2b_encode:
  "a2b_base64 0 0 0 (b64encode v @ replicate ((4 - length (b64encode v) mod 4) mod 4) (CHR ''='')) = Some v"
proof (induction v rule: b64encode.induct)
  case (2 a)
  show ?case by (simp add: Let_def replicate_two)
next
  case (3 a b)
  show ?case by (simp add: Let_def)
next
  case (4 a b c r)
  have "length (b64encode (a # b # c # r)) mod 4 = length (b64encode r) mod 4" by (rule b64encode_length)
  with 4 show ?case by (simp add: Let_def)
qed simp

lemma b64_char_ascii: "n < 64 \<Longrightarrow> (of_char (b64_char n) :: nat) < 128 \<and> b64_char n \<noteq> CHR ''.''"
proof -
  assume n: "n < 64"
  have "b64_val (CHR ''.'') = None" by (simp add: b64_val_def)
  then have "b64_char n \<noteq> CHR ''.''" using b64_val_char [OF n] by auto
  moreover have "(of_char (b64_char n) :: nat) < 128" using n by (auto simp: b64_char_def)
  ultimately show ?thesis by blast
qed

lemma b64encode_chars: "c \<in> set (b64encode v) \<Longrightarrow> (of_char c :: nat) < 128 \<and> c \<noteq> CHR ''.''"
  by (induction v rule: b64encode.induct) (auto simp: Let_def b64_char_ascii)

lemma b64_roundtrip [simp]: "b64decode (b64encode v) = Some v"
  using a2b_encode [of v] b64encode_chars [of _ v] by (simp add: b64decode_def list_all_iff)

subsection \<open>Issued evidence verifies\<close>

lemma sort_keys_idem [simp]: "sort_keys (sort_keys p) = sort_keys p"
proof (induction p rule: sort_keys.induct)
  case (2 kvs)
  have "map (\<lambda>(k, v). (k, sort_keys v)) (sort_key fst (map (\<lambda>(k, v). (k, sort_keys v)) kvs)) =
        sort_key fst (map (\<lambda>(k, v). (k, sort_keys v)) kvs)"
    using 2 by (intro map_idI) (auto simp: case_prod_beta)
  then show ?case by (simp add: sorted_sort_key sort_key_id_if_sorted del: map_map)
qed auto

lemma canonical_sort_keys [simp]: "canonical_json (sort_keys p) = canonical_json p"
  by (simp add: canonical_json_def)

lemma split_dot_join: "CHR ''.'' \<notin> set a \<Longrightarrow> split_dot (a @ ''.'' @ b) = Some (a, b)"
  by (induction a) (auto simp: split_dot_def split: list.splits)

lemma map_of_sorted_payload:
  "sort_keys (JObj pl) = JObj pl' \<Longrightarrow> map_of pl' k = map_option sort_keys (map_of pl k)"
  by (metis dict_of_def dict_of_eq json.inject(5) map_of_sort_key sort_keys.simps(2))

lemma evidence_payload_fields [simp]:
  assumes "sort_keys (JObj (evidence_payload sha kind jti prin m action nonce now exp)) = JObj pl"
  shows "map_of pl ''v'' = Some (JNum TOKEN_VERSION)" "map_of pl ''kind'' = Some (JStr (kind_value kind))"
    "map_of pl ''jti'' = Some (JStr jti)" "map_of pl ''iat'' = Some (JStr (isoformat now))"
    "map_of pl ''exp'' = Some (JStr (isoformat exp))"
    "list_all (\<lambda>(field, v). map_of pl field = Some v) (expected_binding sha prin m action nonce)"
  by (simp_all add: map_of_sorted_payload [OF assms] evidence_payload_def expected_binding_def)

text \<open>What the verifier answers to an issued token: its decision on the payload that was signed, for the issued kind.\<close>

lemma issued_parts:
  assumes issued: "issue_bound_mount_evidence sha (ec_mac cfg) u kind (evidence_key cfg kind) prin m action nonce ttl jti iat = Inr tok"
    and payload: "pl = evidence_payload sha kind (or_str jti (''ev_'' @ u)) prin m action nonce iat (iat + ttl * 1000000)"
    and loads: "ec_loads cfg (canonical_json (JObj pl)) = Some (sort_keys (JObj pl))"
  obtains pl' where "sort_keys (JObj pl) = JObj pl'" "1 \<le> ttl" "ttl \<le> MAX_EVIDENCE_TTL_SECONDS"
    "\<And>prin' m' action' nonce'. verify_evidence sha cfg now (Some tok) kind prin' m' action' nonce' =
       check_payload sha cfg now pl' kind prin' m' action' nonce'"
    "\<And>kind' prin' m' action' nonce' e. verify_evidence sha cfg now (Some tok) kind' prin' m' action' nonce' = Inr e \<Longrightarrow>
       check_payload sha cfg now pl' kind' prin' m' action' nonce' = Inr e"
proof -
  let ?key = "evidence_key cfg kind"
  obtain pl' where pl': "sort_keys (JObj pl) = JObj pl'" by simp
  have key: "?key \<noteq> []" and ttl: "1 \<le> ttl" "ttl \<le> MAX_EVIDENCE_TTL_SECONDS"
    and tok: "tok = b64encode (canonical_json (JObj pl)) @ ''.'' @ sign_payload_hmac (ec_mac cfg) (JObj pl) ?key"
    using issued payload by (auto simp: issue_bound_mount_evidence_def Let_def split: if_splits)
  have split: "split_dot tok = Some (b64encode (canonical_json (JObj pl)), sign_payload_hmac (ec_mac cfg) (JObj pl) ?key)"
    unfolding tok using b64encode_chars by (intro split_dot_join) blast
  have canon: "canonical_json (JObj pl') = canonical_json (JObj pl)"
    by (metis pl' canonical_sort_keys)
  have sig: "verify_signature_hmac (ec_mac cfg) (JObj pl') (sign_payload_hmac (ec_mac cfg) (JObj pl) ?key) ?key"
    by (simp add: verify_signature_hmac_def sign_payload_hmac_def canon)
  have truthy: "truthy (Some tok)" by (simp add: tok)
  show thesis
    by (rule that [OF pl' ttl])
      (use key split loads pl' sig canon truthy in \<open>auto simp: verify_evidence_def Let_def split: if_splits\<close>)
qed

lemma check_issued:
  assumes pl: "sort_keys (JObj (evidence_payload sha kind j prin m action nonce iat expires)) = JObj pl'"
    and iso: "ec_fromisoformat cfg (isoformat iat) = Some iat" "ec_fromisoformat cfg (isoformat expires) = Some expires"
    and ttl: "iat < expires" "expires - iat \<le> MAX_EVIDENCE_TTL_SECONDS * 1000000" and j: "j \<noteq> []" "py_len j \<le> 255"
  shows "check_payload sha cfg now pl' kind' prin' m' action' nonce' = Inr e \<longleftrightarrow>
    kind' = kind \<and> expected_binding sha prin' m' action' nonce' = expected_binding sha prin m action nonce \<and>
    iat \<le> now + 30000000 \<and> now < expires \<and> e = \<lparr>ve_jti = j, ve_kind = kind, ve_expires_at = expires\<rparr>"
proof -
  note fields = evidence_payload_fields [OF pl]
  have bind: "list_ex (\<lambda>(field, v). map_of pl' field \<noteq> Some v) (expected_binding sha prin' m' action' nonce') \<longleftrightarrow>
      expected_binding sha prin' m' action' nonce' \<noteq> expected_binding sha prin m action nonce"
    using fields(6) by (simp add: expected_binding_def) metis
  have kind: "kind_value kind = kind_value kind' \<longleftrightarrow> kind' = kind" by (cases kind; cases kind') simp_all
  show ?thesis
  proof (cases "kind' = kind \<and> expected_binding sha prin' m' action' nonce' = expected_binding sha prin m action nonce")
    case True
    then show ?thesis
      using bind iso ttl j
      by (auto simp: check_payload_def fields(1-5) parse_time_def MAX_FUTURE_SKEW_SECONDS_def)
  next
    case False
    then show ?thesis using bind kind by (auto simp: check_payload_def fields(2))
  qed
qed

lemma issue_then_verify:
  assumes issued: "issue_bound_mount_evidence sha (ec_mac cfg) u kind (evidence_key cfg kind) prin m action nonce ttl jti iat = Inr tok"
    and payload: "pl = evidence_payload sha kind (or_str jti (''ev_'' @ u)) prin m action nonce iat (iat + ttl * 1000000)"
    and loads: "ec_loads cfg (canonical_json (JObj pl)) = Some (sort_keys (JObj pl))"
    and iso: "ec_fromisoformat cfg (isoformat iat) = Some iat"
      "ec_fromisoformat cfg (isoformat (iat + ttl * 1000000)) = Some (iat + ttl * 1000000)"
    and jti: "py_len (or_str jti (''ev_'' @ u)) \<le> 255"
  shows "verify_evidence sha cfg now (Some tok) kind' prin' m' action' nonce' = Inr e \<longleftrightarrow>
    kind' = kind \<and> expected_binding sha prin' m' action' nonce' = expected_binding sha prin m action nonce \<and>
    iat \<le> now + 30000000 \<and> now < iat + ttl * 1000000 \<and>
    e = \<lparr>ve_jti = or_str jti (''ev_'' @ u), ve_kind = kind, ve_expires_at = iat + ttl * 1000000\<rparr>"
proof -
  have j: "or_str jti (''ev_'' @ u) \<noteq> []" by (simp add: or_str_def split: option.split)
  obtain pl' where p: "sort_keys (JObj pl) = JObj pl'" "1 \<le> ttl" "ttl \<le> MAX_EVIDENCE_TTL_SECONDS"
    "\<And>prin' m' action' nonce'. verify_evidence sha cfg now (Some tok) kind prin' m' action' nonce' =
       check_payload sha cfg now pl' kind prin' m' action' nonce'"
    "\<And>kind' prin' m' action' nonce' e. verify_evidence sha cfg now (Some tok) kind' prin' m' action' nonce' = Inr e \<Longrightarrow>
       check_payload sha cfg now pl' kind' prin' m' action' nonce' = Inr e"
    by (rule issued_parts [OF issued payload loads, of now]) blast
  have c: "check_payload sha cfg now pl' kind' prin' m' action' nonce' = Inr e \<longleftrightarrow>
    kind' = kind \<and> expected_binding sha prin' m' action' nonce' = expected_binding sha prin m action nonce \<and>
    iat \<le> now + 30000000 \<and> now < iat + ttl * 1000000 \<and>
    e = \<lparr>ve_jti = or_str jti (''ev_'' @ u), ve_kind = kind, ve_expires_at = iat + ttl * 1000000\<rparr>"
    by (rule check_issued [OF p(1) [unfolded payload] iso _ _ j jti]) (use p(2,3) in simp_all)
  show ?thesis using c p(4,5) by metis
qed

text \<open>
  C36. Evidence round trip, both ways: the verifier accepts what \<open>issue_bound_mount_evidence\<close> issued exactly
  for the issued kind, principal, mount identifier, action and hashes of nonce and scope, from thirty
  seconds before issue until it expires, and then answers the issued identifier and expiry. For any
  other kind, binding or moment it refuses.
\<close>

theorem issued_evidence_verifies:
  assumes issued: "issue_bound_mount_evidence sha (ec_mac cfg) u kind (evidence_key cfg kind) prin m action nonce ttl jti iat = Inr tok"
    and payload: "pl = evidence_payload sha kind (or_str jti (''ev_'' @ u)) prin m action nonce iat (iat + ttl * 1000000)"
    and loads: "ec_loads cfg (canonical_json (JObj pl)) = Some (sort_keys (JObj pl))"
    and iso: "ec_fromisoformat cfg (isoformat iat) = Some iat"
      "ec_fromisoformat cfg (isoformat (iat + ttl * 1000000)) = Some (iat + ttl * 1000000)"
    and jti: "py_len (or_str jti (''ev_'' @ u)) \<le> 255"
  shows "verify_evidence sha cfg now (Some tok) kind' prin' m' action' nonce' = Inr e \<longleftrightarrow>
    kind' = kind \<and> prin' = prin \<and> mt_id m' = mt_id m \<and> action' = action \<and> nonce_hash sha nonce' = nonce_hash sha nonce \<and>
    scope_hash sha m' = scope_hash sha m \<and> iat \<le> now + 30000000 \<and> now < iat + ttl * 1000000 \<and>
    e = \<lparr>ve_jti = or_str jti (''ev_'' @ u), ve_kind = kind, ve_expires_at = iat + ttl * 1000000\<rparr>"
  unfolding issue_then_verify [OF assms] by (auto simp: expected_binding_def)

lemma check_payload_Inr:
  assumes "check_payload sha cfg now pl kind prin m action nonce = Inr e"
  obtains iat exp where "map_of pl ''kind'' = Some (JStr (kind_value kind))"
    "list_all (\<lambda>(field, v). map_of pl field = Some v) (expected_binding sha prin m action nonce)"
    "map_of pl ''jti'' = Some (JStr (ve_jti e))" "ve_kind e = kind" "ve_expires_at e = exp"
    "parse_time cfg (map_of pl ''iat'') = Some iat" "parse_time cfg (map_of pl ''exp'') = Some exp"
    "iat \<le> now + 30000000" "now < exp" "iat < exp" "exp - iat \<le> 600000000"
proof -
  have k: "map_of pl ''kind'' = Some (JStr (kind_value kind))"
    and b: "\<not> list_ex (\<lambda>(field, v). map_of pl field \<noteq> Some v) (expected_binding sha prin m action nonce)"
    using assms unfolding check_payload_def by (simp_all only: split: if_split_asm) auto
  obtain jti where j: "map_of pl ''jti'' = Some (JStr jti)"
    using assms unfolding check_payload_def by (simp only: split: if_split_asm) (auto split: option.splits json.splits)
  obtain iat exp where t: "parse_time cfg (map_of pl ''iat'') = Some iat" "parse_time cfg (map_of pl ''exp'') = Some exp"
    using assms j unfolding check_payload_def by (simp only: split: if_split_asm) (auto split: option.splits if_split_asm)
  have "ve_jti e = jti \<and> ve_kind e = kind \<and> ve_expires_at e = exp \<and> iat \<le> now + 30000000 \<and> now < exp \<and> iat < exp \<and>
      exp - iat \<le> 600000000"
    using assms j t by (auto simp: check_payload_def MAX_FUTURE_SKEW_SECONDS_def MAX_EVIDENCE_TTL_SECONDS_def split: if_split_asm)
  with k b j t show thesis by (intro that [of exp iat]) (auto simp: list_ex_iff list_all_iff)
qed

lemma split_dot_Some: "split_dot s = Some (a, b) \<Longrightarrow> s = a @ ''.'' @ b"
  by (auto simp: split_dot_def dropWhile_eq_Cons_conv split: list.splits)

lemma verify_evidence_Inr:
  assumes "verify_evidence sha cfg now tok kind prin m action nonce = Inr e"
  obtains encoded pl where "evidence_key cfg kind \<noteq> []"
    "tok = Some (encoded @ ''.'' @ sign_payload_hmac (ec_mac cfg) (JObj pl) (evidence_key cfg kind))"
    "check_payload sha cfg now pl kind prin m action nonce = Inr e"
proof -
  let ?key = "evidence_key cfg kind"
  have k: "?key \<noteq> []" "truthy tok" using assms by (auto simp: verify_evidence_def Let_def split: if_split_asm)
  obtain encoded sig where sp: "split_dot (the tok) = Some (encoded, sig)"
    using assms k by (cases "split_dot (the tok)") (auto simp: verify_evidence_def)
  obtain pb where pb: "b64decode encoded = Some pb"
    using assms k sp by (cases "b64decode encoded") (auto simp: verify_evidence_def)
  obtain pl where pl: "ec_loads cfg pb = Some (JObj pl)"
    using assms k sp pb by (auto simp: verify_evidence_def split: option.splits json.splits)
  have ok: "verify_signature_hmac (ec_mac cfg) (JObj pl) sig ?key"
      "check_payload sha cfg now pl kind prin m action nonce = Inr e"
    using assms k sp pb pl by (auto simp: verify_evidence_def split: if_split_asm)
  moreover have "tok = Some (encoded @ ''.'' @ sig)" using k(2) split_dot_Some [OF sp] by (cases tok) auto
  ultimately show thesis using k that [of encoded pl] by (simp add: verify_signature_hmac_def)
qed

text \<open>
  C27. Nothing but evidence signed for this very action verifies: accepted evidence carries a MAC
  under the key of its kind over a payload naming exactly this kind, principal, mount, action,
  nonce and scope, and its lifetime is at most ten minutes and not over.
\<close>

theorem verified_evidence_bound:
  assumes "verify_evidence sha cfg now tok kind prin m action nonce = Inr e"
  shows "\<exists>encoded pl iat exp. tok = Some (encoded @ ''.'' @ sign_payload_hmac (ec_mac cfg) (JObj pl) (evidence_key cfg kind)) \<and>
    evidence_key cfg kind \<noteq> [] \<and> map_of pl ''kind'' = Some (JStr (kind_value kind)) \<and>
    map_of pl ''principal'' = Some (JStr prin) \<and> map_of pl ''mount_id'' = Some (JStr (mt_id m)) \<and>
    map_of pl ''action'' = Some (JStr action) \<and> map_of pl ''nonce_hash'' = Some (JStr (nonce_hash sha nonce)) \<and>
    map_of pl ''scope_hash'' = Some (JStr (scope_hash sha m)) \<and> map_of pl ''jti'' = Some (JStr (ve_jti e)) \<and>
    ve_kind e = kind \<and> parse_time cfg (map_of pl ''iat'') = Some iat \<and> parse_time cfg (map_of pl ''exp'') = Some exp \<and>
    ve_expires_at e = exp \<and> iat \<le> now + 30000000 \<and> now < exp \<and> iat < exp \<and> exp - iat \<le> 600000000"
  using assms
proof (rule verify_evidence_Inr)
  fix encoded pl
  assume v: "evidence_key cfg kind \<noteq> []"
    "tok = Some (encoded @ ''.'' @ sign_payload_hmac (ec_mac cfg) (JObj pl) (evidence_key cfg kind))"
    "check_payload sha cfg now pl kind prin m action nonce = Inr e"
  from v(3) obtain iat exp where c: "map_of pl ''kind'' = Some (JStr (kind_value kind))"
    "list_all (\<lambda>(field, v). map_of pl field = Some v) (expected_binding sha prin m action nonce)"
    "map_of pl ''jti'' = Some (JStr (ve_jti e))" "ve_kind e = kind" "ve_expires_at e = exp"
    "parse_time cfg (map_of pl ''iat'') = Some iat" "parse_time cfg (map_of pl ''exp'') = Some exp"
    "iat \<le> now + 30000000" "now < exp" "iat < exp" "exp - iat \<le> 600000000"
    by (rule check_payload_Inr)
  from c v show ?thesis
    by (intro exI [of _ encoded] exI [of _ pl] exI [of _ iat] exI [of _ exp]) (simp add: expected_binding_def)
qed

definition sample_mount_value :: mount where
  "sample_mount_value = \<lparr>mt_id = ''mnt_a'', mt_package_ref = ''lead@v1'', mt_role = ''r'', mt_scope = sample_scope,
     mt_ttl_seconds = 60, mt_grants = tk_grants sample_token, mt_policy = default_policy, mt_substrate_id = None,
     mt_boot_instance_id = None, mt_runtime_key_thumbprint = None, mt_state_root = None, mt_incarnation = 1,
     mt_previous_history_head = None, mt_history_head = None, mt_decision_hash = None, mt_handover_reason = None\<rparr>"

definition sample_payload :: "(string \<times> json) list" where
  "sample_payload = evidence_payload id Human_Approval ''ev_1'' ''alice'' sample_mount_value ''mail.send'' ''n'' 0 60000000"

definition sample_evidence_config :: evidence_config where
  "sample_evidence_config = \<lparr>ec_approval_key = ''k'', ec_suppression_key = [], ec_mac = (\<lambda>k m. k @ m),
     ec_loads = (\<lambda>s. if s = canonical_json (JObj sample_payload) then Some (sort_keys (JObj sample_payload)) else None),
     ec_fromisoformat = (\<lambda>s. if s = isoformat 0 then Some 0 else if s = isoformat 60000000 then Some 60000000 else None)\<rparr>"

definition sample_evidence :: string where
  "sample_evidence = b64encode (canonical_json (JObj sample_payload)) @ ''.'' @
     sign_payload_hmac (\<lambda>k m. k @ m) (JObj sample_payload) ''k''"

lemma sample_iso: "isoformat 60000000 \<noteq> isoformat 0"
  by code_simp

lemma sample_issue:
  "issue_bound_mount_evidence id (ec_mac sample_evidence_config) ''x'' Human_Approval
      (evidence_key sample_evidence_config Human_Approval) ''alice'' sample_mount_value ''mail.send'' ''n'' 60 (Some ''ev_1'') 0
      = Inr sample_evidence"
  by (simp add: issue_bound_mount_evidence_def evidence_key_def sample_evidence_config_def sample_evidence_def
        sample_payload_def MAX_EVIDENCE_TTL_SECONDS_def Let_def)

lemma sample_codec:
  "ec_loads sample_evidence_config (canonical_json (JObj sample_payload)) = Some (sort_keys (JObj sample_payload))"
  "ec_fromisoformat sample_evidence_config (isoformat 0) = Some 0"
  "ec_fromisoformat sample_evidence_config (isoformat 60000000) = Some 60000000"
  by (simp_all add: sample_evidence_config_def sample_iso)

lemma sample_accepted:
  "verify_evidence id sample_evidence_config 5000000 (Some sample_evidence) Human_Approval ''alice'' sample_mount_value
     ''mail.send'' ''n'' = Inr \<lparr>ve_jti = ''ev_1'', ve_kind = Human_Approval, ve_expires_at = 60000000\<rparr>"
  using issue_then_verify [OF sample_issue refl, of 5000000] sample_codec by (simp add: sample_payload_def py_len_def)

theorem issued_evidence_verifies_witness:
  "\<forall>e. verify_evidence id sample_evidence_config 5000000 (Some sample_evidence) Human_Approval ''alice'' sample_mount_value
     ''mail.send'' ''n'' = Inr \<lparr>ve_jti = ''ev_1'', ve_kind = Human_Approval, ve_expires_at = 60000000\<rparr> \<and>
   verify_evidence id sample_evidence_config 5000000 (Some sample_evidence) Human_Approval ''mallory'' sample_mount_value
     ''mail.send'' ''n'' \<noteq> Inr e \<and>
   verify_evidence id sample_evidence_config 60000000 (Some sample_evidence) Human_Approval ''alice'' sample_mount_value
     ''mail.send'' ''n'' \<noteq> Inr e"
  using issued_evidence_verifies [OF sample_issue refl] sample_codec
  by (simp add: sample_payload_def py_len_def)

lemma verified_evidence_bound_witness:
  "\<exists>encoded pl iat exp. sample_evidence = encoded @ ''.'' @ sign_payload_hmac (\<lambda>k m. k @ m) (JObj pl) ''k'' \<and>
     map_of pl ''action'' = Some (JStr ''mail.send'') \<and>
     parse_time sample_evidence_config (map_of pl ''iat'') = Some iat \<and>
     parse_time sample_evidence_config (map_of pl ''exp'') = Some exp \<and> iat < exp"
proof -
  have v: "verify_evidence id sample_evidence_config 5000000 (Some sample_evidence) Human_Approval ''alice'' sample_mount_value
     ''mail.send'' ''n'' = Inr \<lparr>ve_jti = ''ev_1'', ve_kind = Human_Approval, ve_expires_at = 60000000\<rparr>"
    by (rule sample_accepted)
  have key: "evidence_key sample_evidence_config Human_Approval = ''k''" "ec_mac sample_evidence_config = (\<lambda>k m. k @ m)"
    by (simp_all add: evidence_key_def sample_evidence_config_def)
  from verified_evidence_bound [OF v] show ?thesis unfolding key by auto
qed

end
