(* ===== verification/Biscuit.thy ===== *)
theory Biscuit
  imports Lease Permits
begin

text \<open>
  Biscuit capability tokens (\<open>security/biscuit.py\<close>): the Datalog program a mint writes, the facts
  read back from a verified token, and the trusted revocation state with the checks made against
  it. Signing, parsing and Datalog evaluation belong to the \<open>biscuit_auth\<close> package: \<open>build\<close> turns a
  program into a token (\<open>None\<close> when it rejects the program), \<open>parse\<close> gives the facts a signature-verified token answers the module's
  queries with (\<open>None\<close> for any exception), \<open>authorize\<close> is the outcome of the authorizer, and
  \<open>strptime\<close> reads the expiry text. The lemmas show what is extracted from a minted token, that
  resource and envelope bounds cannot escape their string literal while other fields can, and that
  revocation is monotone.
\<close>

subsection \<open>Terms\<close>

definition resource_term_char :: "char \<Rightarrow> bool" where
  "resource_term_char c \<longleftrightarrow> is_digit c \<or> (65 \<le> (of_char c :: nat) \<and> (of_char c :: nat) < 91) \<or>
     (97 \<le> (of_char c :: nat) \<and> (of_char c :: nat) < 123) \<or> c \<in> set ''._:@/-''"

definition resource_term :: "string \<Rightarrow> bool" where
  "resource_term s \<longleftrightarrow> (let body = (if ends_with s ''/*'' then butlast (butlast s) else s)
     in 1 \<le> length body \<and> length body \<le> 256 \<and> list_all resource_term_char body)"

definition envelope_term :: "string \<Rightarrow> bool" where
  "envelope_term s \<longleftrightarrow> length s = 64 \<and>
     list_all (\<lambda>c. is_digit c \<or> (97 \<le> (of_char c :: nat) \<and> (of_char c :: nat) < 103)) s"

text \<open>\<open>f'{fact}("{value}");'\<close>.\<close>

definition fact_code :: "string \<Rightarrow> string \<Rightarrow> string" where
  "fact_code pred v = pred @ [CHR ''('', CHR 0x22] @ v @ [CHR 0x22] @ '');''"

text \<open>\<open>None\<close> is the \<open>ValueError\<close> of a term outside its pattern.\<close>

fun resource_bound_code :: "string list \<Rightarrow> string \<Rightarrow> string \<Rightarrow> string list option" where
  "resource_bound_code [] pred ppred = Some []"
| "resource_bound_code (res # ress) pred ppred =
    (if \<not> resource_term res then None
     else map_option ((#) (if ends_with res ''/*'' then fact_code ppred (butlast res) else fact_code pred res))
            (resource_bound_code ress pred ppred))"

definition checked_envelope :: "string \<Rightarrow> string option" where
  "checked_envelope d = (if envelope_term d then Some d else None)"

subsection \<open>Minting\<close>

text \<open>\<open>strftime('%Y-%m-%dT%H:%M:%SZ')\<close>.\<close>

definition utc_stamp :: "time \<Rightarrow> string" where
  "utc_stamp t = takeWhile (\<lambda>c. c \<noteq> CHR ''+'') (isoformat (whole_seconds t)) @ ''Z''"

record mint_request =
  mq_caller_spiffe_id :: string
  mq_executor_spiffe_id :: "string option"
  mq_capability_id :: string
  mq_reads :: "string list"
  mq_writes :: "string list"
  mq_execution_id :: string
  mq_ttl_seconds :: int
  mq_resources :: "string list"
  mq_revocation_scope :: string
  mq_revocation_epoch :: int
  mq_envelope_digest :: "string option"

definition quoted :: "string \<Rightarrow> string" where
  "quoted s = CHR 0x22 # s @ [CHR 0x22]"

definition resource_check :: string where
  "resource_check = ''check if current_action($act, $res), allowed_action($act), allowed_resource($res)'' @
     '' or current_action($act, $res), allowed_action($act), allowed_resource_prefix($p), $res.starts_with($p)'' @
     '' or current_action('' @ quoted ''terminate'' @ '', '' @ quoted [] @ '');''"

definition action_check :: string where
  "action_check = ''check if current_action($act, $res), allowed_action($act) or current_action('' @
     quoted ''terminate'' @ '', '' @ quoted [] @ '');''"

definition envelope_code :: "mint_request \<Rightarrow> string list option" where
  "envelope_code q = (case mq_envelope_digest q of
      None \<Rightarrow> Some []
    | Some d \<Rightarrow> map_option (\<lambda>d. [fact_code ''allowed_envelope'' d,
        ''check if current_envelope($env), allowed_envelope($env);'']) (checked_envelope d))"

definition bound_code :: "mint_request \<Rightarrow> string list option" where
  "bound_code q =
    (if mq_resources q \<noteq> []
     then map_option (\<lambda>ls. ls @ [resource_check])
            (resource_bound_code (mq_resources q) ''allowed_resource'' ''allowed_resource_prefix'')
     else Some [action_check])"

definition identity_code :: "mint_request \<Rightarrow> string list" where
  "identity_code q =
    [fact_code ''issuer'' ''veklom'', ''policy_version(1);'', ''delegation_depth_max(1);'',
     fact_code ''subject'' (mq_caller_spiffe_id q),
     ''check if current_subject($subj), subject($subj) or current_subject('' @ quoted ''any'' @ '');'',
     fact_code ''execution_id'' (mq_execution_id q),
     fact_code ''capability_id'' (mq_capability_id q),
     fact_code ''revocation_scope'' (mq_revocation_scope q),
     ''revocation_epoch('' @ show_int (mq_revocation_epoch q) @ '');'']"

definition grant_code :: "mint_request \<Rightarrow> string list" where
  "grant_code q =
    [fact_code ''allowed_executor'' (or_str (mq_executor_spiffe_id q) ''any''),
     ''check if current_executor($exec), allowed_executor($exec) or allowed_executor('' @ quoted ''any'' @ '');''] @
    map (fact_code ''allowed_action'') (mq_reads q) @ map (fact_code ''allowed_action'') (mq_writes q)"

definition time_code :: "mint_request \<Rightarrow> time \<Rightarrow> string list" where
  "time_code q now =
    (let expires = utc_stamp (now + mq_ttl_seconds q * 1000000)
     in [fact_code ''issued_at'' (utc_stamp now), fact_code ''expires_at'' expires,
         ''check if time($time), $time <= '' @ expires @ '';''])"

definition mint_code :: "mint_request \<Rightarrow> time \<Rightarrow> string list option" where
  "mint_code q now =
    (case envelope_code q of None \<Rightarrow> None
     | Some env \<Rightarrow> (case bound_code q of None \<Rightarrow> None
         | Some res \<Rightarrow> Some (identity_code q @ env @ grant_code q @ res @ time_code q now)))"

definition mint_biscuit_capability :: "(string list \<Rightarrow> string option) \<Rightarrow> mint_request \<Rightarrow> time \<Rightarrow> string option" where
  "mint_biscuit_capability build q now = Option.bind (mint_code q now) build"

subsection \<open>Reading a token\<close>

record biscuit_facts =
  bf_allowed_action :: "string list"
  bf_allowed_resource :: "string list"
  bf_allowed_resource_prefix :: "string list"
  bf_allowed_executor :: "string list"
  bf_subject :: "string list"
  bf_expires_at :: "string list"
  bf_delegation_depth_max :: "int list"
  bf_execution_id :: "string list"
  bf_revocation :: "(string \<times> int) list"
  bf_allowed_envelope :: "string list"
  bf_block_count :: int

text \<open>\<open>str(term).strip('"')\<close>.\<close>

definition strip_quotes :: "string \<Rightarrow> string" where
  "strip_quotes s = rev (dropWhile (\<lambda>c. c = CHR 0x22) (rev (dropWhile (\<lambda>c. c = CHR 0x22) s)))"

definition first_or :: "'a \<Rightarrow> 'a list \<Rightarrow> 'a" where
  "first_or d xs = (case xs of [] \<Rightarrow> d | x # _ \<Rightarrow> x)"

definition extract_authority_context ::
  "(string \<Rightarrow> biscuit_facts option) \<Rightarrow> (string \<Rightarrow> time option) \<Rightarrow> string \<Rightarrow> authority_context option" where
  "extract_authority_context parse strptime token_b64 =
    (case parse token_b64 of
       None \<Rightarrow> None
     | Some f \<Rightarrow>
         let resources = strip_quotes ` set (bf_allowed_resource f) \<union>
               (\<lambda>p. strip_quotes p @ ''*'') ` set (bf_allowed_resource_prefix f)
         in Some \<lparr>ac_allowed_actions = strip_quotes ` set (bf_allowed_action f),
              ac_allowed_resources = (if resources = {} then {''*''} else resources),
              ac_executor_spiffe_id = first_or ''any'' (map strip_quotes (bf_allowed_executor f)),
              ac_subject_spiffe_id = first_or ''any'' (map strip_quotes (bf_subject f)),
              ac_expires_at = (case bf_expires_at f of [] \<Rightarrow> None | e # _ \<Rightarrow> strptime (strip_quotes e)),
              ac_delegation_depth = bf_block_count f - 1,
              ac_max_delegation_depth = first_or 0 (bf_delegation_depth_max f),
              ac_authority_epoch = 0\<rparr>)"

definition extract_allowed_envelopes :: "(string \<Rightarrow> biscuit_facts option) \<Rightarrow> string \<Rightarrow> string set option" where
  "extract_allowed_envelopes parse token_b64 =
     map_option (\<lambda>f. strip_quotes ` set (bf_allowed_envelope f)) (parse token_b64)"

subsection \<open>Revocation\<close>

record revocation_state =
  rv_known_epochs :: "string \<rightharpoonup> int"
  rv_revoked_execution_ids :: "string set"

definition sync_epoch :: "string \<times> int \<Rightarrow> revocation_state \<Rightarrow> revocation_state" where
  "sync_epoch = (\<lambda>(scope, ep) st.
     let current = (case rv_known_epochs st scope of None \<Rightarrow> 0 | Some e \<Rightarrow> e)
     in if ep > current then st\<lparr>rv_known_epochs := (rv_known_epochs st)(scope \<mapsto> ep)\<rparr> else st)"

definition sync_epochs :: "(string \<times> int) list \<Rightarrow> revocation_state \<Rightarrow> revocation_state" where
  "sync_epochs incoming st = fold sync_epoch incoming st"

definition revoke_execution :: "string \<Rightarrow> revocation_state \<Rightarrow> revocation_state" where
  "revoke_execution execution_id st =
     st\<lparr>rv_revoked_execution_ids := insert execution_id (rv_revoked_execution_ids st)\<rparr>"

text \<open>The checks after the authorizer has accepted: execution, epoch and delegation depth.\<close>

definition execution_check :: "biscuit_facts \<Rightarrow> string option \<Rightarrow> revocation_state option \<Rightarrow> bool" where
  "execution_check f execution_id trusted_state =
    (case bf_execution_id f of
       [] \<Rightarrow> True
     | e # _ \<Rightarrow>
         if execution_id \<noteq> None \<and> execution_id \<noteq> Some (strip_quotes e) then False
         else case trusted_state of None \<Rightarrow> False
           | Some st \<Rightarrow> strip_quotes e \<notin> rv_revoked_execution_ids st)"

definition epoch_check :: "biscuit_facts \<Rightarrow> revocation_state option \<Rightarrow> bool" where
  "epoch_check f trusted_state =
    (case bf_revocation f of
       [] \<Rightarrow> True
     | (s, ep) # _ \<Rightarrow>
         (case trusted_state of None \<Rightarrow> False
          | Some st \<Rightarrow> (case rv_known_epochs st (strip_quotes s) of None \<Rightarrow> False | Some known \<Rightarrow> \<not> ep < known)))"

definition depth_check :: "biscuit_facts \<Rightarrow> bool" where
  "depth_check f = (case bf_delegation_depth_max f of [] \<Rightarrow> True | d # _ \<Rightarrow> \<not> bf_block_count f - 1 > d)"

text \<open>\<open>authorize\<close> is given the authorizer's facts: executor, subject, action, resource and envelope.\<close>

definition verify_biscuit_capability ::
  "(string \<Rightarrow> biscuit_facts option) \<Rightarrow> (string \<Rightarrow> string \<Rightarrow> string \<Rightarrow> string \<Rightarrow> string \<Rightarrow> string option \<Rightarrow> bool) \<Rightarrow>
   string \<Rightarrow> string \<Rightarrow> string \<Rightarrow> string \<Rightarrow> string option \<Rightarrow> revocation_state option \<Rightarrow> string option \<Rightarrow> string option \<Rightarrow> bool" where
  "verify_biscuit_capability parse authorize token_b64 executor action resource subject trusted_state execution_id envelope =
    (case parse token_b64 of
       None \<Rightarrow> False
     | Some f \<Rightarrow>
         if resource \<noteq> [] \<and> \<not> resource_term resource then False
         else if (case envelope of None \<Rightarrow> False | Some d \<Rightarrow> \<not> envelope_term d) then False
         else if \<not> authorize token_b64 executor (or_str subject ''any'') action resource envelope then False
         else if \<not> execution_check f execution_id trusted_state then False
         else if \<not> epoch_check f trusted_state then False
         else depth_check f)"

subsection \<open>Bounds stay inside their literal\<close>

text \<open>Text that can neither end a Datalog string literal nor start an escape in it.\<close>

definition literal_safe :: "string \<Rightarrow> bool" where
  "literal_safe s \<longleftrightarrow> CHR 0x22 \<notin> set s \<and> CHR 0x5C \<notin> set s"

lemma resource_term_char_safe [simp]:
  "\<not> resource_term_char (CHR 0x22)" "\<not> resource_term_char (CHR 0x5C)"
  by (simp_all add: resource_term_char_def is_digit_def)

lemma literal_safe_append [simp]: "literal_safe (s @ t) \<longleftrightarrow> literal_safe s \<and> literal_safe t"
  by (auto simp: literal_safe_def)

lemma literal_safe_Cons [simp]: "literal_safe (c # s) \<longleftrightarrow> c \<noteq> CHR 0x22 \<and> c \<noteq> CHR 0x5C \<and> literal_safe s"
  by (auto simp: literal_safe_def)

lemma literal_safe_Nil [simp]: "literal_safe []"
  by (simp add: literal_safe_def)

lemma literal_safe_if: "list_all p s \<Longrightarrow> \<not> p (CHR 0x22) \<Longrightarrow> \<not> p (CHR 0x5C) \<Longrightarrow> literal_safe s"
  unfolding literal_safe_def list_all_iff by blast

lemma resource_term_safe: "resource_term r \<Longrightarrow> literal_safe r"
proof -
  assume r: "resource_term r"
  show ?thesis
  proof (cases "ends_with r ''/*''")
    case True
    then obtain q where q: "r = q @ ''/*''" by (auto simp: ends_with_iff)
    then have "list_all resource_term_char q" using r True by (simp add: resource_term_def butlast_append)
    then have "literal_safe q" by (rule literal_safe_if) simp_all
    then show ?thesis by (simp add: q)
  next
    case False
    then have "list_all resource_term_char r" using r by (simp add: resource_term_def)
    then show ?thesis by (rule literal_safe_if) simp_all
  qed
qed

lemma envelope_term_safe: "envelope_term d \<Longrightarrow> literal_safe d"
  unfolding envelope_term_def by (elim conjE, erule literal_safe_if) (simp_all add: is_digit_def)

lemma literal_safe_butlast: "literal_safe s \<Longrightarrow> literal_safe (butlast s)"
  by (auto simp: literal_safe_def dest: in_set_butlastD)

lemma resource_bound_code_safe:
  "resource_bound_code ress pred ppred = Some ls \<Longrightarrow>
     list_all2 (\<lambda>r l. \<exists>v. literal_safe v \<and>
       (if ends_with r ''/*'' then l = fact_code ppred v \<and> v @ ''*'' = r else l = fact_code pred v \<and> v = r)) ress ls"
proof (induction ress arbitrary: ls)
  case (Cons r ress)
  then obtain ls' where r: "resource_term r" "resource_bound_code ress pred ppred = Some ls'"
    "ls = (if ends_with r ''/*'' then fact_code ppred (butlast r) else fact_code pred r) # ls'"
    by (auto split: if_splits)
  have "literal_safe r" "literal_safe (butlast r)" using r(1) resource_term_safe literal_safe_butlast by blast+
  moreover have "ends_with r ''/*'' \<Longrightarrow> butlast r @ ''*'' = r" by (auto simp: ends_with_iff butlast_append)
  ultimately show ?case using Cons.IH [OF r(2)] r(3) by auto
qed simp

text \<open>
  Every signed resource bound is one fact for exactly the requested resource: a mint with a
  resource list either is refused or writes, for each resource, one \<open>allowed_resource\<close> fact (or one
  \<open>allowed_resource_prefix\<close> fact for a \<open>dir/*\<close> grant) whose literal contains no quote and no
  backslash, so no resource text can add Datalog of its own.
\<close>

theorem minted_resources_exact:
  assumes "mint_code q now = Some ls" "mq_resources q \<noteq> []"
  shows "\<exists>before bounds after. ls = before @ bounds @ resource_check # after \<and>
    list_all2 (\<lambda>r l. \<exists>v. literal_safe v \<and>
      (if ends_with r ''/*'' then l = fact_code ''allowed_resource_prefix'' v \<and> v @ ''*'' = r
       else l = fact_code ''allowed_resource'' v \<and> v = r)) (mq_resources q) bounds"
proof -
  obtain env res where p: "bound_code q = Some res" "ls = identity_code q @ env @ grant_code q @ res @ time_code q now"
    using assms(1) by (auto simp: mint_code_def split: option.splits)
  then obtain bounds where b: "resource_bound_code (mq_resources q) ''allowed_resource'' ''allowed_resource_prefix'' = Some bounds"
    "res = bounds @ [resource_check]"
    using assms(2) by (auto simp: bound_code_def)
  have "ls = (identity_code q @ env @ grant_code q) @ bounds @ resource_check # time_code q now" using p b by simp
  with resource_bound_code_safe [OF b(1)] show ?thesis by blast
qed

text \<open>
  The other fields of a token are interpolated without any such check: an execution identifier
  chosen by the caller can close its literal and state a fact of its own, so the program of a mint
  can grant an action that is in neither of its action lists.
\<close>

theorem execution_id_injects:
  "\<exists>ls. mint_code (q\<lparr>mq_execution_id := ''x'' @ [CHR 0x22] @ ''); allowed_action('' @ [CHR 0x22] @ ''admin'',
       mq_resources := [], mq_envelope_digest := None\<rparr>) now = Some ls \<and>
     fact_code ''execution_id'' ''x'' @ '' '' @ fact_code ''allowed_action'' ''admin'' \<in> set ls"
  by (simp add: mint_code_def envelope_code_def bound_code_def identity_code_def fact_code_def)

subsection \<open>Extraction\<close>

lemma dropWhile_quote: "CHR 0x22 \<notin> set s \<Longrightarrow> dropWhile (\<lambda>c. c = CHR 0x22) s = s"
  by (rule dropWhile_eq_self_iff [THEN iffD2]) (metis hd_in_set)

lemma strip_quotes_safe [simp]: "literal_safe s \<Longrightarrow> strip_quotes s = s"
  by (simp add: strip_quotes_def literal_safe_def dropWhile_quote)

lemma literal_safe_show_nat [simp]: "literal_safe (show_nat m)"
  by (rule literal_safe_if [of is_digit]) (simp_all add: list_all_iff show_nat_digits, simp_all add: is_digit_def)

lemma literal_safe_show_int [simp]: "literal_safe (pad n (show_int i))"
proof -
  have "literal_safe (show_int i)" by (simp add: show_int_def)
  moreover have "literal_safe (replicate k (CHR ''0''))" for k by (simp add: literal_safe_def)
  ultimately show ?thesis by (simp add: pad_def)
qed

lemma literal_safe_isoformat: "literal_safe (isoformat t)"
proof -
  have s: "literal_safe ''-''" "literal_safe ''T''" "literal_safe '':''" "literal_safe ''.''" "literal_safe ''+00:00''" "literal_safe []"
    by (simp_all add: literal_safe_def)
  show ?thesis
    by (simp only: isoformat_def Let_def literal_safe_append literal_safe_show_int s if_split simp_thms split: prod.split)
qed

lemma utc_stamp_safe [simp]: "literal_safe (utc_stamp t)"
  using literal_safe_isoformat [of "whole_seconds t"]
  by (auto simp: utc_stamp_def literal_safe_def dest: set_takeWhileD)

text \<open>The facts the program of a mint states.\<close>

definition minted_facts :: "mint_request \<Rightarrow> time \<Rightarrow> biscuit_facts" where
  "minted_facts q now =
    \<lparr>bf_allowed_action = mq_reads q @ mq_writes q,
     bf_allowed_resource = filter (\<lambda>r. \<not> ends_with r ''/*'') (mq_resources q),
     bf_allowed_resource_prefix = map butlast (filter (\<lambda>r. ends_with r ''/*'') (mq_resources q)),
     bf_allowed_executor = [or_str (mq_executor_spiffe_id q) ''any''],
     bf_subject = [mq_caller_spiffe_id q],
     bf_expires_at = [utc_stamp (now + mq_ttl_seconds q * 1000000)],
     bf_delegation_depth_max = [1],
     bf_execution_id = [mq_execution_id q],
     bf_revocation = [(mq_revocation_scope q, mq_revocation_epoch q)],
     bf_allowed_envelope = (case mq_envelope_digest q of None \<Rightarrow> [] | Some d \<Rightarrow> [d]),
     bf_block_count = 1\<rparr>"

lemma bound_code_terms: "resource_bound_code ress pred ppred = Some ls \<Longrightarrow> list_all resource_term ress"
  by (induction ress arbitrary: ls) (auto split: if_splits)

lemma extracted_resources:
  assumes "list_all resource_term ress"
  shows "strip_quotes ` set (filter (\<lambda>r. \<not> ends_with r ''/*'') ress) \<union>
    (\<lambda>p. strip_quotes p @ ''*'') ` set (map butlast (filter (\<lambda>r. ends_with r ''/*'') ress)) = set ress"
  using assms
proof (induction ress)
  case (Cons r ress)
  then have "literal_safe r" by (simp add: resource_term_safe)
  moreover have "ends_with r ''/*'' \<Longrightarrow> butlast r @ ''*'' = r" by (auto simp: ends_with_iff butlast_append)
  ultimately show ?case using Cons by (auto simp: literal_safe_butlast)
qed simp

lemma mint_code_terms:
  assumes "mint_code q now = Some ls"
  shows "list_all resource_term (mq_resources q)" "mq_envelope_digest q = Some d \<Longrightarrow> envelope_term d"
  using assms bound_code_terms
  by (auto simp: mint_code_def bound_code_def envelope_code_def checked_envelope_def split: option.splits if_splits)

lemma extracted_authority:
  assumes "mint_biscuit_capability build q now = Some tok" "parse tok = Some (minted_facts q now)"
    and "strptime (utc_stamp (now + mq_ttl_seconds q * 1000000)) = Some (whole_seconds (now + mq_ttl_seconds q * 1000000))"
    and "list_all literal_safe (mq_reads q @ mq_writes q)" "literal_safe (mq_caller_spiffe_id q)"
      "literal_safe (or_str (mq_executor_spiffe_id q) ''any'')"
  shows "extract_authority_context parse strptime tok = Some
      \<lparr>ac_allowed_actions = set (mq_reads q) \<union> set (mq_writes q),
       ac_allowed_resources = (if mq_resources q = [] then {''*''} else set (mq_resources q)),
       ac_executor_spiffe_id = or_str (mq_executor_spiffe_id q) ''any'',
       ac_subject_spiffe_id = mq_caller_spiffe_id q,
       ac_expires_at = Some (whole_seconds (now + mq_ttl_seconds q * 1000000)),
       ac_delegation_depth = 0, ac_max_delegation_depth = 1, ac_authority_epoch = 0\<rparr> \<and>
    extract_allowed_envelopes parse tok = Some (set_option (mq_envelope_digest q))"
proof -
  obtain ls where ls: "mint_code q now = Some ls"
    using assms(1) by (auto simp: mint_biscuit_capability_def bind_eq_Some_conv)
  have res: "list_all resource_term (mq_resources q)" using mint_code_terms(1) [OF ls] .
  have env: "set_option (mq_envelope_digest q) = strip_quotes ` set (bf_allowed_envelope (minted_facts q now))"
    using mint_code_terms(2) [OF ls] by (cases "mq_envelope_digest q") (auto simp: minted_facts_def envelope_term_safe)
  have acts: "strip_quotes ` (set (mq_reads q) \<union> set (mq_writes q)) = set (mq_reads q) \<union> set (mq_writes q)"
    using assms(4) by (auto simp: list_all_iff image_iff)
  show ?thesis
    using assms(2,3,5,6) extracted_resources [OF res] env acts
    by (simp add: extract_authority_context_def extract_allowed_envelopes_def minted_facts_def first_or_def)
qed

text \<open>
  Authority survives the round trip through a token: reading back a minted token gives exactly
  the granted actions and resources (every resource when none was named), the caller and executor
  it was minted for, the minted lifetime in whole seconds, and no delegation yet.
\<close>

theorem extract_minted:
  assumes "mint_biscuit_capability build q now = Some tok" "parse tok = Some (minted_facts q now)"
    and "strptime (utc_stamp (now + mq_ttl_seconds q * 1000000)) = Some (whole_seconds (now + mq_ttl_seconds q * 1000000))"
    and "list_all literal_safe (mq_reads q @ mq_writes q)" "literal_safe (mq_caller_spiffe_id q)"
      "literal_safe (or_str (mq_executor_spiffe_id q) ''any'')"
  shows "extract_authority_context parse strptime tok = Some
      \<lparr>ac_allowed_actions = set (mq_reads q) \<union> set (mq_writes q),
       ac_allowed_resources = (if mq_resources q = [] then {''*''} else set (mq_resources q)),
       ac_executor_spiffe_id = or_str (mq_executor_spiffe_id q) ''any'',
       ac_subject_spiffe_id = mq_caller_spiffe_id q,
       ac_expires_at = Some (whole_seconds (now + mq_ttl_seconds q * 1000000)),
       ac_delegation_depth = 0, ac_max_delegation_depth = 1, ac_authority_epoch = 0\<rparr> \<and>
    extract_allowed_envelopes parse tok = Some (set_option (mq_envelope_digest q))"
  using assms by (rule extracted_authority)

subsection \<open>Revocation is monotone\<close>

definition revocation_le :: "revocation_state \<Rightarrow> revocation_state \<Rightarrow> bool" where
  "revocation_le a b \<longleftrightarrow> rv_revoked_execution_ids a \<subseteq> rv_revoked_execution_ids b \<and>
     (\<forall>s e. rv_known_epochs a s = Some e \<longrightarrow> (\<exists>e'. rv_known_epochs b s = Some e' \<and> e \<le> e'))"

lemma revocation_le_refl [simp]: "revocation_le a a"
  by (simp add: revocation_le_def)

lemma revocation_le_trans: "revocation_le a b \<Longrightarrow> revocation_le b c \<Longrightarrow> revocation_le a c"
  unfolding revocation_le_def by (meson order_trans subset_trans)

lemma sync_epochs_le [inv_intros]: "revocation_le st (sync_epochs incoming st)"
proof -
  have "revocation_le st (sync_epoch p st)" for p st
    by (auto simp: sync_epoch_def revocation_le_def Let_def split: prod.split option.splits)
  then show ?thesis
    unfolding sync_epochs_def by (induction incoming arbitrary: st) (simp, metis fold_simps(2) revocation_le_trans)
qed

inductive revocation_step :: "revocation_state \<Rightarrow> revocation_state \<Rightarrow> bool" where
  step_sync: "revocation_step st (sync_epochs incoming st)"
| step_revoke: "revocation_step st (revoke_execution execution_id st)"

lemma revocation_step_le: "revocation_step st st' \<Longrightarrow> revocation_le st st'"
proof (induction rule: revocation_step.induct)
  case (step_revoke st execution_id)
  then show ?case by (auto simp: revoke_execution_def revocation_le_def)
qed (rule sync_epochs_le)


definition sample_mint :: mint_request where
  "sample_mint = \<lparr>mq_caller_spiffe_id = ''alice'', mq_executor_spiffe_id = Some ''bob'', mq_capability_id = ''lead@v1'',
     mq_reads = [''leads.read''], mq_writes = [''draft.write''], mq_execution_id = ''exec_b'', mq_ttl_seconds = 60,
     mq_resources = [''acme'', ''docs/*''], mq_revocation_scope = ''execution:exec_b'', mq_revocation_epoch = 0,
     mq_envelope_digest = None\<rparr>"

lemma sample_mint_code: "\<exists>ls. mint_code sample_mint 0 = Some ls"
  by (simp add: mint_code_def envelope_code_def bound_code_def sample_mint_def resource_term_def
      resource_term_char_def is_digit_def ends_with_def Let_def)

lemma minted_resources_exact_witness:
  "\<exists>ls before bounds after. mint_code sample_mint 0 = Some ls \<and> ls = before @ bounds @ resource_check # after \<and> length bounds = 2"
proof -
  obtain ls where ls: "mint_code sample_mint 0 = Some ls" using sample_mint_code by blast
  have r: "mq_resources sample_mint \<noteq> []" by (simp add: sample_mint_def)
  have "\<exists>before bounds after. ls = before @ bounds @ resource_check # after \<and> length bounds = length (mq_resources sample_mint)"
    using minted_resources_exact [OF ls r]
    by (elim exE conjE, intro exI conjI) (assumption, drule list_all2_lengthD, simp)
  moreover have "length (mq_resources sample_mint) = 2" by (simp add: sample_mint_def)
  ultimately show ?thesis using ls by auto
qed

definition sample_parse :: "string \<Rightarrow> biscuit_facts option" where
  "sample_parse tok = (if tok = ''tok'' then Some (minted_facts sample_mint 0) else None)"

definition sample_strptime :: "string \<Rightarrow> time option" where
  "sample_strptime s = (if s = utc_stamp 60000000 then Some 60000000 else None)"

lemma extract_minted_witness:
  "map_option (\<lambda>a. (ac_allowed_actions a, ac_allowed_resources a, ac_expires_at a))
     (extract_authority_context sample_parse sample_strptime ''tok'') =
   Some ({''leads.read'', ''draft.write''}, {''acme'', ''docs/*''}, Some 60000000)"
proof -
  have m: "mint_biscuit_capability (\<lambda>_. Some ''tok'') sample_mint 0 = Some ''tok''"
    using sample_mint_code by (auto simp: mint_biscuit_capability_def)
  have p: "sample_parse ''tok'' = Some (minted_facts sample_mint 0)" by (simp add: sample_parse_def)
  have f: "mq_reads sample_mint = [''leads.read'']" "mq_writes sample_mint = [''draft.write'']" "mq_ttl_seconds sample_mint = 60"
    "mq_resources sample_mint = [''acme'', ''docs/*'']" "mq_caller_spiffe_id sample_mint = ''alice''"
    "or_str (mq_executor_spiffe_id sample_mint) ''any'' = ''bob''" by (simp_all add: sample_mint_def)
  have "sample_strptime (utc_stamp 60000000) = Some (whole_seconds 60000000)"
    by (simp add: sample_strptime_def whole_seconds_def)
  then show ?thesis using extract_minted [where parse = sample_parse and tok = "''tok''", OF m p, of sample_strptime]
    by (simp add: f insert_commute whole_seconds_def)
qed


end
