(* ===== verification/Mount_Store.thy ===== *)
theory Mount_Store
  imports Evidence Biscuit Ledger
begin

text \<open>
  Durable state of the mount service (\<open>capability_mount/service.py\<close>): the rows it owns
  (\<open>models/capability_mount.py\<close>, \<open>models/capability_evidence_consumption.py\<close>,
  \<open>models/consequence_redemption.py\<close>) beside leases, receipts, consequence events and audit rows,
  and what the service takes from its surroundings: clock, identifiers, keys, registered packages,
  the Biscuit and COSE libraries, and the ledger anchor. The anchor the service is deployed with
  (\<open>services/mount_pgl.py\<close>) and its two local substitutes are modelled as instances. A service
  operation is a function on the tables it reads at the start of its transaction; a rollback
  returns them unchanged.
\<close>

subsection \<open>Rows\<close>

record mount_row =
  mr_mount_id :: string
  mr_token_id :: string
  mr_token_nonce :: string
  mr_owner_principal :: string
  mr_owner_workspace :: string
  mr_holder_secret_hash :: "digest option"
  mr_mount :: mount
  mr_token :: token
  mr_issued_at :: time
  mr_expires_at :: time
  mr_authority_epoch :: int
  mr_terminated :: bool
  mr_nonce_consumed :: bool
  mr_anchor_status :: string
  mr_anchor_id :: "string option"
  mr_anchor_detail :: "string option"
  mr_start_claim_operation_id :: "string option"
  mr_start_claimed_at :: "time option"

record consumption =
  co_jti :: string
  co_kind :: evidence_kind
  co_mount_id :: string
  co_action :: string
  co_consumed_at :: time

record redemption =
  rd_operation_id :: string
  rd_mount_id :: string
  rd_receipt_id :: "string option"
  rd_payload_sha256 :: string
  rd_sink_ref :: "string option"
  rd_redeemed_at :: time

record tables =
  tb_mounts :: "mount_row list"
  tb_leases :: "lease list"
  tb_receipts :: "receipt list"
  tb_merkle_next :: "int option"
  tb_events :: "cevent list"
  tb_consumed :: "consumption list"
  tb_redeemed :: "redemption list"
  tb_audit :: "audit_event list"

text \<open>\<open>WHERE mount_id = m ORDER BY authority_epoch DESC\<close>, first row.\<close>

definition lease_of :: "string \<Rightarrow> tables \<Rightarrow> lease option" where
  "lease_of mount_id tb = latest_by ls_authority_epoch (filter (\<lambda>l. ls_mount_id l = mount_id) (tb_leases tb))"

definition set_lease :: "lease \<Rightarrow> tables \<Rightarrow> tables" where
  "set_lease l tb = tb\<lparr>tb_leases := update_rows (\<lambda>l'. ls_lease_id l' = ls_lease_id l) (\<lambda>_. l) (tb_leases tb)\<rparr>"

text \<open>\<open>_row\<close>: the row with the primary key.\<close>

definition row_of :: "string \<Rightarrow> tables \<Rightarrow> mount_row option" where
  "row_of mount_id tb = find (\<lambda>r. mr_mount_id r = mount_id) (tb_mounts tb)"

definition set_row :: "mount_row \<Rightarrow> tables \<Rightarrow> tables" where
  "set_row row tb = tb\<lparr>tb_mounts := update_rows (\<lambda>r. mr_mount_id r = mr_mount_id row) (\<lambda>_. row) (tb_mounts tb)\<rparr>"

text \<open>The unique columns: another row holds the token identifier or the nonce.\<close>

definition token_taken :: "string \<Rightarrow> string \<Rightarrow> string \<Rightarrow> tables \<Rightarrow> bool" where
  "token_taken mount_id token_id nonce tb =
     list_ex (\<lambda>r. mr_mount_id r \<noteq> mount_id \<and> (mr_token_id r = token_id \<or> mr_token_nonce r = nonce)) (tb_mounts tb)"

text \<open>\<open>n or d\<close> for an integer column.\<close>

definition or_int :: "int \<Rightarrow> int \<Rightarrow> int" where
  "or_int n d = (if n = 0 then d else n)"

subsection \<open>Anchors\<close>

record anchor_result =
  an_status :: string
  an_anchor_id :: "string option"
  an_detail :: "string option"
  an_external_ref :: "string option"

record anchor_request =
  aq_event_type :: string
  aq_action :: string
  aq_decision :: string
  aq_reason :: string
  aq_mount :: "mount option"
  aq_token :: "token option"
  aq_operation_id :: "string option"
  aq_receipt_id :: "string option"
  aq_consequence_state :: "string option"
  aq_proof_type :: "string option"

type_synonym anchor = "nat \<Rightarrow> anchor_request \<Rightarrow> audit_event list \<Rightarrow> audit_event list \<times> anchor_result"

definition unconfirmed_anchor :: anchor where
  "unconfirmed_anchor i q audit =
     (audit, \<lparr>an_status = ''unconfirmed'', an_anchor_id = None, an_detail = Some ''PGL anchor is not configured'',
              an_external_ref = None\<rparr>)"

text \<open>\<open>digest_of\<close> is the SHA-256 of the JSON of the stringified request.\<close>

definition local_confirmed_anchor :: "(anchor_request \<Rightarrow> digest) \<Rightarrow> anchor" where
  "local_confirmed_anchor digest_of i q audit =
     (audit, \<lparr>an_status = ''confirmed'', an_anchor_id = Some (digest_of q), an_detail = Some ''local-confirmed'',
              an_external_ref = None\<rparr>)"

text \<open>
  The external ledger: the request fails or is not answered with success, the body is no JSON, or
  it is a JSON value.
\<close>

datatype pgl_response = Post_Failed | Post_Not_Json | Post_Body json

record pgl_settings =
  pg_ledger_url :: "string option"
  pg_ledger_agent_id :: "string option"

definition pgl_payload :: "anchor_request \<Rightarrow> (string \<times> json) list" where
  "pgl_payload q =
    [(''event_type'', JStr (aq_event_type q)), (''action'', JStr (aq_action q)),
     (''decision'', JStr (aq_decision q)), (''reason'', JStr (aq_reason q)),
     (''mount_id'', jopt (map_option mt_id (aq_mount q))),
     (''package_ref'', jopt (map_option mt_package_ref (aq_mount q))),
     (''execution_id'', jopt (map_option tk_execution_id (aq_token q)))] @
    concat (map (\<lambda>(k, v). case v of None \<Rightarrow> [] | Some s \<Rightarrow> [(k, JStr s)])
      [(''operation_id'', aq_operation_id q), (''receipt_id'', aq_receipt_id q),
       (''consequence_state'', aq_consequence_state q), (''proof_type'', aq_proof_type q)])"

definition blank :: "string \<Rightarrow> bool" where
  "blank s \<longleftrightarrow> list_all (\<lambda>c. c = CHR '' '' \<or> 9 \<le> (of_char c :: nat) \<and> (of_char c :: nat) \<le> 13) s"

definition confirmed_hash :: "pgl_response \<Rightarrow> string option" where
  "confirmed_hash r =
    (case r of
       Post_Body (JObj body) \<Rightarrow>
         if map_of body ''persisted'' \<noteq> Some (JBool True) then None
         else (case map_of body ''event_hash'' of
                 Some (JStr h) \<Rightarrow> if blank h then None else Some h
               | _ \<Rightarrow> None)
     | _ \<Rightarrow> None)"

text \<open>
  \<open>appended\<close> tells whether a local append succeeds; it, the identifiers and the clock readings of the two
  possible rows are indexed by the call.
\<close>

definition audit_pgl_anchor ::
  "(string \<Rightarrow> digest) \<Rightarrow> pgl_settings \<Rightarrow> (nat \<Rightarrow> bool) \<Rightarrow> (nat \<Rightarrow> string) \<Rightarrow> (nat \<Rightarrow> time) \<Rightarrow> (nat \<Rightarrow> pgl_response) \<Rightarrow> anchor" where
  "audit_pgl_anchor sha cfg appended uid clk respond i q audit =
    (if \<not> appended (2 * i) then
       (audit, \<lparr>an_status = ''failed'', an_anchor_id = None, an_detail = Some ''local PGL append failed'', an_external_ref = None\<rparr>)
     else
       let ws = map_option (\<lambda>m. sc_workspace (mt_scope m)) (aq_mount q);
           run_id = map_option tk_execution_id (aq_token q);
           (audit1, event) = audit_record sha (uid (2 * i)) (clk (2 * i)) (''capability_mount_'' @ aq_event_type q)
             (JObj (pgl_payload q)) ws run_id audit;
           pending = (\<lambda>detail. (audit1, \<lparr>an_status = ''pending_reconciliation'', an_anchor_id = Some (ae_log_hash event),
             an_detail = Some detail, an_external_ref = None\<rparr>))
       in if \<not> truthy (pg_ledger_url cfg) then pending ''external PGL is not configured''
          else if \<not> truthy (pg_ledger_agent_id cfg) then pending ''PGL_LEDGER_AGENT_ID is not configured''
          else if respond i = Post_Failed then pending ''external PGL append unconfirmed''
          else case confirmed_hash (respond i) of
            None \<Rightarrow> pending ''external PGL response lacked event_hash''
          | Some h \<Rightarrow>
              let audit2 = (if aq_event_type q = ''terminate'' \<and> appended (2 * i + 1)
                    then fst (audit_record sha (uid (2 * i + 1)) (clk (2 * i + 1)) ''capability_mount_terminate_anchor''
                      (JObj [(''mount_id'', jopt (map_option mt_id (aq_mount q))), (''log_hash'', JStr (ae_log_hash event)),
                             (''pgl_event_hash'', JStr h)]) ws run_id audit1)
                    else audit1)
              in (audit2, \<lparr>an_status = ''confirmed'', an_anchor_id = Some (ae_log_hash event), an_detail = None,
                           an_external_ref = Some h\<rparr>))"

definition anchored :: "anchor_result \<Rightarrow> bool" where
  "anchored r \<longleftrightarrow> an_status r = ''confirmed'' \<or> an_status r = ''pending_reconciliation''"

subsection \<open>Surroundings\<close>

record world =
  w_sha :: "string \<Rightarrow> digest"
  w_mac :: "string \<Rightarrow> string \<Rightarrow> digest"
  w_uid :: "nat \<Rightarrow> string"
  w_clk :: "nat \<Rightarrow> time"
  w_anchor :: anchor
  w_packages :: "string \<Rightarrow> package option"
  w_settings :: "permit_settings option"
  w_evidence :: evidence_config
  w_parse :: "string \<Rightarrow> biscuit_facts option"
  w_strptime :: "string \<Rightarrow> time option"
  w_build :: "string list \<Rightarrow> string option"
  w_sign :: "json \<Rightarrow> string"
  w_signature_valid :: "string \<Rightarrow> string \<Rightarrow> string \<Rightarrow> bool"
  w_offline :: bool
  w_repr :: "json \<Rightarrow> string"
  w_lax_bool :: "json \<Rightarrow> bool option"

text \<open>The readings left after a call has drawn its own.\<close>

definition later :: "nat \<Rightarrow> world \<Rightarrow> world" where
  "later k w = w\<lparr>w_uid := \<lambda>i. w_uid w (i + k), w_clk := \<lambda>i. w_clk w (i + k), w_anchor := \<lambda>i. w_anchor w (i + k)\<rparr>"

text \<open>Python's \<open>str\<close>: a text is itself, anything else its representation.\<close>

definition py_str :: "world \<Rightarrow> json \<Rightarrow> string" where
  "py_str w v = (case v of JStr s \<Rightarrow> s | _ \<Rightarrow> w_repr w v)"

definition call_anchor :: "world \<Rightarrow> nat \<Rightarrow> anchor_request \<Rightarrow> tables \<Rightarrow> tables \<times> anchor_result" where
  "call_anchor w i q tb =
    (case w_anchor w i q (tb_audit tb) of (audit, r) \<Rightarrow> (tb\<lparr>tb_audit := audit\<rparr>, r))"

definition decision_request ::
  "string \<Rightarrow> string \<Rightarrow> decision \<Rightarrow> string \<Rightarrow> mount option \<Rightarrow> token option \<Rightarrow> anchor_request" where
  "decision_request event_type action dec reason m t =
    \<lparr>aq_event_type = event_type, aq_action = action, aq_decision = decision_value dec, aq_reason = reason,
     aq_mount = m, aq_token = t, aq_operation_id = None, aq_receipt_id = None, aq_consequence_state = None,
     aq_proof_type = None\<rparr>"

subsection \<open>Records of a row\<close>

definition row_token :: "mount_row \<Rightarrow> token" where
  "row_token row = (mr_token row)\<lparr>tk_nonce_consumed := mr_nonce_consumed row\<rparr>"

definition row_binding :: "mount_row \<Rightarrow> binding" where
  "row_binding row = (new_binding (row_token row))\<lparr>bd_terminated := mr_terminated row\<rparr>"

definition owned_by :: "mount_row \<Rightarrow> string \<Rightarrow> string option \<Rightarrow> bool" where
  "owned_by row owner_principal owner_workspace =
    (if owner_principal = ''mount-holder:'' @ mr_mount_id row
       then truthy owner_workspace \<and> owner_workspace = Some (mr_owner_workspace row)
     else if mr_owner_principal row \<noteq> owner_principal then False
     else if owner_principal = ''auth-disabled'' then True
     else truthy owner_workspace \<and> owner_workspace = Some (mr_owner_workspace row))"

text \<open>
  \<open>DatabaseAuditSink.append\<close>: one audit row per binding event, its payload the JSON dump of the
  event (whose timestamps end in \<open>Z\<close>).
\<close>

definition json_timestamp :: "time \<Rightarrow> string" where
  "json_timestamp t = takeWhile (\<lambda>c. c \<noteq> CHR ''+'') (isoformat t) @ ''Z''"

definition exec_event_json :: "exec_audit_event \<Rightarrow> json" where
  "exec_event_json e = JObj
    [(''event_id'', JStr (xa_event_id e)), (''execution_id'', JStr (xa_execution_id e)), (''action'', JStr (xa_action e)),
     (''decision'', JStr (decision_value (xa_decision e))), (''reason'', JStr (xa_reason e)),
     (''ts'', JStr (json_timestamp (xa_ts e))), (''prev_hash'', jopt (xa_prev_hash e)),
     (''event_hash'', JStr (xa_event_hash e))]"

fun sink_append :: "world \<Rightarrow> nat \<Rightarrow> string \<Rightarrow> exec_audit_event list \<Rightarrow> tables \<Rightarrow> tables" where
  "sink_append w i ws [] tb = tb"
| "sink_append w i ws (e # es) tb =
     sink_append w (i + 1) ws es
       (tb\<lparr>tb_audit := fst (audit_record (w_sha w) (w_uid w i) (w_clk w i) ''execution_binding_decision''
          (exec_event_json e) (Some ws) None (tb_audit tb))\<rparr>)"

text \<open>The events a binding operation added, written to the sink of its row.\<close>

definition sink_new :: "world \<Rightarrow> nat \<Rightarrow> mount_row \<Rightarrow> binding \<Rightarrow> binding \<Rightarrow> tables \<Rightarrow> tables" where
  "sink_new w i row before after tb =
     sink_append w i (mr_owner_workspace row) (drop (length (bd_events before)) (bd_events after)) tb"

subsection \<open>Errors\<close>

definition integrity_error :: exc where
  "integrity_error = \<lparr>ex_name = ''IntegrityError'', ex_text = [], ex_class = OtherExc\<rparr>"

definition value_error :: "string \<Rightarrow> exc" where
  "value_error msg = \<lparr>ex_name = ''ValueError'', ex_text = msg, ex_class = ValueExc\<rparr>"

subsection \<open>Lookup and update\<close>

lemma row_of_id: "row_of mid tb = Some row \<Longrightarrow> mr_mount_id row = mid"
  by (auto simp: row_of_def dest: find_Some_in)

lemma find_update_rows:
  "(\<And>x. p x \<Longrightarrow> q x) \<Longrightarrow> q y \<Longrightarrow> find q xs = Some x \<Longrightarrow> p x \<Longrightarrow> find q (update_rows p (\<lambda>_. y) xs) = Some y"
  by (induction xs) (auto split: if_splits)

lemma find_update_rows_other:
  "(\<And>x. p x \<Longrightarrow> \<not> q x) \<Longrightarrow> \<not> q y \<Longrightarrow> find q (update_rows p (\<lambda>_. y) xs) = find q xs"
  by (induction xs) auto

lemma row_of_set_row:
  assumes "row_of (mr_mount_id row) tb = Some r0"
  shows "row_of mid (set_row row tb) = (if mid = mr_mount_id row then Some row else row_of mid tb)"
  using assms unfolding row_of_def set_row_def
  by (auto intro: find_update_rows find_update_rows_other dest: find_Some_in)

lemma set_row_simps [simp]:
  "tb_leases (set_row r tb) = tb_leases tb" "tb_receipts (set_row r tb) = tb_receipts tb"
  "tb_merkle_next (set_row r tb) = tb_merkle_next tb" "tb_events (set_row r tb) = tb_events tb"
  "tb_consumed (set_row r tb) = tb_consumed tb" "tb_redeemed (set_row r tb) = tb_redeemed tb"
  "tb_audit (set_row r tb) = tb_audit tb"
  by (simp_all add: set_row_def)

lemma set_lease_simps [simp]:
  "tb_mounts (set_lease l tb) = tb_mounts tb" "tb_receipts (set_lease l tb) = tb_receipts tb"
  "tb_merkle_next (set_lease l tb) = tb_merkle_next tb" "tb_events (set_lease l tb) = tb_events tb"
  "tb_consumed (set_lease l tb) = tb_consumed tb" "tb_redeemed (set_lease l tb) = tb_redeemed tb"
  "tb_audit (set_lease l tb) = tb_audit tb" "row_of mid (set_lease l tb) = row_of mid tb"
  by (simp_all add: set_lease_def row_of_def)

text \<open>Anchoring and the audit sink touch only the audit table.\<close>

definition audit_only :: "tables \<Rightarrow> tables \<Rightarrow> bool" where
  "audit_only a b \<longleftrightarrow> b = a\<lparr>tb_audit := tb_audit b\<rparr>"

lemma audit_only_refl [simp]: "audit_only a a"
  by (simp add: audit_only_def)

lemma audit_only_trans: "audit_only a b \<Longrightarrow> audit_only b c \<Longrightarrow> audit_only a c"
  unfolding audit_only_def by (metis (no_types, lifting) tables.surjective tables.update_convs(8))

lemma audit_onlyD:
  assumes "audit_only a b"
  shows "tb_mounts b = tb_mounts a" "tb_leases b = tb_leases a" "tb_receipts b = tb_receipts a"
    "tb_merkle_next b = tb_merkle_next a" "tb_events b = tb_events a" "tb_consumed b = tb_consumed a"
    "tb_redeemed b = tb_redeemed a" "row_of mid b = row_of mid a" "lease_of mid b = lease_of mid a"
proof -
  have b: "b = a\<lparr>tb_audit := tb_audit b\<rparr>" using assms by (simp add: audit_only_def)
  show "tb_mounts b = tb_mounts a" "tb_leases b = tb_leases a" "tb_receipts b = tb_receipts a"
    "tb_merkle_next b = tb_merkle_next a" "tb_events b = tb_events a" "tb_consumed b = tb_consumed a"
    "tb_redeemed b = tb_redeemed a" by (subst b, simp)+
  then show "row_of mid b = row_of mid a" "lease_of mid b = lease_of mid a"
    by (simp_all add: row_of_def lease_of_def)
qed

lemma call_anchor_audit_only: "call_anchor w i q tb = (tb', r) \<Longrightarrow> audit_only tb tb'"
  by (auto simp: call_anchor_def audit_only_def split: prod.splits)

lemma sink_append_audit_only: "audit_only tb (sink_append w i ws es tb)"
proof (induction es arbitrary: i tb)
  case (Cons e es)
  have "audit_only tb (tb\<lparr>tb_audit := x\<rparr>)" for x by (simp add: audit_only_def)
  then show ?case using Cons audit_only_trans by (simp, blast)
qed simp

lemma sink_new_audit_only: "audit_only tb (sink_new w i row b b' tb)"
  by (simp add: sink_new_def sink_append_audit_only)

end
