(* ===== verification/Mount_Lifecycle.thy ===== *)
theory Mount_Lifecycle
  imports Mount_Store
begin

text \<open>
  The consequence callbacks and the life of a mount in \<open>capability_mount/service.py\<close>: the
  \<open>AUTHORIZED\<close> row of the evaluator, the start fence \<open>begin_consequence\<close>, the outcome report
  \<open>completion_reporter\<close>, start claims, termination with its settling of operations in flight,
  epoch advance, incarnation handover and redemption. Reads that the code makes without a row lock
  take the event table they saw as a separate argument \<open>seen\<close>, which may be older than the
  table at commit. The lemmas give, for each transaction, what it may change.
\<close>

subsection \<open>Authorized\<close>

definition authorized_event ::
  "world \<Rightarrow> mount_row \<Rightarrow> string \<Rightarrow> digest \<Rightarrow> string \<Rightarrow> string \<Rightarrow> (string \<times> json) list \<Rightarrow> cevent" where
  "authorized_event w row operation_id intent_hash receipt_id action kwargs =
    \<lparr>ce_event_id = ''evt_'' @ w_uid w 0, ce_operation_id = operation_id, ce_intent_hash = intent_hash,
     ce_state = CS_AUTHORIZED, ce_version = 0, ce_authority_epoch = Some (mr_authority_epoch row),
     ce_receipt_id = Some receipt_id, ce_mount_id = mt_id (mr_mount row),
     ce_execution_id = tk_execution_id (mr_token row), ce_principal = mr_owner_principal row, ce_action = action,
     ce_resource = kw_resource_text (py_str w) kwargs, ce_created_at = w_clk w 0,
     ce_completion_proof_type = None, ce_completion_proof_ref = None, ce_error_summary = None,
     ce_proof_subject_hash = Some (build_proof_subject_hash (w_sha w) operation_id intent_hash ''none''
       (cstate_value CS_AUTHORIZED) receipt_id
       (''authorize '' @ action @ '' on '' @
        (case map_of kwargs ''resource'' of None \<Rightarrow> ''*'' | Some v \<Rightarrow> py_str w v)))\<rparr>"

definition authorize_txn ::
  "world \<Rightarrow> mount_row \<Rightarrow> string \<Rightarrow> digest \<Rightarrow> string \<Rightarrow> string \<Rightarrow> (string \<times> json) list \<Rightarrow> tables \<Rightarrow> tables option" where
  "authorize_txn w row operation_id intent_hash receipt_id action kwargs tb =
    (case insert_events (tb_events tb) [authorized_event w row operation_id intent_hash receipt_id action kwargs] of
       None \<Rightarrow> None
     | Some evs \<Rightarrow> Some (tb\<lparr>tb_events := evs\<rparr>))"

subsection \<open>The start fence\<close>

datatype begun = Begun | Not_Begun | Refused string cevent

definition begin_refusal :: "mount_row option \<Rightarrow> cevent \<Rightarrow> string option" where
  "begin_refusal fence_row latest =
    (case fence_row of
       None \<Rightarrow> Some ''mount_terminated''
     | Some row \<Rightarrow>
         if mr_terminated row then Some ''mount_terminated''
         else if ce_authority_epoch latest \<noteq> None \<and> ce_authority_epoch latest \<noteq> Some (mr_authority_epoch row)
           then Some ''stale_authority_epoch''
         else None)"

definition fence_epoch :: "mount_row option \<Rightarrow> cevent \<Rightarrow> int option" where
  "fence_epoch fence_row latest =
    (case fence_row of None \<Rightarrow> ce_authority_epoch latest | Some row \<Rightarrow> Some (mr_authority_epoch row))"

definition on_resource :: "cevent \<Rightarrow> string" where
  "on_resource latest = ce_action latest @ '' on '' @ or_str (ce_resource latest) ''*''"

text \<open>The next event of an operation as the service writes it, and the two events of the fence.\<close>

definition advance_event ::
  "world \<Rightarrow> string \<Rightarrow> cevent \<Rightarrow> cstate \<Rightarrow> int option \<Rightarrow> string \<Rightarrow> string option \<Rightarrow> string \<Rightarrow> cevent" where
  "advance_event w operation_id latest st epoch ptype err proposition =
     next_event latest (''evt_'' @ w_uid w 0) st epoch (w_clk w 0) (Some ptype) None err
       (build_proof_subject_hash (w_sha w) operation_id (ce_intent_hash latest) (cstate_value (ce_state latest))
          (cstate_value st) (or_str (ce_receipt_id latest) ''unknown'') proposition)"

definition refusal_event :: "world \<Rightarrow> string \<Rightarrow> mount_row option \<Rightarrow> cevent \<Rightarrow> string \<Rightarrow> cevent" where
  "refusal_event w operation_id fence_row latest reason =
     advance_event w operation_id latest CS_FAILED (fence_epoch fence_row latest) ''fence_refusal'' (Some reason)
       (''failed '' @ on_resource latest @ '' with_proof fence_refusal ('' @ reason @ '')'')"

definition started_event :: "world \<Rightarrow> string \<Rightarrow> mount_row option \<Rightarrow> cevent \<Rightarrow> cevent" where
  "started_event w operation_id fence_row latest =
     advance_event w operation_id latest CS_STARTED (fence_epoch fence_row latest) ''optimistic_claim'' None
       (''execution_started '' @ on_resource latest)"

definition begin_txn :: "world \<Rightarrow> string \<Rightarrow> string \<Rightarrow> cevent list \<Rightarrow> tables \<Rightarrow> tables \<times> begun" where
  "begin_txn w mount_id operation_id seen tb =
    (let fence_row = row_of mount_id tb
     in case latest_event operation_id seen of
          None \<Rightarrow> (tb, Not_Begun)
        | Some latest \<Rightarrow>
            if ce_state latest \<noteq> CS_AUTHORIZED then (tb, Not_Begun)
            else (case begin_refusal fence_row latest of
              Some reason \<Rightarrow>
                ((case insert_events (tb_events tb) [refusal_event w operation_id fence_row latest reason] of
                    None \<Rightarrow> tb | Some evs \<Rightarrow> tb\<lparr>tb_events := evs\<rparr>), Refused reason latest)
            | None \<Rightarrow>
                (case insert_events (tb_events tb) [started_event w operation_id fence_row latest] of
                   None \<Rightarrow> (tb, Not_Begun)
                 | Some evs \<Rightarrow> (tb\<lparr>tb_events := evs\<rparr>, Begun))))"

text \<open>Evidence only: appended after the outcome has been committed, in a transaction of its own.\<close>

definition anchor_consequence_outcome ::
  "world \<Rightarrow> nat \<Rightarrow> string \<Rightarrow> mount \<Rightarrow> token \<Rightarrow> string \<Rightarrow> string option \<Rightarrow> string \<Rightarrow> decision \<Rightarrow> string \<Rightarrow> string \<Rightarrow> tables \<Rightarrow> tables" where
  "anchor_consequence_outcome w i outcome m t operation_id receipt_id action dec reason proof_type tb =
     fst (call_anchor w i \<lparr>aq_event_type = ''consequence_'' @ outcome, aq_action = action,
       aq_decision = decision_value dec, aq_reason = reason, aq_mount = Some m, aq_token = Some t,
       aq_operation_id = Some operation_id, aq_receipt_id = receipt_id, aq_consequence_state = Some outcome,
       aq_proof_type = Some proof_type\<rparr> tb)"

definition begin_consequence :: "world \<Rightarrow> mount \<Rightarrow> token \<Rightarrow> string \<Rightarrow> tables \<Rightarrow> tables \<times> claim" where
  "begin_consequence w m t operation_id tb =
    (case begin_txn w (mt_id m) operation_id (tb_events tb) tb of
       (tb', Begun) \<Rightarrow> (tb', Owned True)
     | (tb', Not_Begun) \<Rightarrow> (tb', Owned False)
     | (tb', Refused reason latest) \<Rightarrow>
         (anchor_consequence_outcome w 0 ''refused'' m t operation_id (ce_receipt_id latest) (ce_action latest) DENY
            reason ''fence_refusal'' tb', Claim_Policy (ExecutionTerminatedError reason)))"

subsection \<open>Outcome reports\<close>

definition report_target :: "cstate \<Rightarrow> bool \<Rightarrow> bool \<Rightarrow> string \<Rightarrow> cstate \<times> string" where
  "report_target latest_state succeeded outcome_uncertain proof_type =
    (if latest_state = CS_OUTCOME_UNKNOWN then
       (if outcome_uncertain then (CS_OUTCOME_UNKNOWN, ''outcome_uncertain'')
        else if succeeded then (CS_RECONCILED_SUCCEEDED, proof_type) else (CS_RECONCILED_FAILED, proof_type))
     else
       (if outcome_uncertain then (CS_OUTCOME_UNKNOWN, ''outcome_uncertain'')
        else if succeeded then (CS_SUCCEEDED, proof_type) else (CS_FAILED, proof_type)))"

definition certainty_level :: "string \<Rightarrow> nat" where
  "certainty_level pt =
    (case map_of [(''outcome_uncertain'', 0), (''optimistic_claim'', 1), (''callback_return'', 1),
        (''callback_exception'', 1), (''reconciliation_filesystem'', 2), (''reconciliation_db_query'', 2),
        (''reconciliation_api_query'', 2), (''cryptographic_receipt'', 3)] pt of
       None \<Rightarrow> 0 | Some n \<Rightarrow> n)"

fun state_certainty_requirement :: "cstate \<Rightarrow> nat" where
  "state_certainty_requirement CS_SUCCEEDED = 1"
| "state_certainty_requirement CS_FAILED = 1"
| "state_certainty_requirement CS_RECONCILED_SUCCEEDED = 2"
| "state_certainty_requirement CS_RECONCILED_FAILED = 2"
| "state_certainty_requirement _ = 0"

definition terminal_states :: "cstate set" where
  "terminal_states = {CS_SUCCEEDED, CS_FAILED, CS_RECONCILED_SUCCEEDED, CS_RECONCILED_FAILED}"

datatype reported = No_Record | Violation | Already_Terminal | Append_Failed | Reported cstate string cevent

definition outcome_event :: "world \<Rightarrow> string \<Rightarrow> cevent \<Rightarrow> cstate \<Rightarrow> string \<Rightarrow> string option \<Rightarrow> cevent" where
  "outcome_event w operation_id latest target pt err =
     advance_event w operation_id latest target (ce_authority_epoch latest) pt err
       (cstate_value target @ '' '' @ on_resource latest @ '' with_proof '' @ pt)"

definition report_txn ::
  "world \<Rightarrow> string \<Rightarrow> bool \<Rightarrow> string option \<Rightarrow> bool \<Rightarrow> string \<Rightarrow> cevent list \<Rightarrow> tables \<Rightarrow> tables \<times> reported" where
  "report_txn w operation_id succeeded error_summary outcome_uncertain proof_type seen tb =
    (case latest_event operation_id seen of
       None \<Rightarrow> (tb, No_Record)
     | Some latest \<Rightarrow>
         (case report_target (ce_state latest) succeeded outcome_uncertain proof_type of (target, pt) \<Rightarrow>
            if target \<noteq> ce_state latest \<and> target \<notin> allowed_transitions (ce_state latest) then (tb, Violation)
            else if ce_state latest \<in> terminal_states then (tb, Already_Terminal)
            else if state_certainty_requirement target > certainty_level pt then (tb, Violation)
            else (case insert_events (tb_events tb) [outcome_event w operation_id latest target pt error_summary] of
                    None \<Rightarrow> (tb, Append_Failed)
                  | Some evs \<Rightarrow> (tb\<lparr>tb_events := evs\<rparr>, Reported target pt latest))))"

definition completion_reporter ::
  "world \<Rightarrow> mount \<Rightarrow> token \<Rightarrow> string \<Rightarrow> bool \<Rightarrow> string option \<Rightarrow> bool \<Rightarrow> string \<Rightarrow> tables \<Rightarrow> tables" where
  "completion_reporter w m t operation_id succeeded error_summary outcome_uncertain proof_type tb =
    (case report_txn w operation_id succeeded error_summary outcome_uncertain proof_type (tb_events tb) tb of
       (tb', Reported target pt latest) \<Rightarrow>
         anchor_consequence_outcome w 0 (cstate_value target) m t operation_id (ce_receipt_id latest) (ce_action latest)
           ALLOW (or_str error_summary (cstate_value target)) pt tb'
     | (tb', _) \<Rightarrow> tb')"

subsection \<open>Start claims\<close>

definition claim_start ::
  "world \<Rightarrow> string \<Rightarrow> string \<Rightarrow> string \<Rightarrow> string \<Rightarrow> string \<Rightarrow> string option \<Rightarrow> tables \<Rightarrow> tables \<times> decision \<times> string" where
  "claim_start w mount_id token_id nonce operation_id owner_principal owner_workspace tb =
    (case row_of mount_id tb of
       None \<Rightarrow> (tb, DENY, ''unknown_mount'')
     | Some row \<Rightarrow>
         if \<not> owned_by row owner_principal owner_workspace then (tb, DENY, ''owner_mismatch'')
         else if mr_terminated row then (tb, DENY, ''terminated'')
         else if mr_expires_at row \<le> w_clk w 0 then (tb, DENY, ''expired'')
         else if mr_nonce_consumed row then (tb, DENY, ''token_replay'')
         else if token_id \<noteq> mr_token_id row \<or> nonce \<noteq> mr_token_nonce row then (tb, DENY, ''token_mismatch'')
         else if mr_start_claim_operation_id row = Some operation_id then (tb, ALLOW, ''start_claim_replayed'')
         else if mr_start_claim_operation_id row \<noteq> None then (tb, DENY, ''start_already_claimed'')
         else (set_row (row\<lparr>mr_start_claim_operation_id := Some operation_id, mr_start_claimed_at := Some (w_clk w 1)\<rparr>) tb,
               ALLOW, ''start_claimed''))"

subsection \<open>Termination\<close>

definition in_flight_states :: "cstate set" where
  "in_flight_states = {CS_AUTHORIZED, CS_STARTED}"

definition in_flight_operations :: "string \<Rightarrow> cevent list \<Rightarrow> string list" where
  "in_flight_operations mount_id evs =
    (let rows = filter (\<lambda>e. ce_mount_id e = mount_id) evs
     in sort (filter (\<lambda>op. case latest_event op rows of None \<Rightarrow> False | Some e \<Rightarrow> ce_state e \<in> in_flight_states)
          (remdups (map ce_operation_id rows))))"

text \<open>
  Polling: the event table of the first poll and those of the later polls, the last one at the
  deadline.
\<close>

fun settle_in_flight :: "string \<Rightarrow> cevent list \<Rightarrow> cevent list list \<Rightarrow> string list" where
  "settle_in_flight mount_id now [] = in_flight_operations mount_id now"
| "settle_in_flight mount_id now (next # polls) =
     (if in_flight_operations mount_id now = [] then [] else settle_in_flight mount_id next polls)"

definition payload_text :: "json \<Rightarrow> string \<Rightarrow> string option" where
  "payload_text payload k = (case payload of JObj kvs \<Rightarrow>
      (case map_of kvs k of Some (JStr s) \<Rightarrow> Some s | _ \<Rightarrow> None) | _ \<Rightarrow> None)"

definition termination_evidence :: "string \<Rightarrow> audit_event \<Rightarrow> anchor_result option" where
  "termination_evidence mount_id event =
    (let payload = ae_payload event
     in if payload_text payload ''mount_id'' \<noteq> Some mount_id then None
        else if ae_operation_type event = ''capability_mount_terminate_anchor'' \<and> truthy (payload_text payload ''pgl_event_hash'')
          then Some \<lparr>an_status = ''confirmed'', an_anchor_id = payload_text payload ''log_hash'',
                 an_detail = Some ''terminated earlier; anchor issued at that time'',
                 an_external_ref = payload_text payload ''pgl_event_hash''\<rparr>
        else if ae_operation_type event = ''capability_mount_terminate'' \<and>
                payload_text payload ''decision'' = Some (decision_value ALLOW)
          then Some \<lparr>an_status = ''confirmed_prior'', an_anchor_id = Some (ae_log_hash event),
                 an_detail = Some (''terminated earlier ('' @ (case payload_text payload ''reason'' of
                   None \<Rightarrow> ''None'' | Some r \<Rightarrow> r) @ ''); anchored at that time''), an_external_ref = None\<rparr>
        else None)"

definition stored_termination_anchor :: "string \<Rightarrow> audit_event list \<Rightarrow> anchor_result" where
  "stored_termination_anchor mount_id audit =
    (case List.map_filter (termination_evidence mount_id)
        (sort_key (\<lambda>e. - ae_created_at e)
          (filter (\<lambda>e. ae_operation_type e \<in> {''capability_mount_terminate_anchor'', ''capability_mount_terminate''}) audit)) of
       r # _ \<Rightarrow> r
     | [] \<Rightarrow> \<lparr>an_status = ''not_applicable'', an_anchor_id = None,
               an_detail = Some ''already terminated; no local termination event found'', an_external_ref = None\<rparr>)"

text \<open>
  \<open>lease.transition_state\<close> may raise; the session then rolls back. \<open>base\<close> is what the
  session has committed, \<open>cur\<close> its view with rows not committed yet.
\<close>

definition revoke_lease :: "string \<Rightarrow> tables \<Rightarrow> tables option" where
  "revoke_lease mount_id tb =
    (case lease_of mount_id tb of
       None \<Rightarrow> Some tb
     | Some l \<Rightarrow>
         if ls_lease_state l \<in> {LS_ISSUED, LS_ACTIVE} then
           (case transition_state l LS_REVOKED (max (ls_revocation_epoch l + 1) (ls_authority_epoch l)) of
              Inl _ \<Rightarrow> None
            | Inr l' \<Rightarrow> Some (set_lease l' tb))
         else Some tb)"

datatype terminated =
    Term_Denied string anchor_result
  | Term_Raised
  | Term_Prior anchor_result
  | Term_Now anchor_result

definition terminate_txn ::
  "world \<Rightarrow> string \<Rightarrow> unmount_reason \<Rightarrow> string \<Rightarrow> string option \<Rightarrow> string set \<Rightarrow> tables \<Rightarrow> tables \<Rightarrow>
   tables \<times> string set \<times> terminated" where
  "terminate_txn w mount_id reason owner_principal owner_workspace revoked base cur =
    (let refuse = (\<lambda>why. case call_anchor w 0 (decision_request ''terminate'' ''execution'' DENY why None None) cur of
           (tb, r) \<Rightarrow> (tb, revoked, Term_Denied why r))
     in case row_of mount_id cur of
          None \<Rightarrow> refuse ''unknown_mount''
        | Some row \<Rightarrow>
            if \<not> owned_by row owner_principal owner_workspace then refuse ''owner_mismatch''
            else if mr_terminated row then (cur, revoked, Term_Prior (stored_termination_anchor mount_id (tb_audit cur)))
            else case call_anchor w 0 (decision_request ''terminate'' ''execution'' ALLOW (unmount_value reason)
                   (Some (mr_mount row)) (Some (row_token row))) cur of
              (tb, r) \<Rightarrow>
                if \<not> anchored r then (base, revoked, Term_Denied ''pgl_anchor_unconfirmed'' r)
                else
                  let row' = row\<lparr>mr_terminated := True, mr_authority_epoch := or_int (mr_authority_epoch row) 1 + 1\<rparr>
                  in case revoke_lease mount_id (set_row row' tb) of
                       None \<Rightarrow> (base, mark_mount_revoked mount_id revoked, Term_Raised)
                     | Some tb' \<Rightarrow> (tb', mark_mount_revoked mount_id revoked, Term_Now r))"

definition terminate_with_in_flight ::
  "world \<Rightarrow> string \<Rightarrow> unmount_reason \<Rightarrow> string \<Rightarrow> string option \<Rightarrow> cevent list list \<Rightarrow> string set \<Rightarrow> tables \<Rightarrow> tables \<Rightarrow>
   tables \<times> string set \<times> (exc + decision \<times> string \<times> anchor_result \<times> string list)" where
  "terminate_with_in_flight w mount_id reason owner_principal owner_workspace polls revoked base cur =
    (case terminate_txn w mount_id reason owner_principal owner_workspace revoked base cur of (tb, revoked', r) \<Rightarrow>
      let in_flight = settle_in_flight mount_id (tb_events tb) polls
      in (tb, revoked',
          case r of
            Term_Denied why a \<Rightarrow> Inr (DENY, why, a, [])
          | Term_Raised \<Rightarrow> Inl \<lparr>ex_name = ''InvariantViolationError'', ex_text = [], ex_class = OtherExc\<rparr>
          | Term_Prior a \<Rightarrow> Inr (ALLOW, if in_flight \<noteq> [] then ''terminated_in_flight'' else ''already_terminated'', a, in_flight)
          | Term_Now a \<Rightarrow> Inr (ALLOW, if in_flight \<noteq> [] then ''terminated_in_flight'' else ''terminated'', a, in_flight)))"

subsection \<open>Epochs and incarnations\<close>

definition align_lease :: "string \<Rightarrow> int \<Rightarrow> tables \<Rightarrow> tables" where
  "align_lease mount_id new_epoch tb =
    (case lease_of mount_id tb of
       None \<Rightarrow> tb
     | Some l \<Rightarrow> if ls_authority_epoch l < new_epoch then set_lease (l\<lparr>ls_authority_epoch := new_epoch\<rparr>) tb else tb)"

text \<open>The checks both operations start with.\<close>

definition active_row :: "string \<Rightarrow> string \<Rightarrow> string option \<Rightarrow> string \<Rightarrow> tables \<Rightarrow> exc + mount_row" where
  "active_row mount_id owner_principal owner_workspace what tb =
    (case row_of mount_id tb of
       None \<Rightarrow> Inl (value_error (''unknown_mount: '' @ mount_id))
     | Some row \<Rightarrow>
         if \<not> owned_by row owner_principal owner_workspace then
           Inl \<lparr>ex_name = ''PermissionError'', ex_text = ''owner_mismatch'', ex_class = OtherExc\<rparr>
         else if mr_terminated row then
           Inl \<lparr>ex_name = ''RuntimeError'', ex_text = ''cannot '' @ what @ '' on terminated mount'', ex_class = OtherExc\<rparr>
         else Inr row)"

definition advance_epoch :: "string \<Rightarrow> string \<Rightarrow> string option \<Rightarrow> tables \<Rightarrow> tables \<times> (exc + int)" where
  "advance_epoch mount_id owner_principal owner_workspace tb =
    (case active_row mount_id owner_principal owner_workspace ''advance epoch'' tb of
       Inl e \<Rightarrow> (tb, Inl e)
     | Inr row \<Rightarrow>
         let new_epoch = or_int (mr_authority_epoch row) 1 + 1
         in (align_lease mount_id new_epoch (set_row (row\<lparr>mr_authority_epoch := new_epoch\<rparr>) tb), Inr new_epoch))"

record handover =
  ho_incarnation :: int
  ho_previous_authority_epoch :: int
  ho_authority_epoch :: int
  ho_token_id :: string
  ho_nonce :: string
  ho_previous_history_head :: digest
  ho_history_head :: digest
  ho_anchor_status :: string

definition genesis_head :: "(string \<Rightarrow> digest) \<Rightarrow> string \<Rightarrow> string \<Rightarrow> int \<Rightarrow> digest" where
  "genesis_head sha mount_id token_id epoch =
     sha (''genesis:'' @ mount_id @ '':'' @ token_id @ '':'' @ show_int epoch)"

definition next_head :: "(string \<Rightarrow> digest) \<Rightarrow> digest \<Rightarrow> string \<Rightarrow> int \<Rightarrow> int \<Rightarrow> string \<Rightarrow> string \<Rightarrow> digest" where
  "next_head sha previous mount_id previous_epoch new_epoch decision_hash token_id =
     sha (previous @ '':'' @ mount_id @ '':'' @ show_int previous_epoch @ ''->'' @ show_int new_epoch @ '':'' @
          decision_hash @ '':'' @ token_id)"

text \<open>The row of the next incarnation: a fresh token at the next epoch, its history head chained to the last.\<close>

definition previous_head :: "world \<Rightarrow> mount_row \<Rightarrow> digest" where
  "previous_head w row = or_str (mt_history_head (mr_mount row))
     (genesis_head (w_sha w) (mr_mount_id row) (mr_token_id row) (or_int (mr_authority_epoch row) 1))"

definition handover_row :: "world \<Rightarrow> string \<Rightarrow> string \<Rightarrow> mount_row \<Rightarrow> mount_row" where
  "handover_row w decision_hash reason row =
    (let previous_epoch = or_int (mr_authority_epoch row) 1;
         new_epoch = previous_epoch + 1;
         m = mr_mount row;
         new_token_id = ''tok_'' @ w_uid w 0;
         new_nonce = w_uid w 1;
         new_head = next_head (w_sha w) (previous_head w row) (mr_mount_id row) previous_epoch new_epoch decision_hash new_token_id
     in row\<lparr>mr_authority_epoch := new_epoch, mr_token_id := new_token_id, mr_token_nonce := new_nonce,
            mr_nonce_consumed := False,
            mr_mount := m\<lparr>mt_incarnation := or_int (mt_incarnation m) 1 + 1, mt_previous_history_head := Some (previous_head w row),
              mt_history_head := Some new_head, mt_decision_hash := Some decision_hash, mt_handover_reason := Some reason\<rparr>,
            mr_token := (mr_token row)\<lparr>tk_token_id := new_token_id, tk_nonce := new_nonce\<rparr>\<rparr>)"

definition handover_incarnation ::
  "world \<Rightarrow> string \<Rightarrow> string \<Rightarrow> string \<Rightarrow> string \<Rightarrow> string option \<Rightarrow> tables \<Rightarrow> tables \<times> (exc + handover)" where
  "handover_incarnation w mount_id decision_hash reason owner_principal owner_workspace tb =
    (case active_row mount_id owner_principal owner_workspace ''handover incarnation'' tb of
       Inl e \<Rightarrow> (tb, Inl e)
     | Inr row \<Rightarrow>
         let row' = handover_row w decision_hash reason row;
             (tb', r) = call_anchor w 0 (decision_request ''handover_incarnation'' ''handover'' ALLOW reason
                (Some (mr_mount row')) (Some (row_token row'))) (align_lease mount_id (mr_authority_epoch row') (set_row row' tb))
         in if token_taken mount_id (mr_token_id row') (mr_token_nonce row') tb then (tb, Inl integrity_error)
            else (tb', Inr \<lparr>ho_incarnation = mt_incarnation (mr_mount row'),
                    ho_previous_authority_epoch = or_int (mr_authority_epoch row) 1,
                    ho_authority_epoch = mr_authority_epoch row', ho_token_id = mr_token_id row', ho_nonce = mr_token_nonce row',
                    ho_previous_history_head = previous_head w row,
                    ho_history_head = the (mt_history_head (mr_mount row')), ho_anchor_status = an_status r\<rparr>))"

subsection \<open>Redemption\<close>

text \<open>
  \<open>pinned\<close> is the registered target's redemption key (\<open>None\<close> for an unregistered target or one
  without a key). The operation's mount is read first (\<open>seen\<close>), then everything is decided under
  the mount row lock with the event table \<open>seen'\<close>.
\<close>

datatype redeemed = Redeemed | Redeem_Refused string "mount_row option" | Redeem_Raised

definition redeem_decide ::
  "world \<Rightarrow> string \<Rightarrow> string \<Rightarrow> string \<Rightarrow> string \<Rightarrow> string \<Rightarrow> cevent list \<Rightarrow> mount_row \<Rightarrow> tables \<Rightarrow> tables \<times> redeemed" where
  "redeem_decide w key operation_id permit payload_sha256 sink_ref seen' row tb =
    (if mr_terminated row then (tb, Redeem_Refused ''mount_terminated'' (Some row))
     else if mr_expires_at row \<le> w_clk w 0 then (tb, Redeem_Refused ''mount_expired'' (Some row))
     else case latest_event operation_id seen' of
       None \<Rightarrow> (tb, Redeem_Raised)
     | Some latest \<Rightarrow>
         if ce_state latest \<noteq> CS_STARTED then
           (tb, Redeem_Refused (''operation_not_dispatched:'' @ cstate_value (ce_state latest)) (Some row))
         else if permit_matches (w_mac w) key permit operation_id (mr_mount_id row) (ce_receipt_id latest) payload_sha256 sink_ref
                   \<noteq> Some True then
           (tb, Redeem_Refused ''permit_mismatch'' (Some row))
         else if list_ex (\<lambda>r. rd_operation_id r = operation_id) (tb_redeemed tb) then
           (tb, Redeem_Refused ''already_redeemed'' (Some row))
         else
           (tb\<lparr>tb_redeemed := tb_redeemed tb @ [\<lparr>rd_operation_id = operation_id, rd_mount_id = mr_mount_id row,
              rd_receipt_id = ce_receipt_id latest, rd_payload_sha256 = payload_sha256, rd_sink_ref = Some sink_ref,
              rd_redeemed_at = w_clk w 1\<rparr>]\<rparr>, Redeemed))"

definition redeem_txn ::
  "world \<Rightarrow> (string \<Rightarrow> string option) \<Rightarrow> string \<Rightarrow> string \<Rightarrow> string \<Rightarrow> string option \<Rightarrow> string option \<Rightarrow> cevent list \<Rightarrow> cevent list \<Rightarrow>
   tables \<Rightarrow> tables \<times> redeemed" where
  "redeem_txn w pinned operation_id permit payload_sha256 sink_ref target_signature seen seen' tb =
    (let refuse = (\<lambda>reason. (tb, Redeem_Refused reason None))
     in case permit_key (w_sha w) (w_mac w) (w_settings w) of
          None \<Rightarrow> refuse ''permits_not_configured''
        | Some key \<Rightarrow>
            if \<not> truthy sink_ref then refuse ''target_identity_required''
            else if \<not> truthy (pinned (the sink_ref)) then refuse ''target_not_registered_for_redemption''
            else if \<not> w_signature_valid w (the (pinned (the sink_ref))) (or_str target_signature [])
                        (redeem_message (w_sha w) operation_id payload_sha256 permit (the sink_ref)) then
              refuse ''target_signature_invalid''
            else case latest_event operation_id seen of
              None \<Rightarrow> refuse ''unknown_operation''
            | Some first \<Rightarrow>
                if ce_mount_id first = [] then refuse ''unknown_operation''
                else (case row_of (ce_mount_id first) tb of
                        None \<Rightarrow> refuse ''unknown_mount''
                      | Some row \<Rightarrow> redeem_decide w key operation_id permit payload_sha256 (the sink_ref) seen' row tb))"

definition redeem_consequence ::
  "world \<Rightarrow> (string \<Rightarrow> string option) \<Rightarrow> string \<Rightarrow> string \<Rightarrow> string \<Rightarrow> string option \<Rightarrow> string option \<Rightarrow> tables \<Rightarrow>
   tables \<times> (exc + decision \<times> string)" where
  "redeem_consequence w pinned operation_id permit payload_sha256 sink_ref target_signature tb =
    (case redeem_txn w pinned operation_id permit payload_sha256 sink_ref target_signature (tb_events tb) (tb_events tb) tb of
       (tb', Redeemed) \<Rightarrow> (tb', Inr (ALLOW, ''redeemed''))
     | (tb', Redeem_Raised) \<Rightarrow> (tb', Inl \<lparr>ex_name = ''NoResultFound'', ex_text = [], ex_class = OtherExc\<rparr>)
     | (tb', Redeem_Refused reason None) \<Rightarrow> (tb', Inr (DENY, reason))
     | (tb', Redeem_Refused reason (Some row)) \<Rightarrow>
         (anchor_consequence_outcome w 0 ''redeem_refused'' (mr_mount row) (row_token row) operation_id None ''redeem'' DENY
            reason ''target_redemption'' tb', Inr (DENY, reason)))"

subsection \<open>What the event transactions append\<close>

lemma advance_event_follows:
  "event_step (ce_state l) st \<Longrightarrow> follows l (advance_event w op l st ep pt err q)"
  by (simp add: advance_event_def follows_next)

lemma advance_event_simps [simp]:
  "ce_state (advance_event w op l st ep pt err q) = st"
  "ce_authority_epoch (advance_event w op l st ep pt err q) = ep"
  "ce_operation_id (advance_event w op l st ep pt err q) = ce_operation_id l"
  "ce_mount_id (advance_event w op l st ep pt err q) = ce_mount_id l"
  "ce_version (advance_event w op l st ep pt err q) = Suc (ce_version l)"
  by (simp_all add: advance_event_def)

lemmas fence_events = refusal_event_def started_event_def outcome_event_def

lemma begin_txn_cases:
  assumes "begin_txn w mid op seen tb = (tb', r)"
  obtains (same) "tb' = tb" "r = Not_Begun"
  | (refused) l reason e where "latest_event op seen = Some l" "ce_state l = CS_AUTHORIZED"
      "begin_refusal (row_of mid tb) l = Some reason" "r = Refused reason l" "follows l e" "ce_state e = CS_FAILED"
      "tb' = tb \<or> \<not> event_conflict (tb_events tb) e \<and> tb' = tb\<lparr>tb_events := tb_events tb @ [e]\<rparr>"
  | (started) l e where "latest_event op seen = Some l" "ce_state l = CS_AUTHORIZED"
      "begin_refusal (row_of mid tb) l = None" "r = Begun" "follows l e" "ce_state e = CS_STARTED"
      "ce_authority_epoch e = fence_epoch (row_of mid tb) l"
      "\<not> event_conflict (tb_events tb) e" "tb' = tb\<lparr>tb_events := tb_events tb @ [e]\<rparr>"
proof (cases "latest_event op seen")
  case None
  then have "tb' = tb" "r = Not_Begun" using assms by (simp_all add: begin_txn_def)
  then show ?thesis by (rule same)
next
  case l: (Some l)
  let ?row = "row_of mid tb"
  show ?thesis
  proof (cases "ce_state l = CS_AUTHORIZED")
    case False
    then have "tb' = tb" "r = Not_Begun" using assms l by (simp_all add: begin_txn_def)
    then show ?thesis by (rule same)
  next
    case auth: True
    note b = assms [unfolded begin_txn_def Let_def l option.case auth]
    show ?thesis
    proof (cases "begin_refusal ?row l")
      case None
      let ?e = "started_event w op ?row l"
      have e: "follows l ?e" "ce_state ?e = CS_STARTED" "ce_authority_epoch ?e = fence_epoch ?row l"
        using auth by (simp_all add: started_event_def advance_event_follows)
      show ?thesis
      proof (cases "event_conflict (tb_events tb) ?e")
        case True
        then have "tb' = tb" "r = Not_Begun" using b None by simp_all
        then show ?thesis by (rule same)
      next
        case False
        then have "r = Begun" "tb' = tb\<lparr>tb_events := tb_events tb @ [?e]\<rparr>" using b None by simp_all
        then show ?thesis using started [OF l auth None _ e False] by blast
      qed
    next
      case (Some reason)
      let ?e = "refusal_event w op ?row l reason"
      have e: "follows l ?e" "ce_state ?e = CS_FAILED"
        using auth by (simp_all add: refusal_event_def advance_event_follows event_step_def)
      have "r = Refused reason l" using b Some by simp
      moreover have "tb' = tb \<or> \<not> event_conflict (tb_events tb) ?e \<and> tb' = tb\<lparr>tb_events := tb_events tb @ [?e]\<rparr>"
        using b Some by (cases "event_conflict (tb_events tb) ?e") simp_all
      ultimately show ?thesis using refused [OF l auth Some _ e] by blast
    qed
  qed
qed

lemma report_target_step:
  assumes "report_target s ok u pt = (t, pt')" "t = s \<or> t \<in> allowed_transitions s" "s \<notin> terminal_states"
  shows "event_step s t" "t \<noteq> CS_STARTED"
  using assms by (cases s; auto simp: report_target_def event_step_def terminal_states_def split: if_splits)+

lemma report_txn_cases:
  assumes "report_txn w op ok err u pt seen tb = (tb', r)"
  obtains (same) "tb' = tb" "\<And>t p l. r \<noteq> Reported t p l"
  | (appended) l t p where "latest_event op seen = Some l" "report_target (ce_state l) ok u pt = (t, p)"
      "event_step (ce_state l) t" "t \<noteq> CS_STARTED" "ce_state l \<notin> terminal_states"
      "state_certainty_requirement t \<le> certainty_level p"
      "\<not> event_conflict (tb_events tb) (outcome_event w op l t p err)"
      "tb' = tb\<lparr>tb_events := tb_events tb @ [outcome_event w op l t p err]\<rparr>" "r = Reported t p l"
proof (cases "latest_event op seen")
  case None
  then have "tb' = tb" "r = No_Record" using assms by (simp_all add: report_txn_def)
  then show ?thesis using same by simp
next
  case (Some l)
  obtain t p where tp: "report_target (ce_state l) ok u pt = (t, p)" by fastforce
  note r = assms [unfolded report_txn_def Some option.case tp prod.case]
  show ?thesis
  proof (cases "(t = ce_state l \<or> t \<in> allowed_transitions (ce_state l)) \<and> ce_state l \<notin> terminal_states \<and>
      state_certainty_requirement t \<le> certainty_level p \<and> \<not> event_conflict (tb_events tb) (outcome_event w op l t p err)")
    case True
    then have "r = Reported t p l" "tb' = tb\<lparr>tb_events := tb_events tb @ [outcome_event w op l t p err]\<rparr>"
      using r by auto
    then show ?thesis using appended [OF Some tp] report_target_step [OF tp] True by blast
  next
    case False
    then have "tb' = tb" "r \<in> {Violation, Already_Terminal, Append_Failed}" using r by (auto split: if_splits)
    then show ?thesis using same by auto
  qed
qed

lemma active_row_Inr:
  "active_row mid who ws what tb = Inr row \<longleftrightarrow> row_of mid tb = Some row \<and> owned_by row who ws \<and> \<not> mr_terminated row"
  by (auto simp: active_row_def split: option.splits if_splits)

end
