(* ===== verification/Mount_Decide.thy ===== *)
theory Mount_Decide
  imports Mount_Lifecycle
begin

text \<open>
  The two decisions of the mount service (\<open>capability_mount/service.py\<close>): \<open>request_mount\<close>, which
  mints a mount with its token, Biscuit and lease, and \<open>evaluate\<close>, which decides one action under
  the mount row lock, consumes the token and writes the receipt. \<open>evaluate\<close> returns the committed
  tables, the session's view (which holds the audit row appended after the commit), and the
  answer. The lemmas state what an \<open>ALLOW\<close> implies, that a token is allowed at most once, and that
  nothing is written when the ledger anchor is not confirmed.
\<close>

subsection \<open>Requesting a mount\<close>

record mount_request =
  rq_package_ref :: string
  rq_scope :: mount_scope
  rq_role :: string
  rq_policy :: "mount_policy option"
  rq_ttl_seconds :: int
  rq_owner_principal :: string
  rq_owner_workspace :: "string option"
  rq_execution_id :: "string option"
  rq_caller_spiffe_id :: "string option"
  rq_executor_spiffe_id :: "string option"
  rq_authority_evaluation :: "(decision \<times> string list) option"
  rq_substrate :: substrate_binding

definition unverified :: "string \<Rightarrow> bool" where
  "unverified who \<longleftrightarrow> who \<in> {[], ''auth-disabled'', ''legacy-unbound''}"

definition mint_of :: "package \<Rightarrow> token \<Rightarrow> string \<Rightarrow> string \<Rightarrow> mint_request" where
  "mint_of pkg tok caller executor =
    \<lparr>mq_caller_spiffe_id = caller, mq_executor_spiffe_id = Some executor, mq_capability_id = pk_id pkg,
     mq_reads = gr_reads (tk_grants tok), mq_writes = gr_writes (tk_grants tok), mq_execution_id = tk_execution_id tok,
     mq_ttl_seconds = tk_ttl_seconds tok, mq_resources = gr_resources (tk_grants tok),
     mq_revocation_scope = ''execution:'' @ tk_execution_id tok, mq_revocation_epoch = 0,
     mq_envelope_digest = gr_envelope_digest (tk_grants tok)\<rparr>"

definition new_row :: "mount_request \<Rightarrow> mount \<Rightarrow> token \<Rightarrow> digest \<Rightarrow> anchor_result \<Rightarrow> mount_row" where
  "new_row q m tok secret_hash r =
    \<lparr>mr_mount_id = mt_id m, mr_token_id = tk_token_id tok, mr_token_nonce = tk_nonce tok,
     mr_owner_principal = rq_owner_principal q,
     mr_owner_workspace = or_str (rq_owner_workspace q) (sc_workspace (rq_scope q)),
     mr_holder_secret_hash = Some secret_hash, mr_mount = m, mr_token = tok, mr_issued_at = tk_issued_at tok,
     mr_expires_at = tk_expires_at tok, mr_authority_epoch = 1, mr_terminated = False, mr_nonce_consumed = False,
     mr_anchor_status = an_status r, mr_anchor_id = an_anchor_id r, mr_anchor_detail = an_detail r,
     mr_start_claim_operation_id = None, mr_start_claimed_at = None\<rparr>"

definition new_lease :: "(string \<Rightarrow> digest) \<Rightarrow> package \<Rightarrow> mount \<Rightarrow> token \<Rightarrow> string \<Rightarrow> string \<Rightarrow> time \<Rightarrow> lease" where
  "new_lease sha pkg m tok caller executor now =
    (let g = tk_grants tok
     in \<lparr>ls_lease_id = ''lease_'' @ mt_id m, ls_mount_id = mt_id m, ls_capability_id = pk_id pkg, ls_policy_version = ''1.0'',
         ls_execution_identity = or_str (Some (tk_execution_id tok)) ''unknown'', ls_subject_spiffe_id = caller,
         ls_executor_spiffe_id = executor,
         ls_biscuit_hash = (if truthy (tk_biscuit_token tok) then sha (the (tk_biscuit_token tok)) else ''none''),
         ls_issued_at = tk_issued_at tok, ls_not_before = tk_issued_at tok, ls_expires_at = tk_expires_at tok,
         ls_lease_state = LS_ACTIVE, ls_lease_state_version = 1, ls_authority_epoch = 0, ls_revocation_epoch = 0,
         ls_revocation_scope = (if tk_execution_id tok \<noteq> [] then ''execution:'' @ tk_execution_id tok else ''workspace''),
         ls_delegation_depth = 0, ls_max_delegation_depth = 0,
         ls_allowed_actions = set (gr_reads g) \<union> set (gr_writes g) \<union> set (gr_external_send g),
         ls_allowed_resources = (if gr_resources g = [] then {''*''} else set (gr_resources g)),
         ls_offline_enabled = False, ls_maximum_offline_duration = 0, ls_offline_budget = 0, ls_offline_side_effect_limit = 0,
         ls_last_known_policy_epoch = 0, ls_last_known_revocation_epoch = 0, ls_reconciliation_required = False,
         ls_created_at = now, ls_updated_at = now\<rparr>)"

definition plain_anchor :: "string \<Rightarrow> string option \<Rightarrow> anchor_result" where
  "plain_anchor status detail = \<lparr>an_status = status, an_anchor_id = None, an_detail = detail, an_external_ref = None\<rparr>"

type_synonym mount_answer = "(mount \<times> token) option \<times> anchor_result \<times> string \<times> string option"

text \<open>The checks before the package is mounted: a refusal reason.\<close>

definition request_refusal :: "world \<Rightarrow> mount_request \<Rightarrow> string option" where
  "request_refusal w q =
    (case rq_authority_evaluation q of
       None \<Rightarrow> if w_packages w (rq_package_ref q) = None then Some ''unknown_package'' else None
     | Some (dec, permitted) \<Rightarrow>
         if dec = DENY then Some ''authority_denied''
         else if rq_package_ref q \<notin> set permitted then Some ''binding_mismatch''
         else if w_packages w (rq_package_ref q) = None then Some ''provider_disappeared''
         else None)"

definition request_mount :: "world \<Rightarrow> mount_request \<Rightarrow> tables \<Rightarrow> tables \<times> (exc + mount_answer)" where
  "request_mount w q tb =
    (case request_refusal w q of
       Some reason \<Rightarrow>
         (case call_anchor w 0 (decision_request ''mount'' ''mount'' DENY reason None None) tb of
            (tb', r) \<Rightarrow> (tb', Inr (None, r, reason, None)))
     | None \<Rightarrow>
         let pkg = the (w_packages w (rq_package_ref q))
         in case mounter_mount (w_sha w) (w_lax_bool w) (w_uid w) (w_uid w 3) (w_clk w 0) pkg (rq_scope q) (rq_policy q)
                 (rq_ttl_seconds q) (rq_role q) (rq_execution_id q) (rq_substrate q) of
              Inl ValidationError \<Rightarrow> (tb, Inl (value_error ''ValidationError''))
            | Inl (MountError msg) \<Rightarrow> (tb, Inr (None, plain_anchor ''not_applicable'' None, msg, None))
            | Inr (m0, t0) \<Rightarrow>
                let m = m0\<lparr>mt_incarnation := 1,
                          mt_history_head := Some (genesis_head (w_sha w) (mt_id m0) (tk_token_id t0) 1)\<rparr>;
                    caller = or_str (rq_caller_spiffe_id q) (rq_owner_principal q);
                    executor = or_str (rq_executor_spiffe_id q) (rq_owner_principal q)
                in if unverified caller \<or> unverified executor then
                     (tb, Inr (None, plain_anchor ''not_applicable'' (Some ''missing_verified_principal''),
                               ''missing_verified_principal'', None))
                   else case mint_biscuit_capability (w_build w) (mint_of pkg t0 caller executor) (w_clk w 1) of
                     None \<Rightarrow> (tb, Inl (value_error ''mint_biscuit_capability''))
                   | Some biscuit \<Rightarrow>
                       let t = t0\<lparr>tk_biscuit_token := Some biscuit\<rparr>;
                           (tb1, r) = call_anchor w 0 (decision_request ''mount'' ''mount'' ALLOW ''mounted'' (Some m) (Some t)) tb;
                           secret = w_uid w 4;
                           row = new_row q m t (w_sha w secret) r;
                           l = new_lease (w_sha w) pkg m t caller executor (w_clk w 2)
                       in if \<not> anchored r then (tb, Inr (None, r, ''pgl_anchor_unconfirmed'', None))
                          else if row_of (mt_id m) tb \<noteq> None \<or> token_taken (mt_id m) (tk_token_id t) (tk_nonce t) tb \<or>
                                  list_ex (\<lambda>l'. ls_lease_id l' = ls_lease_id l) (tb_leases tb) then
                            (tb, Inl integrity_error)
                          else
                            (tb1\<lparr>tb_mounts := tb_mounts tb1 @ [row], tb_leases := tb_leases tb1 @ [l]\<rparr>,
                             Inr (Some (m, t), r, ''mounted'', Some (''vlm_'' @ mt_id m @ ''.'' @ secret))))"

subsection \<open>Status\<close>

definition status :: "world \<Rightarrow> string \<Rightarrow> string \<Rightarrow> string option \<Rightarrow> tables \<Rightarrow> (mount \<times> token) option \<times> string" where
  "status w mount_id owner_principal owner_workspace tb =
    (case row_of mount_id tb of
       None \<Rightarrow> (None, ''unknown_mount'')
     | Some row \<Rightarrow>
         if \<not> owned_by row owner_principal owner_workspace then (None, ''owner_mismatch'')
         else (Some (mr_mount row, row_token row),
               if mr_terminated row then ''terminated''
               else if mr_expires_at row \<le> w_clk w 0 then ''expired'' else ''mounted''))"

subsection \<open>Evaluating an action\<close>

record action_request =
  qa_mount_id :: string
  qa_action :: string
  qa_resource :: "string option"
  qa_token_id :: string
  qa_nonce :: string
  qa_owner_principal :: string
  qa_owner_workspace :: "string option"
  qa_approval_token :: "string option"
  qa_suppression_evidence :: "string option"
  qa_spiffe :: "string \<Rightarrow> string option"
  qa_target_ref :: "string option"

text \<open>What the mount row, the receipts and the offline budget refuse.\<close>

definition row_refusal :: "world \<Rightarrow> mount_row \<Rightarrow> action_request \<Rightarrow> tables \<Rightarrow> string option" where
  "row_refusal w row q tb =
    (if mr_terminated row then Some ''terminated''
     else if mr_expires_at row \<le> w_clk w 0 then Some ''token_expired''
     else if mr_nonce_consumed row \<or> qa_token_id q \<noteq> mr_token_id row \<or> qa_nonce q \<noteq> mr_token_nonce row then
       Some (if mr_nonce_consumed row \<and> qa_token_id q = mr_token_id row \<and> qa_nonce q = mr_token_nonce row
             then ''token_replay'' else ''token_mismatch'')
     else if list_ex (\<lambda>r. ar_token_id r = qa_token_id q \<and> ar_decision r = ''allow'') (tb_receipts tb) then
       Some ''token_replay_receipt''
     else case lease_of (qa_mount_id q) tb of
       None \<Rightarrow> None
     | Some l \<Rightarrow> if ls_offline_enabled l \<and> ls_offline_budget l \<le> 0 then Some ''offline_budget_exhausted'' else None)"

text \<open>What the lease, the signed token and the package refuse.\<close>

definition package_authority :: "world \<Rightarrow> token \<Rightarrow> authority_context \<Rightarrow> authority_context" where
  "package_authority w t b =
    (case w_packages w (tk_package_ref t) of
       None \<Rightarrow> b
     | Some p \<Rightarrow> b\<lparr>ac_allowed_actions := set (pk_reads p) \<union> set (pk_writes p) \<union> set (pk_external_send_actions p),
                   ac_allowed_resources := {''*''}\<rparr>)"

definition biscuit_authority :: "world \<Rightarrow> token \<Rightarrow> authority_context option" where
  "biscuit_authority w t =
    (if truthy (tk_biscuit_token t) then extract_authority_context (w_parse w) (w_strptime w) (the (tk_biscuit_token t))
     else None)"

definition lease_refusal :: "world \<Rightarrow> mount_row \<Rightarrow> action_request \<Rightarrow> tables \<Rightarrow> string option" where
  "lease_refusal w row q tb =
    (case lease_of (qa_mount_id q) tb of
       None \<Rightarrow> None
     | Some l \<Rightarrow>
         (case biscuit_authority w (row_token row) of
            None \<Rightarrow> Some ''missing_cryptographic_authority''
          | Some b \<Rightarrow>
              (case evaluate_authority l (Some b) (package_authority w (row_token row) b) ONLINE (w_clk w 1) of
                 Inl _ \<Rightarrow> Some ''lease_invariant_violation''
               | Inr eff \<Rightarrow>
                   if qa_action q \<notin> ac_allowed_actions eff then Some ''lease_invariant_violation''
                   else if gr_resources (tk_grants (row_token row)) \<noteq> [] \<and> ''*'' \<in> ac_allowed_resources b then
                     Some ''resource_bound_not_signed''
                   else if \<not> resource_in (qa_resource q) (ac_allowed_resources eff) then Some ''resource_not_granted''
                   else None)))"

text \<open>One evidence gate: the refusal, or the evidence to consume.\<close>

definition evidence_gate ::
  "world \<Rightarrow> nat \<Rightarrow> evidence_kind \<Rightarrow> string option \<Rightarrow> string \<Rightarrow> string \<Rightarrow> mount_row \<Rightarrow> action_request \<Rightarrow> tables \<Rightarrow>
   string + verified_evidence" where
  "evidence_gate w i kind tok missing replayed row q tb =
    (case verify_evidence (w_sha w) (w_evidence w) (w_clk w i) tok kind (qa_owner_principal q) (mr_mount row)
        (qa_action q) (qa_nonce q) of
       Inl _ \<Rightarrow> Inl missing
     | Inr e \<Rightarrow> if list_ex (\<lambda>c. co_jti c = ve_jti e) (tb_consumed tb) then Inl replayed else Inr e)"

definition gate_evidence :: "world \<Rightarrow> mount_row \<Rightarrow> action_request \<Rightarrow> tables \<Rightarrow> string + verified_evidence list" where
  "gate_evidence w row q tb =
    (let g = tk_grants (row_token row); pol = tk_policy (row_token row);
         approval = (if qa_action q \<in> set (gr_external_send g) \<and> mp_require_human_approval_for_external_send pol
           then map_sum id (\<lambda>e. [e]) (evidence_gate w 2 Human_Approval (qa_approval_token q)
                  ''human_approval_not_verified'' ''human_approval_replayed'' row q tb)
           else Inr [])
     in case approval of
          Inl reason \<Rightarrow> Inl reason
        | Inr evs \<Rightarrow>
            if qa_action q \<in> set (gr_suppression_required g) \<and> mp_require_suppression_check pol
            then map_sum id (\<lambda>e. evs @ [e]) (evidence_gate w 3 Suppression_Check (qa_suppression_evidence q)
                   ''suppression_not_verified'' ''suppression_evidence_replayed'' row q tb)
            else Inr evs)"

text \<open>What the binding's profile and the evidence gates decide, with the binding's audit events.\<close>

definition profile_decision ::
  "world \<Rightarrow> string set \<Rightarrow> mount_row \<Rightarrow> action_request \<Rightarrow> tables \<Rightarrow> binding \<times> (string + verified_evidence list)" where
  "profile_decision w revoked row q tb =
    (let uid = (\<lambda>i. w_uid w (i + 4)); clk = (\<lambda>i. w_clk w (i + 4))
     in case check_live (w_sha w) uid clk revoked (row_binding row) of
          (b, Some (TokenExpiredError _)) \<Rightarrow> (b, Inl ''token_expired'')
        | (b, Some (ExecutionTerminatedError _)) \<Rightarrow> (b, Inl ''terminated'')
        | (b, Some e) \<Rightarrow> (b, Inl (policy_error_text e))
        | (b, None) \<Rightarrow>
            let g = tk_grants (row_token row);
                deny = (\<lambda>reason. (binding_append (w_sha w) (uid 1) (clk 2) (qa_action q) DENY reason b, Inl reason))
            in if \<not> profile_allows g (qa_action q) then
                 deny (if profile_is_blocked g (qa_action q) then ''blocked_action'' else ''not_in_capability_profile'')
               else if \<not> profile_covers_resource g (qa_resource q) then deny ''resource_not_granted''
               else case gate_evidence w row q tb of
                 Inl reason \<Rightarrow> deny reason
               | Inr evs \<Rightarrow> (b, Inr evs))"

text \<open>Expiry of the lease and the offline budget, which an allowed action spends.\<close>

definition lease_gate ::
  "world \<Rightarrow> action_request \<Rightarrow> (string + verified_evidence list) \<Rightarrow> tables \<Rightarrow> tables \<times> (string + verified_evidence list)" where
  "lease_gate w q dec tb =
    (case lease_of (qa_mount_id q) tb of
       None \<Rightarrow> (tb, dec)
     | Some l \<Rightarrow>
         if ls_expires_at l < w_clk w 9 then (tb, Inl ''lease_expired'')
         else (case dec of
           Inl reason \<Rightarrow> (tb, Inl reason)
         | Inr evs \<Rightarrow>
             if \<not> w_offline w then (tb, Inr evs)
             else if \<not> ls_offline_enabled l then (tb, Inl ''offline_execution_disabled'')
             else if ls_offline_budget l \<le> 0 then (tb, Inl ''offline_budget_exhausted'')
             else if ls_offline_side_effect_limit l \<le> 0 then (tb, Inl ''offline_side_effect_limit_exhausted'')
             else (set_lease (l\<lparr>ls_offline_budget := ls_offline_budget l - 1,
                               ls_offline_side_effect_limit := ls_offline_side_effect_limit l - 1\<rparr>) tb, Inr evs)))"

fun consume_evidence :: "time \<Rightarrow> string \<Rightarrow> string \<Rightarrow> verified_evidence list \<Rightarrow> consumption list \<Rightarrow> consumption list option" where
  "consume_evidence now mount_id action [] cs = Some cs"
| "consume_evidence now mount_id action (e # es) cs =
    (if list_ex (\<lambda>c. co_jti c = ve_jti e) cs then None
     else consume_evidence now mount_id action es
       (cs @ [\<lparr>co_jti = ve_jti e, co_kind = ve_kind e, co_mount_id = mount_id, co_action = action, co_consumed_at = now\<rparr>]))"

text \<open>\<open>strftime('%Y%m%d%H%M%S%f')\<close>.\<close>

definition compact_stamp :: "time \<Rightarrow> string" where
  "compact_stamp t =
    (let secs = t div 1000000; sod = secs mod 86400; (y, m, d) = civil_from_days (secs div 86400);
         two = (\<lambda>i. pad 2 (show_int i))
     in pad 4 (show_int y) @ two m @ two d @ two (sod div 3600) @ two (sod mod 3600 div 60) @ two (sod mod 60) @
        pad 6 (show_int (t mod 1000000)))"

definition new_receipt :: "world \<Rightarrow> mount_row \<Rightarrow> action_request \<Rightarrow> anchor_result \<Rightarrow> receipt" where
  "new_receipt w row q r =
    (let t = row_token row; sp = qa_spiffe q;
         unsigned = \<lparr>ar_receipt_id = ''rcpt_'' @ or_str (an_anchor_id r) (compact_stamp (w_clk w 11)),
           ar_execution_id = tk_execution_id t, ar_mount_id = qa_mount_id q, ar_token_id = tk_token_id t,
           ar_principal = qa_owner_principal q, ar_action = qa_action q, ar_resource = qa_resource q,
           ar_target_ref = qa_target_ref q, ar_envelope_digest = gr_envelope_digest (tk_grants t),
           ar_receipt_schema_version = Some RECEIPT_SCHEMA_V2, ar_decision = decision_value ALLOW, ar_reason = ''allowed'',
           ar_actioned_at = w_clk w 10, ar_caller_spiffe_id = sp ''caller_spiffe_id'',
           ar_executor_spiffe_id = sp ''executor_spiffe_id'', ar_eei_id = sp ''eei_id'', ar_profile_id = sp ''profile_id'',
           ar_lease_id = sp ''lease_id'', ar_operator_id = sp ''operator_id'',
           ar_caller_cert_sha256 = sp ''caller_cert_sha256'', ar_capability_id = Some (mt_package_ref (mr_mount row)),
           ar_trust_domain = sp ''trust_domain'', ar_svid_not_before = sp ''svid_not_before'',
           ar_svid_not_after = sp ''svid_not_after'', ar_policy_version = Some ''1.0'',
           ar_biscuit_token_sha256 = (if truthy (tk_biscuit_token t) then Some (w_sha w (the (tk_biscuit_token t))) else None),
           ar_signed_receipt_cose = None, ar_merkle_leaf_index = None, ar_content_hash = [],
           ar_pgl_anchor_id = an_anchor_id r, ar_pgl_anchor_status = Some (an_status r),
           ar_pgl_event_hash = an_external_ref r, ar_created_at = w_clk w 12\<rparr>;
         canonical = the (receipt_canonical unsigned)
     in unsigned\<lparr>ar_content_hash := sha256_json (w_sha w) canonical, ar_signed_receipt_cose := Some (w_sign w canonical)\<rparr>)"

text \<open>The writes of an allowed action: token, evidence, receipt and leaf position in one commit.\<close>

definition allow_commit ::
  "world \<Rightarrow> mount_row \<Rightarrow> action_request \<Rightarrow> verified_evidence list \<Rightarrow> anchor_result \<Rightarrow> tables \<Rightarrow> (tables \<times> receipt) option" where
  "allow_commit w row q evs r tb =
    (case consume_evidence (w_clk w 12) (qa_mount_id q) (qa_action q) evs (tb_consumed tb) of
       None \<Rightarrow> None
     | Some consumed \<Rightarrow>
         if list_ex (\<lambda>x. ar_receipt_id x = ar_receipt_id (new_receipt w row q r)) (tb_receipts tb) then None
         else (case assign_merkle_leaf_index (tb_merkle_next tb) (new_receipt w row q r) of
           None \<Rightarrow> None
         | Some (rc, nxt) \<Rightarrow>
             Some ((set_row (row\<lparr>mr_nonce_consumed := True\<rparr>) tb)\<lparr>tb_consumed := consumed,
                     tb_receipts := tb_receipts tb @ [rc], tb_merkle_next := nxt\<rparr>, rc)))"

record action_detail =
  dt_decision :: decision
  dt_reason :: string
  dt_receipt_id :: "string option"

type_synonym action_answer = "decision \<times> string \<times> anchor_result \<times> action_detail option"

definition evaluate ::
  "world \<Rightarrow> string set \<Rightarrow> action_request \<Rightarrow> tables \<Rightarrow> tables \<times> tables \<times> (exc + action_answer)" where
  "evaluate w revoked q tb =
    (let refuse = (\<lambda>reason m t. case call_anchor w 0 (decision_request ''action_decision'' (qa_action q) DENY reason m t) tb of
           (tb', r) \<Rightarrow> (tb', tb', Inr (DENY, reason, r, None)))
     in case row_of (qa_mount_id q) tb of
          None \<Rightarrow> refuse ''unknown_mount'' None None
        | Some row \<Rightarrow>
            if \<not> owned_by row (qa_owner_principal q) (qa_owner_workspace q) then refuse ''owner_mismatch'' None None
            else case row_refusal w row q tb of
              Some reason \<Rightarrow> refuse reason (Some (mr_mount row)) (Some (row_token row))
            | None \<Rightarrow>
                (case lease_refusal w row q tb of
                   Some reason \<Rightarrow> refuse reason (Some (mr_mount row)) (Some (row_token row))
                 | None \<Rightarrow>
                     let (b, dec) = profile_decision w revoked row q tb;
                         (tb1, dec1) = lease_gate w q dec (sink_new w 13 row (row_binding row) b tb)
                     in (case dec1 of
                           Inl reason \<Rightarrow>
                             (case call_anchor w 0 (decision_request ''action_decision'' (qa_action q) DENY reason
                                 (Some (mr_mount row)) (Some (row_token row))) tb1 of
                                (tb2, r) \<Rightarrow> (tb2, tb2, Inr (DENY, reason, r,
                                   Some \<lparr>dt_decision = DENY, dt_reason = reason, dt_receipt_id = None\<rparr>)))
                         | Inr evs \<Rightarrow>
                             (case call_anchor w 0 (decision_request ''action_decision'' (qa_action q) ALLOW ''allowed''
                                 (Some (mr_mount row)) (Some (row_token row))) tb1 of
                                (tb2, r) \<Rightarrow>
                                  if \<not> anchored r then (tb, tb, Inr (DENY, ''pgl_anchor_unconfirmed'', r, None))
                                  else (case allow_commit w row q evs r tb2 of
                                    None \<Rightarrow> (tb, tb, Inl integrity_error)
                                  | Some (tb3, rc) \<Rightarrow>
                                      let b' = binding_append (w_sha w) (w_uid w 10) (w_clk w 14) (qa_action q) ALLOW ''allowed'' b
                                      in (tb3, sink_new w 15 row b b' tb3,
                                          Inr (ALLOW, ''allowed'', r, Some \<lparr>dt_decision = ALLOW, dt_reason = ''allowed'',
                                            dt_receipt_id = Some (ar_receipt_id rc)\<rparr>)))))))"

subsection \<open>What a decision changes\<close>

lemma lease_gate_Inl: "lease_gate w q dec tb = (tb', Inl reason) \<Longrightarrow> tb' = tb"
  by (auto simp: lease_gate_def split: option.splits if_splits sum.splits)

lemma lease_gate_Inr:
  assumes "lease_gate w q dec tb = (tb', Inr evs)"
  shows "dec = Inr evs" "\<And>l. lease_of (qa_mount_id q) tb = Some l \<Longrightarrow> w_clk w 9 \<le> ls_expires_at l"
    "tb' = tb \<or> (\<exists>l. tb' = set_lease l tb)"
  using assms by (auto simp: lease_gate_def split: option.splits if_splits sum.splits)

lemma evaluate_result:
  assumes "evaluate w revoked q tb = (tb', cur, ans)"
  obtains (refused) "audit_only tb tb'" "audit_only tb' cur" "\<And>reason r d. ans \<noteq> Inr (ALLOW, reason, r, d)"
  | (allowed) row b evs tb1 tb2 r rc where
      "row_of (qa_mount_id q) tb = Some row" "owned_by row (qa_owner_principal q) (qa_owner_workspace q)"
      "row_refusal w row q tb = None" "lease_refusal w row q tb = None"
      "profile_decision w revoked row q tb = (b, Inr evs)"
      "lease_gate w q (Inr evs) (sink_new w 13 row (row_binding row) b tb) = (tb1, Inr evs)"
      "call_anchor w 0 (decision_request ''action_decision'' (qa_action q) ALLOW ''allowed''
         (Some (mr_mount row)) (Some (row_token row))) tb1 = (tb2, r)"
      "anchored r" "allow_commit w row q evs r tb2 = Some (tb', rc)" "audit_only tb' cur"
      "ans = Inr (ALLOW, ''allowed'', r, Some \<lparr>dt_decision = ALLOW, dt_reason = ''allowed'',
         dt_receipt_id = Some (ar_receipt_id rc)\<rparr>)"
proof -
  have deny: thesis if "(case call_anchor w 0 (decision_request ''action_decision'' (qa_action q) DENY reason m t) tb0 of
      (tb'', r) \<Rightarrow> (tb'', tb'', Inr (DENY, reason, r, d))) = (tb', cur, ans)" "audit_only tb tb0" for reason m t d tb0
    using that refused call_anchor_audit_only audit_only_trans
    by (cases "call_anchor w 0 (decision_request ''action_decision'' (qa_action q) DENY reason m t) tb0") fastforce
  note ev = assms [unfolded evaluate_def Let_def]
  show thesis
  proof (cases "row_of (qa_mount_id q) tb")
    case None
    then show ?thesis using ev deny by simp
  next
    case row: (Some row)
    show ?thesis
    proof (cases "owned_by row (qa_owner_principal q) (qa_owner_workspace q)")
      case False
      then show ?thesis using ev row deny by simp
    next
      case owned: True
      show ?thesis
      proof (cases "row_refusal w row q tb")
        case (Some reason)
        then show ?thesis using ev row owned deny by simp
      next
        case rr: None
        show ?thesis
        proof (cases "lease_refusal w row q tb")
          case (Some reason)
          then show ?thesis using ev row owned rr deny by simp
        next
          case lr: None
          obtain b dec where pd: "profile_decision w revoked row q tb = (b, dec)" by fastforce
          let ?tb0 = "sink_new w 13 row (row_binding row) b tb"
          obtain tb1 dec1 where lg: "lease_gate w q dec ?tb0 = (tb1, dec1)" by fastforce
          note ev1 = ev [simplified row rr lr pd lg owned option.case prod.case not_True_eq_False if_False]
          show ?thesis
          proof (cases dec1)
            case (Inl reason)
            then have "audit_only tb tb1" using lg lease_gate_Inl sink_new_audit_only by (metis)
            then show ?thesis using ev1 Inl deny by simp
          next
            case (Inr evs)
            note dec = lease_gate_Inr(1) [OF lg [unfolded Inr]]
            obtain tb2 r where an: "call_anchor w 0 (decision_request ''action_decision'' (qa_action q) ALLOW ''allowed''
                (Some (mr_mount row)) (Some (row_token row))) tb1 = (tb2, r)" by fastforce
            show ?thesis
            proof (cases "anchored r")
              case False
              then show ?thesis using ev1 an Inr refused by auto
            next
              case True
              show ?thesis
              proof (cases "allow_commit w row q evs r tb2")
                case None
                then show ?thesis using ev1 an Inr True refused by auto
              next
                case (Some p)
                obtain tb3 rc where p: "p = (tb3, rc)" by fastforce
                show ?thesis
                  using allowed [OF row owned rr lr pd [unfolded dec] lg [unfolded dec Inr] an True]
                    ev1 an Inr True Some p sink_new_audit_only by auto
              qed
            qed
          qed
        qed
      qed
    qed
  qed
qed

lemma allow_commit_Some:
  assumes "allow_commit w row q evs r tb = Some (tb', rc)"
  obtains consumed nxt where
    "consume_evidence (w_clk w 12) (qa_mount_id q) (qa_action q) evs (tb_consumed tb) = Some consumed"
    "ar_receipt_id rc = ar_receipt_id (new_receipt w row q r)" "ar_receipt_id rc \<notin> ar_receipt_id ` set (tb_receipts tb)"
    "assign_merkle_leaf_index (tb_merkle_next tb) (new_receipt w row q r) = Some (rc, nxt)"
    "tb' = (set_row (row\<lparr>mr_nonce_consumed := True\<rparr>) tb)\<lparr>tb_consumed := consumed,
       tb_receipts := tb_receipts tb @ [rc], tb_merkle_next := nxt\<rparr>"
proof -
  obtain consumed where c: "consume_evidence (w_clk w 12) (qa_mount_id q) (qa_action q) evs (tb_consumed tb) = Some consumed"
    using assms by (cases "consume_evidence (w_clk w 12) (qa_mount_id q) (qa_action q) evs (tb_consumed tb)")
      (auto simp: allow_commit_def)
  obtain nxt where a: "assign_merkle_leaf_index (tb_merkle_next tb) (new_receipt w row q r) = Some (rc, nxt)"
    and n: "\<not> list_ex (\<lambda>x. ar_receipt_id x = ar_receipt_id (new_receipt w row q r)) (tb_receipts tb)"
    and t: "tb' = (set_row (row\<lparr>mr_nonce_consumed := True\<rparr>) tb)\<lparr>tb_consumed := consumed,
       tb_receipts := tb_receipts tb @ [rc], tb_merkle_next := nxt\<rparr>"
    using assms c by (auto simp: allow_commit_def split: if_splits option.splits)
  have "ar_receipt_id rc = ar_receipt_id (new_receipt w row q r)"
    using a by (auto simp: assign_merkle_leaf_index_def Let_def split: if_splits option.splits)
  with n have "ar_receipt_id rc \<notin> ar_receipt_id ` set (tb_receipts tb)" by (auto simp: list_ex_iff)
  then show thesis using that c a t \<open>ar_receipt_id rc = _\<close> by blast
qed

end
