(* ===== verification/Mount_System.thy ===== *)
theory Mount_System
  imports Mount_Decide
begin

text \<open>
  The mount service as a system of transactions. \<open>tables_ok\<close> is the invariant of the tables and
  \<open>tables_le\<close> the order in which they grow: rows persist, epochs do not fall, a terminated row
  stays as it is, the other tables only extend, and no event or row that presupposes a live
  mount is added for a terminated one. \<open>mount_step\<close> has one rule per transaction of
  \<open>capability_mount/service.py\<close>, with reads made outside the row lock as old snapshots; every
  step keeps both. The properties are those that hold over any interleaving of the transactions.
\<close>

subsection \<open>Invariant and order\<close>

definition row_ok :: "mount_row \<Rightarrow> bool" where
  "row_ok row \<longleftrightarrow> mt_id (mr_mount row) = mr_mount_id row \<and> tk_token_id (mr_token row) = mr_token_id row \<and>
     tk_nonce (mr_token row) = mr_token_nonce row \<and> 1 \<le> mr_authority_epoch row"

definition allow_receipts :: "string \<Rightarrow> tables \<Rightarrow> receipt list" where
  "allow_receipts token_id tb =
     filter (\<lambda>r. ar_token_id r = token_id \<and> ar_decision r = ''allow'') (tb_receipts tb)"

text \<open>Leaf positions are distinct, below the counter and in append order; every receipt is signed.\<close>

definition log_ok :: "receipt list \<Rightarrow> int option \<Rightarrow> bool" where
  "log_ok rows nxt \<longleftrightarrow> leaves_ok rows nxt \<and> sorted (leaf_positions rows) \<and>
     list_all (\<lambda>r. ar_signed_receipt_cose r \<noteq> None) rows"

definition tables_ok :: "tables \<Rightarrow> bool" where
  "tables_ok tb \<longleftrightarrow> distinct (map mr_mount_id (tb_mounts tb)) \<and> list_all row_ok (tb_mounts tb) \<and>
     events_wf (tb_events tb) \<and> (\<forall>t. length (allow_receipts t tb) \<le> 1) \<and>
     distinct (map ar_receipt_id (tb_receipts tb)) \<and> distinct (map co_jti (tb_consumed tb)) \<and>
     distinct (map rd_operation_id (tb_redeemed tb)) \<and> log_ok (tb_receipts tb) (tb_merkle_next tb)"

definition dead :: "string \<Rightarrow> tables \<Rightarrow> bool" where
  "dead mid tb \<longleftrightarrow> (\<exists>row. row_of mid tb = Some row \<and> mr_terminated row)"

definition row_le :: "mount_row \<Rightarrow> mount_row \<Rightarrow> bool" where
  "row_le a b \<longleftrightarrow> mr_authority_epoch a \<le> mr_authority_epoch b \<and> (mr_terminated a \<longrightarrow> b = a)"

definition rows_le :: "tables \<Rightarrow> tables \<Rightarrow> bool" where
  "rows_le a b \<longleftrightarrow> (\<forall>mid row. row_of mid a = Some row \<longrightarrow> (\<exists>row'. row_of mid b = Some row' \<and> row_le row row'))"

text \<open>\<open>ys\<close> extends \<open>xs\<close> by elements that satisfy \<open>p\<close>.\<close>

definition grows :: "('a \<Rightarrow> bool) \<Rightarrow> 'a list \<Rightarrow> 'a list \<Rightarrow> bool" where
  "grows p xs ys \<longleftrightarrow> (\<exists>zs. ys = xs @ zs \<and> list_all p zs)"

definition tables_le :: "tables \<Rightarrow> tables \<Rightarrow> bool" where
  "tables_le a b \<longleftrightarrow> rows_le a b \<and>
     grows (\<lambda>e. ce_state e = CS_STARTED \<longrightarrow> \<not> dead (ce_mount_id e) a) (tb_events a) (tb_events b) \<and>
     grows (\<lambda>r. \<not> dead (ar_mount_id r) a) (tb_receipts a) (tb_receipts b) \<and>
     grows (\<lambda>c. \<not> dead (co_mount_id c) a) (tb_consumed a) (tb_consumed b) \<and>
     grows (\<lambda>r. \<not> dead (rd_mount_id r) a) (tb_redeemed a) (tb_redeemed b)"

lemma grows_refl [simp]: "grows p xs xs"
  by (simp add: grows_def)

lemma grows_append [simp]: "grows p xs (xs @ ys) \<longleftrightarrow> list_all p ys"
  by (simp add: grows_def)

lemma grows_trans: "grows p xs ys \<Longrightarrow> grows q ys zs \<Longrightarrow> (\<And>x. q x \<Longrightarrow> p x) \<Longrightarrow> grows p xs zs"
  by (fastforce simp: grows_def list_all_iff)

lemma rows_le_refl [simp]: "rows_le a a"
  by (simp add: rows_le_def row_le_def)

lemma rows_le_trans: "rows_le a b \<Longrightarrow> rows_le b c \<Longrightarrow> rows_le a c"
  unfolding rows_le_def row_le_def by (metis order_trans)

lemma rows_le_dead: "rows_le a b \<Longrightarrow> dead mid a \<Longrightarrow> dead mid b"
  unfolding rows_le_def dead_def row_le_def by metis

lemma tables_le_refl [simp]: "tables_le a a"
  by (simp add: tables_le_def)

lemma tables_le_trans: "tables_le a b \<Longrightarrow> tables_le b c \<Longrightarrow> tables_le a c"
  unfolding tables_le_def using rows_le_dead [of a b]
  by (elim conjE, intro conjI) (blast intro: rows_le_trans, (erule (1) grows_trans, blast)+)

text \<open>A terminated mount's row, and what presupposes a live mount, do not change any more.\<close>

lemma tables_le_dead:
  assumes "tables_le a b" "row_of mid a = Some row" "mr_terminated row"
  shows "row_of mid b = Some row"
    "filter (\<lambda>r. ar_mount_id r = mid) (tb_receipts b) = filter (\<lambda>r. ar_mount_id r = mid) (tb_receipts a)"
    "filter (\<lambda>c. co_mount_id c = mid) (tb_consumed b) = filter (\<lambda>c. co_mount_id c = mid) (tb_consumed a)"
    "filter (\<lambda>r. rd_mount_id r = mid) (tb_redeemed b) = filter (\<lambda>r. rd_mount_id r = mid) (tb_redeemed a)"
    "filter (\<lambda>e. ce_mount_id e = mid \<and> ce_state e = CS_STARTED) (tb_events b) =
     filter (\<lambda>e. ce_mount_id e = mid \<and> ce_state e = CS_STARTED) (tb_events a)"
proof -
  have dead: "dead mid a" using assms by (auto simp: dead_def)
  have stay: "filter q ys = filter q xs" if "grows p xs ys" "\<And>x. p x \<Longrightarrow> \<not> q x" for p q and xs ys :: "'x list"
    using that by (auto simp: grows_def list_all_iff filter_empty_conv)
  show "row_of mid b = Some row"
    using assms unfolding tables_le_def rows_le_def row_le_def by metis
  show "filter (\<lambda>r. ar_mount_id r = mid) (tb_receipts b) = filter (\<lambda>r. ar_mount_id r = mid) (tb_receipts a)"
    "filter (\<lambda>c. co_mount_id c = mid) (tb_consumed b) = filter (\<lambda>c. co_mount_id c = mid) (tb_consumed a)"
    "filter (\<lambda>r. rd_mount_id r = mid) (tb_redeemed b) = filter (\<lambda>r. rd_mount_id r = mid) (tb_redeemed a)"
    "filter (\<lambda>e. ce_mount_id e = mid \<and> ce_state e = CS_STARTED) (tb_events b) =
     filter (\<lambda>e. ce_mount_id e = mid \<and> ce_state e = CS_STARTED) (tb_events a)"
    using assms(1) dead unfolding tables_le_def by (blast intro: stay)+
qed

subsection \<open>Elementary changes\<close>

text \<open>What every transaction is shown to do.\<close>

definition keeps :: "tables \<Rightarrow> tables \<Rightarrow> bool" where
  "keeps a b \<longleftrightarrow> (tables_ok a \<longrightarrow> tables_ok b \<and> tables_le a b)"

lemma keeps_refl [simp, inv_intros]: "keeps a a"
  by (simp add: keeps_def)

lemma keeps_trans: "keeps a b \<Longrightarrow> keeps b c \<Longrightarrow> keeps a c"
  using tables_le_trans by (auto simp: keeps_def)

lemma keeps_same:
  assumes "tb_mounts b = tb_mounts a" "tb_events b = tb_events a" "tb_receipts b = tb_receipts a"
    "tb_consumed b = tb_consumed a" "tb_redeemed b = tb_redeemed a" "tb_merkle_next b = tb_merkle_next a"
  shows "keeps a b"
  using assms by (simp add: keeps_def tables_ok_def tables_le_def rows_le_def row_le_def row_of_def allow_receipts_def)

lemma keeps_audit_only [inv_intros]: "audit_only a b \<Longrightarrow> keeps a b"
  by (rule keeps_same) (auto dest: audit_onlyD)

lemma keeps_set_lease [simp, inv_intros]: "keeps tb (set_lease l tb)"
  by (rule keeps_same) simp_all

lemma map_replace_rows:
  "(\<And>x. p x \<Longrightarrow> f x = f y) \<Longrightarrow> map f (update_rows p (\<lambda>_. y) xs) = map f xs"
  by (induction xs) auto

lemma keeps_set_row:
  assumes r: "row_of (mr_mount_id row) tb = Some r0" and ok: "row_ok r0 \<Longrightarrow> row_ok row" and le: "row_le r0 row"
  shows "keeps tb (set_row row tb)"
proof -
  have "r0 \<in> set (tb_mounts tb)" using r by (auto simp: row_of_def dest: find_Some_in)
  then have "tables_ok tb \<Longrightarrow> list_all row_ok (tb_mounts (set_row row tb))"
    using ok by (auto simp: tables_ok_def set_row_def list_all_iff set_update_rows)
  moreover have "map mr_mount_id (tb_mounts (set_row row tb)) = map mr_mount_id (tb_mounts tb)"
    by (simp add: set_row_def map_replace_rows)
  moreover have "rows_le tb (set_row row tb)"
    using r le by (auto simp: rows_le_def row_of_set_row [OF r] row_le_def)
  ultimately show ?thesis by (simp add: keeps_def tables_ok_def tables_le_def allow_receipts_def)
qed

lemma find_append_Some: "find p xs = Some x \<Longrightarrow> find p (xs @ ys) = Some x"
  by (induction xs) (auto split: if_splits)

lemma keeps_new_row:
  assumes "row_of (mr_mount_id row) tb = None" "row_ok row"
  shows "keeps tb (tb\<lparr>tb_mounts := tb_mounts tb @ [row]\<rparr>)"
proof -
  have "mr_mount_id row \<notin> mr_mount_id ` set (tb_mounts tb)"
    using assms(1) by (auto simp: row_of_def find_None_iff)
  moreover have "row_of mid (tb\<lparr>tb_mounts := tb_mounts tb @ [row]\<rparr>) = Some r" if "row_of mid tb = Some r" for mid r
    using that by (simp add: row_of_def find_append_Some)
  ultimately show ?thesis using assms(2)
    by (auto simp: keeps_def tables_ok_def tables_le_def rows_le_def row_le_def allow_receipts_def)
qed

lemma keeps_event:
  assumes "events_wf (tb_events tb) \<Longrightarrow> events_wf (tb_events tb @ [e])"
    "ce_state e = CS_STARTED \<Longrightarrow> \<not> dead (ce_mount_id e) tb"
  shows "keeps tb (tb\<lparr>tb_events := tb_events tb @ [e]\<rparr>)"
  using assms by (auto simp: keeps_def tables_ok_def tables_le_def rows_le_def row_le_def allow_receipts_def row_of_def)

lemma keeps_next_event:
  assumes "\<not> event_conflict (tb_events tb) e" "l \<in> set (tb_events tb)" "follows l e"
    "ce_state e = CS_STARTED \<Longrightarrow> \<not> dead (ce_mount_id e) tb"
  shows "keeps tb (tb\<lparr>tb_events := tb_events tb @ [e]\<rparr>)"
  using assms by (intro keeps_event) (auto intro: events_wf_extend)

lemma keeps_receipt:
  assumes "ar_receipt_id rc \<notin> ar_receipt_id ` set (tb_receipts tb)" "\<not> dead (ar_mount_id rc) tb"
    "allow_receipts (ar_token_id rc) tb = []"
    "log_ok (tb_receipts tb) (tb_merkle_next tb) \<Longrightarrow> log_ok (tb_receipts tb @ [rc]) nxt"
  shows "keeps tb (tb\<lparr>tb_receipts := tb_receipts tb @ [rc], tb_merkle_next := nxt\<rparr>)"
  using assms by (auto simp: keeps_def tables_ok_def tables_le_def rows_le_def row_le_def allow_receipts_def row_of_def)

lemma log_ok_assign:
  assumes ok: "log_ok rows nxt" and a: "assign_merkle_leaf_index nxt r = Some (rc, nxt')"
    and r: "ar_merkle_leaf_index r = None" "ar_signed_receipt_cose r \<noteq> None"
  shows "log_ok (rows @ [rc]) nxt'"
proof -
  have "ar_signed_receipt_cose rc \<noteq> None" "leaves_ok (rows @ [rc]) nxt'"
    using a r ok leaves_ok_assign [OF _ a r(1)]
    by (auto simp: log_ok_def assign_merkle_leaf_index_def Let_def split: if_splits option.splits)
  moreover have "sorted (leaf_positions (rows @ [rc]))"
    using ok a r(1) by (fastforce simp: log_ok_def leaves_ok_def assign_merkle_leaf_index_def Let_def sorted_append
        split: if_splits option.splits)
  ultimately show ?thesis using ok by (simp add: log_ok_def)
qed

lemma keeps_redemption:
  assumes "rd_operation_id r \<notin> rd_operation_id ` set (tb_redeemed tb)" "\<not> dead (rd_mount_id r) tb"
  shows "keeps tb (tb\<lparr>tb_redeemed := tb_redeemed tb @ [r]\<rparr>)"
  using assms by (auto simp: keeps_def tables_ok_def tables_le_def rows_le_def row_le_def allow_receipts_def row_of_def)

lemma consume_evidence_distinct:
  "consume_evidence now mid action es cs = Some cs' \<Longrightarrow> distinct (map co_jti cs) \<Longrightarrow> distinct (map co_jti cs')"
  by (induction now mid action es cs rule: consume_evidence.induct) (fastforce simp: list_ex_iff image_iff split: if_splits)+

lemma consume_evidence_grows:
  "consume_evidence now mid action es cs = Some cs' \<Longrightarrow> grows (\<lambda>c. co_mount_id c = mid) cs cs'"
  by (induction now mid action es cs rule: consume_evidence.induct)
    (auto split: if_splits elim!: grows_trans [rotated])

lemma keeps_consumed:
  assumes "consume_evidence now mid action es (tb_consumed tb) = Some cs" "\<not> dead mid tb"
  shows "keeps tb (tb\<lparr>tb_consumed := cs\<rparr>)"
proof -
  have "grows (\<lambda>c. \<not> dead (co_mount_id c) tb) (tb_consumed tb) cs"
    using consume_evidence_grows [OF assms(1)] assms(2) by (auto simp: grows_def list_all_iff)
  then show ?thesis using consume_evidence_distinct [OF assms(1)]
    by (auto simp: keeps_def tables_ok_def tables_le_def rows_le_def row_le_def allow_receipts_def row_of_def)
qed

subsection \<open>Transactions\<close>

lemma keeps_authorize:
  assumes "authorize_txn w row op ih rid action kwargs tb = Some tb'"
  shows "keeps tb tb'"
proof -
  let ?e = "authorized_event w row op ih rid action kwargs"
  have "ce_version ?e = 0" "ce_state ?e = CS_AUTHORIZED" by (simp_all add: authorized_event_def)
  moreover have "\<not> event_conflict (tb_events tb) ?e" "tb' = tb\<lparr>tb_events := tb_events tb @ [?e]\<rparr>"
    using assms by (auto simp: authorize_txn_def split: option.splits if_splits)
  ultimately show ?thesis by (auto intro: keeps_event events_wf_start)
qed

lemma latest_seen: "latest_event op seen = Some l \<Longrightarrow> tb_events tb = seen @ ns \<Longrightarrow> l \<in> set (tb_events tb)"
  using latest_event_SomeD by fastforce

lemma begin_refusal_dead: "begin_refusal (row_of mid tb) l = None \<Longrightarrow> \<not> dead mid tb"
  by (auto simp: begin_refusal_def dead_def split: option.splits if_splits)

lemma keeps_begin:
  assumes "begin_txn w mid op seen tb = (tb', r)" "tb_events tb = seen @ ns"
    "\<And>l. latest_event op seen = Some l \<Longrightarrow> ce_mount_id l = mid"
  shows "keeps tb tb'"
  using assms(1)
proof (cases rule: begin_txn_cases)
  case (refused l reason e)
  then have "\<not> event_conflict (tb_events tb) e \<Longrightarrow> keeps tb (tb\<lparr>tb_events := tb_events tb @ [e]\<rparr>)"
    using latest_seen [OF refused(1) assms(2)] by (auto intro: keeps_next_event)
  then show ?thesis using refused(7) by auto
next
  case (started l e)
  have "ce_mount_id e = mid" using started(1,5) assms(3) by (simp add: follows_def same_operation_def)
  then have "\<not> dead (ce_mount_id e) tb" using started(3) begin_refusal_dead by blast
  then show ?thesis using started latest_seen [OF started(1) assms(2)]
    by (auto intro: keeps_next_event)
qed simp

lemma keeps_report:
  assumes "report_txn w op ok err u pt seen tb = (tb', r)" "tb_events tb = seen @ ns"
  shows "keeps tb tb'"
  using assms(1)
proof (cases rule: report_txn_cases)
  case (appended l t p)
  then show ?thesis using latest_seen [OF appended(1) assms(2)]
    by (auto intro!: keeps_next_event advance_event_follows simp: outcome_event_def)
qed simp

lemma keeps_claim:
  assumes "claim_start w mid tid nonce op who ws tb = (tb', r)"
  shows "keeps tb tb'"
proof (cases "row_of mid tb")
  case (Some row)
  have "keeps tb (set_row (row\<lparr>mr_start_claim_operation_id := x, mr_start_claimed_at := y\<rparr>) tb)"
    if "\<not> mr_terminated row" for x y
    using Some that by (intro keeps_set_row [where ?r0.0 = row]) (auto simp: row_of_id row_ok_def row_le_def)
  then show ?thesis using assms Some by (auto simp: claim_start_def split: if_splits)
qed (use assms in \<open>simp add: claim_start_def\<close>)

lemma keeps_align [simp]: "keeps tb (align_lease mid n tb)"
  by (simp add: align_lease_def split: option.splits)

lemma keeps_advance:
  assumes "advance_epoch mid who ws tb = (tb', r)"
  shows "keeps tb tb'"
proof (cases "active_row mid who ws ''advance epoch'' tb")
  case (Inr row)
  then have r: "row_of mid tb = Some row" "\<not> mr_terminated row" by (simp_all add: active_row_Inr)
  have "keeps tb (set_row (row\<lparr>mr_authority_epoch := or_int (mr_authority_epoch row) 1 + 1\<rparr>) tb)"
    using r by (intro keeps_set_row [where ?r0.0 = row]) (auto simp: row_of_id row_ok_def row_le_def or_int_def)
  then show ?thesis using assms Inr keeps_trans keeps_align by (auto simp: advance_epoch_def Let_def)
qed (use assms in \<open>simp add: advance_epoch_def\<close>)

lemma handover_row_simps [simp]:
  "mr_mount_id (handover_row w dh reason row) = mr_mount_id row"
  "mr_authority_epoch (handover_row w dh reason row) = or_int (mr_authority_epoch row) 1 + 1"
  "row_ok row \<Longrightarrow> row_ok (handover_row w dh reason row)"
  by (simp_all add: handover_row_def Let_def row_ok_def or_int_def)

lemma keeps_handover:
  assumes "handover_incarnation w mid dh reason who ws tb = (tb', r)"
  shows "keeps tb tb'"
proof (cases "active_row mid who ws ''handover incarnation'' tb")
  case (Inr row)
  let ?row = "handover_row w dh reason row"
  have r: "row_of mid tb = Some row" "\<not> mr_terminated row" using Inr by (simp_all add: active_row_Inr)
  have "keeps tb (set_row ?row tb)"
    using r by (intro keeps_set_row [where ?r0.0 = row]) (auto simp: row_of_id row_le_def or_int_def)
  then have "keeps tb (align_lease mid (mr_authority_epoch ?row) (set_row ?row tb))"
    using keeps_trans keeps_align by blast
  then show ?thesis using assms Inr keeps_trans [OF _ keeps_audit_only [OF call_anchor_audit_only]]
    by (auto simp: handover_incarnation_def Let_def simp del: handover_row_simps split: prod.splits if_splits)
qed (use assms in \<open>simp add: handover_incarnation_def\<close>)

lemma revoke_lease_keeps: "revoke_lease mid tb = Some tb' \<Longrightarrow> keeps tb tb'"
  by (auto simp: revoke_lease_def split: option.splits if_splits sum.splits)

lemma terminate_txn_row:
  assumes "row_of mid cur = Some row" "owned_by row who ws" "\<not> mr_terminated row"
    "call_anchor w 0 (decision_request ''terminate'' ''execution'' ALLOW (unmount_value reason)
       (Some (mr_mount row)) (Some (row_token row))) cur = (tb1, a)"
  shows "terminate_txn w mid reason who ws revoked base cur =
    (if \<not> anchored a then (base, revoked, Term_Denied ''pgl_anchor_unconfirmed'' a)
     else case revoke_lease mid (set_row (row\<lparr>mr_terminated := True,
         mr_authority_epoch := or_int (mr_authority_epoch row) 1 + 1\<rparr>) tb1) of
       None \<Rightarrow> (base, mark_mount_revoked mid revoked, Term_Raised)
     | Some tb' \<Rightarrow> (tb', mark_mount_revoked mid revoked, Term_Now a))"
  using assms by (simp add: terminate_txn_def Let_def)

lemma terminate_txn_not_live:
  assumes "terminate_txn w mid reason who ws revoked base cur = (tb', revoked', r)"
    "\<And>row. row_of mid cur = Some row \<Longrightarrow> owned_by row who ws \<Longrightarrow> mr_terminated row"
  shows "audit_only cur tb'" "r \<noteq> Term_Now a" "revoked' = revoked"
proof -
  have "audit_only cur tb' \<and> r \<noteq> Term_Now a \<and> revoked' = revoked"
  proof (cases "\<exists>row. row_of mid cur = Some row \<and> owned_by row who ws")
    case True
    then show ?thesis using assms by (auto simp: terminate_txn_def)
  next
    case False
    then obtain q why where "(case call_anchor w 0 q cur of (tb, r) \<Rightarrow> (tb, revoked, Term_Denied why r)) = (tb', revoked', r)"
      using assms(1) unfolding terminate_txn_def Let_def by (cases "row_of mid cur") auto
    then show ?thesis using call_anchor_audit_only by (auto split: prod.splits)
  qed
  then show "audit_only cur tb'" "r \<noteq> Term_Now a" "revoked' = revoked" by auto
qed

lemma terminate_txn_cases:
  assumes "terminate_txn w mid reason who ws revoked base cur = (tb', revoked', r)"
  obtains (audit) "audit_only cur tb'" "\<And>a. r \<noteq> Term_Now a" "revoked' = revoked"
  | (base) "tb' = base" "\<And>a. r \<noteq> Term_Now a"
  | (now) row tb1 a where "row_of mid cur = Some row" "owned_by row who ws" "\<not> mr_terminated row" "audit_only cur tb1"
      "anchored a" "r = Term_Now a" "revoked' = mark_mount_revoked mid revoked"
      "revoke_lease mid (set_row (row\<lparr>mr_terminated := True,
         mr_authority_epoch := or_int (mr_authority_epoch row) 1 + 1\<rparr>) tb1) = Some tb'"
proof (cases "\<exists>row. row_of mid cur = Some row \<and> owned_by row who ws \<and> \<not> mr_terminated row")
  case True
  then obtain row where row: "row_of mid cur = Some row" "owned_by row who ws" "\<not> mr_terminated row" by blast
  obtain tb1 a where an: "call_anchor w 0 (decision_request ''terminate'' ''execution'' ALLOW (unmount_value reason)
      (Some (mr_mount row)) (Some (row_token row))) cur = (tb1, a)" by fastforce
  show ?thesis
    using assms [unfolded terminate_txn_row [OF row an]] now [OF row call_anchor_audit_only [OF an]] base
    by (auto split: if_splits option.splits)
next
  case False
  then show ?thesis using terminate_txn_not_live [OF assms] audit by blast
qed

lemma keeps_terminate:
  assumes "terminate_txn w mid reason who ws revoked tb tb = (tb', revoked', r)"
  shows "keeps tb tb'"
  using assms
proof (cases rule: terminate_txn_cases)
  case (now row tb1 a)
  have "row_of mid tb1 = Some row" using now audit_onlyD by simp
  then have "keeps tb1 (set_row (row\<lparr>mr_terminated := True, mr_authority_epoch := or_int (mr_authority_epoch row) 1 + 1\<rparr>) tb1)"
    using now(3) by (intro keeps_set_row [where ?r0.0 = row]) (auto simp: row_of_id row_ok_def row_le_def or_int_def)
  then show ?thesis using now revoke_lease_keeps keeps_audit_only keeps_trans by meson
qed (auto intro: keeps_audit_only)

lemma redeem_decide_Redeemed:
  assumes "redeem_decide w key op permit ph ref seen' row tb = (tb', Redeemed)"
  obtains l where "\<not> mr_terminated row" "w_clk w 0 < mr_expires_at row" "latest_event op seen' = Some l"
      "ce_state l = CS_STARTED"
      "permit_matches (w_mac w) key permit op (mr_mount_id row) (ce_receipt_id l) ph ref = Some True"
      "op \<notin> rd_operation_id ` set (tb_redeemed tb)"
      "tb' = tb\<lparr>tb_redeemed := tb_redeemed tb @ [\<lparr>rd_operation_id = op, rd_mount_id = mr_mount_id row,
         rd_receipt_id = ce_receipt_id l, rd_payload_sha256 = ph, rd_sink_ref = Some ref, rd_redeemed_at = w_clk w 1\<rparr>]\<rparr>"
proof (cases "latest_event op seen'")
  case None
  then show ?thesis using assms by (simp add: redeem_decide_def split: if_splits)
next
  case (Some l)
  have "op \<notin> rd_operation_id ` set (tb_redeemed tb)" if "\<not> list_ex (\<lambda>r. rd_operation_id r = op) (tb_redeemed tb)"
    using that by (auto simp: list_ex_iff)
  then show ?thesis using assms that [OF _ _ Some] by (simp add: redeem_decide_def Some not_le split: if_splits)
qed

lemma redeem_decide_refused:
  "redeem_decide w key op permit ph ref seen' row tb = (tb', r) \<Longrightarrow> r \<noteq> Redeemed \<Longrightarrow> tb' = tb"
  by (simp add: redeem_decide_def split: if_splits option.splits)

lemma truthy_Some: "truthy x \<Longrightarrow> \<exists>s. x = Some s \<and> s \<noteq> []"
  by (cases x) simp_all

lemma redeem_txn_cases:
  assumes "redeem_txn w pinned op permit ph ref sig seen seen' tb = (tb', r)"
  obtains (refused) why where "tb' = tb" "r = Redeem_Refused why None"
  | (decided) key s k first row where "permit_key (w_sha w) (w_mac w) (w_settings w) = Some key" "ref = Some s"
      "pinned s = Some k" "w_signature_valid w k (or_str sig []) (redeem_message (w_sha w) op ph permit s)"
      "latest_event op seen = Some first" "row_of (ce_mount_id first) tb = Some row"
      "redeem_decide w key op permit ph s seen' row tb = (tb', r)"
proof (cases "\<exists>key s k first row. permit_key (w_sha w) (w_mac w) (w_settings w) = Some key \<and> ref = Some s \<and> truthy ref \<and>
    pinned s = Some k \<and> truthy (pinned s) \<and> w_signature_valid w k (or_str sig []) (redeem_message (w_sha w) op ph permit s) \<and>
    latest_event op seen = Some first \<and> ce_mount_id first \<noteq> [] \<and> row_of (ce_mount_id first) tb = Some row")
  case True
  then obtain key s k first row where c: "permit_key (w_sha w) (w_mac w) (w_settings w) = Some key" "ref = Some s" "truthy ref"
    "pinned s = Some k" "truthy (pinned s)" "w_signature_valid w k (or_str sig []) (redeem_message (w_sha w) op ph permit s)"
    "latest_event op seen = Some first" "ce_mount_id first \<noteq> []" "row_of (ce_mount_id first) tb = Some row" by blast
  then have "redeem_decide w key op permit ph s seen' row tb = (tb', r)"
    using assms by (simp add: redeem_txn_def)
  then show ?thesis using decided c by blast
next
  case False
  then have "tb' = tb \<and> (\<exists>why. r = Redeem_Refused why None)"
    using assms unfolding redeem_txn_def Let_def
    by (auto split: option.splits if_splits dest!: truthy_Some)
  then show ?thesis using refused by blast
qed

lemma keeps_redeem:
  assumes "redeem_txn w pinned op permit ph ref sig seen seen' tb = (tb', r)"
  shows "keeps tb tb'"
  using assms
proof (cases rule: redeem_txn_cases)
  case (decided key s k first row)
  show ?thesis
  proof (cases "r = Redeemed")
    case True
    show ?thesis
      using decided(7) [unfolded True]
    proof (rule redeem_decide_Redeemed)
      fix l
      assume l: "\<not> mr_terminated row" "op \<notin> rd_operation_id ` set (tb_redeemed tb)"
        "tb' = tb\<lparr>tb_redeemed := tb_redeemed tb @ [\<lparr>rd_operation_id = op, rd_mount_id = mr_mount_id row,
           rd_receipt_id = ce_receipt_id l, rd_payload_sha256 = ph, rd_sink_ref = Some s, rd_redeemed_at = w_clk w 1\<rparr>]\<rparr>"
      have "\<not> dead (mr_mount_id row) tb" using decided(6) l(1) by (simp add: dead_def row_of_id)
      then show ?thesis using l by (simp add: keeps_redemption)
    qed
  qed (use decided(7) redeem_decide_refused in force)
qed simp

lemma new_row_ok: "row_ok (new_row q m t h r)"
  by (simp add: row_ok_def new_row_def)

lemma keeps_request:
  assumes "request_mount w q tb = (tb', r)"
  shows "keeps tb tb'"
proof (cases "request_refusal w q")
  case (Some reason)
  then show ?thesis using assms keeps_audit_only [OF call_anchor_audit_only]
    by (auto simp: request_mount_def split: prod.splits)
next
  case None
  have new: "keeps tb (tb1\<lparr>tb_mounts := tb_mounts tb1 @ [new_row q m t h a], tb_leases := tb_leases tb1 @ [l]\<rparr>)"
    if "audit_only tb tb1" "row_of (mt_id m) tb = None" for tb1 m t h a l
  proof -
    have "keeps tb1 (tb1\<lparr>tb_mounts := tb_mounts tb1 @ [new_row q m t h a]\<rparr>)"
      using that by (intro keeps_new_row) (auto simp: audit_onlyD new_row_ok, simp add: new_row_def)
    moreover have "keeps (tb1\<lparr>tb_mounts := x\<rparr>) (tb1\<lparr>tb_mounts := x, tb_leases := y\<rparr>)" for x y
      by (rule keeps_same) simp_all
    ultimately show ?thesis using keeps_audit_only [OF that(1)] keeps_trans by blast
  qed
  show ?thesis
    using assms unfolding request_mount_def None Let_def option.case
    by (auto split: sum.splits mount_failure.splits prod.splits if_splits option.splits
        intro!: new [OF call_anchor_audit_only])
qed

lemma new_receipt_simps [simp]:
  "ar_token_id (new_receipt w row q r) = tk_token_id (mr_token row)"
  "ar_mount_id (new_receipt w row q r) = qa_mount_id q"
  "ar_decision (new_receipt w row q r) = ''allow''"
  "ar_principal (new_receipt w row q r) = qa_owner_principal q"
  "ar_action (new_receipt w row q r) = qa_action q"
  "ar_resource (new_receipt w row q r) = qa_resource q"
  by (simp_all add: new_receipt_def Let_def row_token_def)

lemma assign_merkle_same:
  assumes "assign_merkle_leaf_index nxt r = Some (rc, nxt')"
  shows "ar_token_id rc = ar_token_id r" "ar_mount_id rc = ar_mount_id r" "ar_decision rc = ar_decision r"
    "ar_principal rc = ar_principal r" "ar_action rc = ar_action r" "ar_resource rc = ar_resource r"
    "ar_pgl_anchor_id rc = ar_pgl_anchor_id r" "ar_pgl_anchor_status rc = ar_pgl_anchor_status r"
  using assms by (auto simp: assign_merkle_leaf_index_def Let_def split: if_splits option.splits)

lemma keeps_allow_commit:
  assumes "allow_commit w row q evs r tb = Some (tb', rc)" and row: "row_of (qa_mount_id q) tb = Some row"
    and ok: "\<not> mr_terminated row" "row_ok row" and fresh: "allow_receipts (mr_token_id row) tb = []"
  shows "keeps tb tb'"
proof -
  let ?a = "set_row (row\<lparr>mr_nonce_consumed := True\<rparr>) tb"
  obtain cs nxt where c: "consume_evidence (w_clk w 12) (qa_mount_id q) (qa_action q) evs (tb_consumed tb) = Some cs"
    "ar_receipt_id rc \<notin> ar_receipt_id ` set (tb_receipts tb)"
    "assign_merkle_leaf_index (tb_merkle_next tb) (new_receipt w row q r) = Some (rc, nxt)"
    "tb' = ?a\<lparr>tb_consumed := cs, tb_receipts := tb_receipts tb @ [rc], tb_merkle_next := nxt\<rparr>"
    using assms(1) by (rule allow_commit_Some)
  have rid: "row_of (mr_mount_id (row\<lparr>mr_nonce_consumed := True\<rparr>)) tb = Some row" using row by (simp add: row_of_id)
  have a: "keeps tb ?a" using ok rid by (intro keeps_set_row) (auto simp: row_ok_def row_le_def)
  have alive: "\<not> dead (qa_mount_id q) ?a" using row ok(1) by (simp add: dead_def row_of_set_row [OF rid] row_of_id [OF row])
  have b: "keeps ?a (?a\<lparr>tb_consumed := cs\<rparr>)" using c(1) alive by (intro keeps_consumed) auto
  have rc: "ar_mount_id rc = qa_mount_id q" "ar_token_id rc = mr_token_id row"
    using assign_merkle_same [OF c(3)] ok(2) by (simp_all add: row_ok_def)
  have r: "ar_merkle_leaf_index (new_receipt w row q r) = None" "ar_signed_receipt_cose (new_receipt w row q r) \<noteq> None"
    by (simp_all add: new_receipt_def Let_def)
  have "keeps (?a\<lparr>tb_consumed := cs\<rparr>) tb'"
    using keeps_receipt [of rc "?a\<lparr>tb_consumed := cs\<rparr>" nxt] c(2,4) alive fresh rc log_ok_assign [OF _ c(3) r]
    by (simp add: dead_def row_of_def allow_receipts_def)
  then show ?thesis using a b keeps_trans by blast
qed

lemma row_refusal_None:
  assumes "row_refusal w row q tb = None"
  shows "\<not> mr_terminated row" "w_clk w 0 < mr_expires_at row" "\<not> mr_nonce_consumed row"
    "qa_token_id q = mr_token_id row" "qa_nonce q = mr_token_nonce row" "allow_receipts (mr_token_id row) tb = []"
  using assms by (auto simp: row_refusal_def allow_receipts_def list_ex_iff filter_empty_conv split: if_splits)

lemma gate_same:
  assumes "lease_gate w q dec (sink_new w i row b b' tb) = (tb1, Inr evs)" "call_anchor w j a tb1 = (tb2, r)"
  shows "row_of mid tb2 = row_of mid tb" "tb_receipts tb2 = tb_receipts tb" "tb_consumed tb2 = tb_consumed tb"
    "tb_events tb2 = tb_events tb" "keeps tb tb2"
proof -
  note s = sink_new_audit_only [of tb w i row b b'] and g = lease_gate_Inr(3) [OF assms(1)]
  note c = call_anchor_audit_only [OF assms(2)]
  show "row_of mid tb2 = row_of mid tb" "tb_receipts tb2 = tb_receipts tb" "tb_consumed tb2 = tb_consumed tb"
    "tb_events tb2 = tb_events tb" using g audit_onlyD [OF s] audit_onlyD [OF c] by auto
  have "keeps (sink_new w i row b b' tb) tb1" using g by auto
  then show "keeps tb tb2" using keeps_audit_only [OF s] keeps_audit_only [OF c] keeps_trans by blast
qed

lemma row_of_ok: "tables_ok tb \<Longrightarrow> row_of mid tb = Some row \<Longrightarrow> row_ok row"
  by (auto simp: tables_ok_def row_of_def list_all_iff dest!: find_Some_in)

lemma keeps_evaluate:
  assumes "evaluate w revoked q tb = (tb', cur, ans)"
  shows "keeps tb tb'"
  using assms
proof (cases rule: evaluate_result)
  case (allowed row b evs tb1 tb2 r rc)
  note same = gate_same [OF allowed(6,7)] and rr = row_refusal_None [OF allowed(3)]
  have "tables_ok tb \<Longrightarrow> keeps tb2 tb'"
    using keeps_allow_commit [OF allowed(9) _ rr(1)] same allowed(1) rr(6) row_of_ok [OF _ allowed(1)]
    by (simp add: allow_receipts_def)
  then show ?thesis using same(5) tables_le_trans unfolding keeps_def by blast
qed (simp add: keeps_audit_only)

subsection \<open>The service as a transition system\<close>

text \<open>
  One rule per transaction, each with surroundings of its own. Event reads that hold no row lock
  see some earlier state of the append-only table. An operation is begun on the mount of its
  binding, the mount its \<open>AUTHORIZED\<close> row was written for.
\<close>

inductive mount_step :: "tables \<Rightarrow> tables \<Rightarrow> bool" where
  step_request: "request_mount w q tb = (tb', r) \<Longrightarrow> mount_step tb tb'"
| step_evaluate: "evaluate w revoked q tb = (tb', cur, ans) \<Longrightarrow> mount_step tb tb'"
| step_authorize: "authorize_txn w row op ih rid action kwargs tb = Some tb' \<Longrightarrow> mount_step tb tb'"
| step_begin: "begin_txn w mid op seen tb = (tb', b) \<Longrightarrow> tb_events tb = seen @ ns \<Longrightarrow>
    (\<And>l. latest_event op seen = Some l \<Longrightarrow> ce_mount_id l = mid) \<Longrightarrow> mount_step tb tb'"
| step_report: "report_txn w op ok err u pt seen tb = (tb', rep) \<Longrightarrow> tb_events tb = seen @ ns \<Longrightarrow> mount_step tb tb'"
| step_claim: "claim_start w mid tid nonce op who ws tb = (tb', d) \<Longrightarrow> mount_step tb tb'"
| step_terminate: "terminate_txn w mid reason who ws revoked tb tb = (tb', revoked', t) \<Longrightarrow> mount_step tb tb'"
| step_advance: "advance_epoch mid who ws tb = (tb', n) \<Longrightarrow> mount_step tb tb'"
| step_handover: "handover_incarnation w mid dh text who ws tb = (tb', h) \<Longrightarrow> mount_step tb tb'"
| step_redeem: "redeem_txn w pinned op permit ph ref sig seen seen' tb = (tb', x) \<Longrightarrow>
    tb_events tb = seen @ ns \<Longrightarrow> tb_events tb = seen' @ ns' \<Longrightarrow> mount_step tb tb'"
| step_anchor: "call_anchor w i aq tb = (tb', a) \<Longrightarrow> mount_step tb tb'"
| step_sink: "sink_append w i ws es tb = tb' \<Longrightarrow> mount_step tb tb'"
| step_seed: "mount_step tb (tb\<lparr>tb_merkle_next := seed_merkle_sequence (tb_merkle_next tb)\<rparr>)"

lemma keeps_seed: "keeps tb (tb\<lparr>tb_merkle_next := seed_merkle_sequence (tb_merkle_next tb)\<rparr>)"
  using leaves_ok_seed
  by (auto simp: keeps_def tables_ok_def tables_le_def rows_le_def row_le_def allow_receipts_def row_of_def log_ok_def)

lemma mount_step_keeps: "mount_step a b \<Longrightarrow> keeps a b"
  by (induction rule: mount_step.induct)
    (auto intro: keeps_request keeps_evaluate keeps_authorize keeps_begin keeps_report keeps_claim keeps_terminate
      keeps_advance keeps_handover keeps_redeem keeps_seed keeps_audit_only call_anchor_audit_only sink_append_audit_only)

text \<open>What any store of mounts promises of its steps, and what follows for every run of it.\<close>

locale mount_store =
  fixes step :: "tables \<Rightarrow> tables \<Rightarrow> bool"
  assumes step_ok: "step a b \<Longrightarrow> tables_ok a \<Longrightarrow> tables_ok b"
    and step_le: "step a b \<Longrightarrow> tables_ok a \<Longrightarrow> tables_le a b"
begin

lemma run_ok: "step\<^sup>*\<^sup>* a b \<Longrightarrow> tables_ok a \<Longrightarrow> tables_ok b"
  by (induction rule: rtranclp_induct) (auto intro: step_ok)

lemma run_le: "step\<^sup>*\<^sup>* a b \<Longrightarrow> tables_ok a \<Longrightarrow> tables_le a b"
  by (induction rule: rtranclp_induct) (auto intro: tables_le_trans step_le run_ok)

lemma run_receipts:
  assumes "step\<^sup>*\<^sup>* a b" "tables_ok a" "rc \<in> set (tb_receipts a)"
  shows "rc \<in> set (tb_receipts b)"
  using run_le [OF assms(1,2)] assms(3) by (auto simp: tables_le_def grows_def)

lemma run_events: "step\<^sup>*\<^sup>* a b \<Longrightarrow> tables_ok a \<Longrightarrow> \<exists>ns. tb_events b = tb_events a @ ns"
  by (drule (1) run_le) (auto simp: tables_le_def grows_def)

lemma run_row:
  assumes "step\<^sup>*\<^sup>* a b" "tables_ok a" "row_of mid a = Some row"
  obtains row' where "row_of mid b = Some row'" "mr_authority_epoch row \<le> mr_authority_epoch row'"
    "mr_terminated row \<Longrightarrow> row' = row"
  using run_le [OF assms(1,2)] assms(3) unfolding tables_le_def rows_le_def row_le_def by blast

definition event_writes :: "cevent list \<Rightarrow> cevent list \<Rightarrow> bool" where
  "event_writes x y \<longleftrightarrow> (\<exists>a b. tables_ok a \<and> step a b \<and> x = tb_events a \<and> y = tb_events b)"

lemma run_event_writes: "step\<^sup>*\<^sup>* a b \<Longrightarrow> tables_ok a \<Longrightarrow> event_writes\<^sup>*\<^sup>* (tb_events a) (tb_events b)"
proof (induction rule: rtranclp_induct)
  case (step b c)
  then have "event_writes (tb_events b) (tb_events c)" using run_ok by (auto simp: event_writes_def)
  then show ?case using step by (meson rtranclp.rtrancl_into_rtrancl)
qed simp

end

sublocale mount_store \<subseteq> events: event_writer event_writes
proof
  fix x y
  assume "event_writes x y"
  then obtain a b where s: "tables_ok a" "step a b" "x = tb_events a" "y = tb_events b" by (auto simp: event_writes_def)
  then show "\<exists>ns. y = x @ ns" using step_le by (auto simp: tables_le_def grows_def)
  show "events_wf x \<Longrightarrow> events_wf y" using s step_ok by (auto simp: tables_ok_def)
qed

interpretation ms: mount_store mount_step
  using mount_step_keeps by unfold_locales (auto simp: keeps_def)

subsection \<open>Sample store\<close>

definition sample_world :: world where
  "sample_world = \<lparr>w_sha = id, w_mac = (\<lambda>k m. k @ m), w_uid = sample_uid, w_clk = (\<lambda>_. 0),
     w_anchor = local_confirmed_anchor aq_event_type, w_packages = [''lead@v1'' \<mapsto> sample_package], w_settings = None,
     w_evidence = sample_evidence_config, w_parse = sample_parse, w_strptime = sample_strptime, w_build = (\<lambda>_. Some ''tok''),
     w_sign = (\<lambda>_. ''cose''), w_signature_valid = (\<lambda>_ _ _. True), w_offline = False, w_repr = (\<lambda>_. []),
     w_lax_bool = (\<lambda>_. None)\<rparr>"

definition sample_row :: mount_row where
  "sample_row = \<lparr>mr_mount_id = ''mnt_a'', mr_token_id = ''tok_c'', mr_token_nonce = tk_nonce sample_token,
     mr_owner_principal = ''alice'', mr_owner_workspace = ''w'', mr_holder_secret_hash = None, mr_mount = sample_mount_value,
     mr_token = sample_token, mr_issued_at = 0, mr_expires_at = 60000000, mr_authority_epoch = 1, mr_terminated = False,
     mr_nonce_consumed = False, mr_anchor_status = ''confirmed'', mr_anchor_id = None, mr_anchor_detail = None,
     mr_start_claim_operation_id = None, mr_start_claimed_at = None\<rparr>"

definition sample_tables :: tables where
  "sample_tables = \<lparr>tb_mounts = [sample_row], tb_leases = [], tb_receipts = [], tb_merkle_next = Some 0, tb_events = [],
     tb_consumed = [], tb_redeemed = [], tb_audit = []\<rparr>"

definition sample_action :: action_request where
  "sample_action = \<lparr>qa_mount_id = ''mnt_a'', qa_action = ''draft.write'', qa_resource = Some ''acme'', qa_token_id = ''tok_c'',
     qa_nonce = tk_nonce sample_token, qa_owner_principal = ''alice'', qa_owner_workspace = Some ''w'',
     qa_approval_token = None, qa_suppression_evidence = None, qa_spiffe = (\<lambda>_. None), qa_target_ref = None\<rparr>"

lemma sample_tables_ok: "tables_ok sample_tables"
  by (simp add: tables_ok_def sample_tables_def sample_row_def row_ok_def sample_mount_value_def sample_token_def
      allow_receipts_def log_ok_def)

lemma sample_row_of: "row_of ''mnt_a'' sample_tables = Some sample_row"
  by (simp add: row_of_def sample_tables_def sample_row_def)

lemma sample_owned: "owned_by sample_row ''alice'' (Some ''w'')"
  by (simp add: owned_by_def sample_row_def)

lemma sample_refusals:
  "row_refusal sample_world sample_row sample_action sample_tables = None"
  "lease_refusal sample_world sample_row sample_action sample_tables = None"
  by (simp_all add: row_refusal_def lease_refusal_def lease_of_def sample_world_def sample_action_def sample_row_def
      sample_tables_def)

lemma sample_profile:
  "profile_decision sample_world {} sample_row sample_action sample_tables = (row_binding sample_row, Inr [])"
  by (simp add: profile_decision_def Let_def check_live_def row_binding_def new_binding_def sample_row_def sample_action_def
      sample_token_def profile_allows_def is_mount_revoked_def row_token_def profile_covers_resource_def gate_evidence_def
      sample_world_def)

lemma evaluate_allows:
  assumes "row_of (qa_mount_id q) tb = Some row" "owned_by row (qa_owner_principal q) (qa_owner_workspace q)"
    "row_refusal w row q tb = None" "lease_refusal w row q tb = None"
    "profile_decision w revoked row q tb = (b, Inr evs)"
    "lease_gate w q (Inr evs) (sink_new w 13 row (row_binding row) b tb) = (tb1, Inr evs)"
    "call_anchor w 0 (decision_request ''action_decision'' (qa_action q) ALLOW ''allowed''
       (Some (mr_mount row)) (Some (row_token row))) tb1 = (tb2, r)"
    "anchored r" "allow_commit w row q evs r tb2 = Some (tb', rc)"
  shows "\<exists>cur d. evaluate w revoked q tb = (tb', cur, Inr (ALLOW, ''allowed'', r, d))"
  using assms by (simp add: evaluate_def Let_def)

lemma allow_commit_total:
  assumes "consume_evidence (w_clk w 12) (qa_mount_id q) (qa_action q) evs (tb_consumed tb) = Some cs"
    "ar_receipt_id (new_receipt w row q r) \<notin> ar_receipt_id ` set (tb_receipts tb)" "tb_merkle_next tb = Some n"
  shows "\<exists>tb' rc. allow_commit w row q evs r tb = Some (tb', rc)"
proof -
  obtain x where x: "assign_merkle_leaf_index (tb_merkle_next tb) (new_receipt w row q r) = Some x"
    using assign_merkle_total [OF assms(3)] by blast
  obtain rc nxt where "x = (rc, nxt)" by (cases x)
  moreover have "\<not> list_ex (\<lambda>x. ar_receipt_id x = ar_receipt_id (new_receipt w row q r)) (tb_receipts tb)"
    unfolding list_ex_iff using assms(2) by (metis imageI)
  ultimately show ?thesis unfolding allow_commit_def assms(1) option.case if_False x by simp
qed

fun is_allow :: "exc + action_answer \<Rightarrow> bool" where
  "is_allow (Inl e) = False"
| "is_allow (Inr (dec, x)) = (dec = ALLOW)"

lemma sample_allow: "\<exists>tb' cur ans. evaluate sample_world {} sample_action sample_tables = (tb', cur, ans) \<and> is_allow ans"
proof -
  let ?r = "\<lparr>an_status = ''confirmed'', an_anchor_id = Some ''action_decision'', an_detail = Some ''local-confirmed'',
     an_external_ref = None\<rparr>"
  have g: "lease_gate sample_world sample_action (Inr [])
      (sink_new sample_world 13 sample_row (row_binding sample_row) (row_binding sample_row) sample_tables) = (sample_tables, Inr [])"
    by (simp add: lease_gate_def lease_of_def sink_new_def sample_tables_def)
  have c: "call_anchor sample_world 0 (decision_request ''action_decision'' (qa_action sample_action) ALLOW ''allowed''
      (Some (mr_mount sample_row)) (Some (row_token sample_row))) sample_tables = (sample_tables, ?r)"
    by (simp add: call_anchor_def sample_world_def local_confirmed_anchor_def decision_request_def sample_tables_def)
  have "\<exists>tb' rc. allow_commit sample_world sample_row sample_action [] ?r sample_tables = Some (tb', rc)"
    by (rule allow_commit_total [where cs = "[]" and n = 0]) (simp_all add: sample_tables_def)
  then obtain tb' rc where a: "allow_commit sample_world sample_row sample_action [] ?r sample_tables = Some (tb', rc)"
    by blast
  have "row_of (qa_mount_id sample_action) sample_tables = Some sample_row"
    "owned_by sample_row (qa_owner_principal sample_action) (qa_owner_workspace sample_action)"
    using sample_row_of sample_owned by (simp_all add: sample_action_def)
  from evaluate_allows [OF this sample_refusals sample_profile g c _ a]
  obtain cur d where "evaluate sample_world {} sample_action sample_tables = (tb', cur, Inr (ALLOW, ''allowed'', ?r, d))"
    by (auto simp: anchored_def)
  then show ?thesis by simp
qed

subsection \<open>One decision per token\<close>

lemma evaluate_allowed:
  assumes "evaluate w revoked q tb = (tb', cur, ans)" "is_allow ans"
  obtains row b evs tb1 tb2 r rc where
    "row_of (qa_mount_id q) tb = Some row" "owned_by row (qa_owner_principal q) (qa_owner_workspace q)"
    "row_refusal w row q tb = None" "lease_refusal w row q tb = None"
    "profile_decision w revoked row q tb = (b, Inr evs)"
    "lease_gate w q (Inr evs) (sink_new w 13 row (row_binding row) b tb) = (tb1, Inr evs)"
    "call_anchor w 0 (decision_request ''action_decision'' (qa_action q) ALLOW ''allowed''
       (Some (mr_mount row)) (Some (row_token row))) tb1 = (tb2, r)"
    "anchored r" "allow_commit w row q evs r tb2 = Some (tb', rc)"
    "ans = Inr (ALLOW, ''allowed'', r, Some \<lparr>dt_decision = ALLOW, dt_reason = ''allowed'', dt_receipt_id = Some (ar_receipt_id rc)\<rparr>)"
  using assms(1)
proof (cases rule: evaluate_result)
  case refused
  obtain reason r d where "ans = Inr (ALLOW, reason, r, d)"
    using assms(2) by (cases ans rule: is_allow.cases) (auto intro: prod_cases3)
  then show thesis using refused(3) by blast
qed (use that in blast)

lemma evaluate_receipt:
  assumes "tables_ok tb" "evaluate w revoked q tb = (tb', cur, ans)" "is_allow ans"
  obtains rc where "tb_receipts tb' = tb_receipts tb @ [rc]" "ar_token_id rc = qa_token_id q" "ar_mount_id rc = qa_mount_id q"
    "ar_decision rc = ''allow''" "ar_action rc = qa_action q" "ar_resource rc = qa_resource q"
    "ar_principal rc = qa_owner_principal q"
  using assms(2,3)
proof (rule evaluate_allowed)
  fix row b evs tb1 tb2 r rc
  assume a: "row_of (qa_mount_id q) tb = Some row" "row_refusal w row q tb = None"
    "lease_gate w q (Inr evs) (sink_new w 13 row (row_binding row) b tb) = (tb1, Inr evs)"
    "call_anchor w 0 (decision_request ''action_decision'' (qa_action q) ALLOW ''allowed''
       (Some (mr_mount row)) (Some (row_token row))) tb1 = (tb2, r)"
    "allow_commit w row q evs r tb2 = Some (tb', rc)"
  obtain cs nxt where c: "assign_merkle_leaf_index (tb_merkle_next tb2) (new_receipt w row q r) = Some (rc, nxt)"
    "tb' = (set_row (row\<lparr>mr_nonce_consumed := True\<rparr>) tb2)\<lparr>tb_consumed := cs,
       tb_receipts := tb_receipts tb2 @ [rc], tb_merkle_next := nxt\<rparr>"
    using a(5) by (rule allow_commit_Some)
  have "tb_receipts tb' = tb_receipts tb @ [rc]" using c(2) gate_same(2) [OF a(3,4)] by simp
  moreover have "tk_token_id (mr_token row) = qa_token_id q"
    using row_of_ok [OF assms(1) a(1)] row_refusal_None(4) [OF a(2)] by (simp add: row_ok_def)
  ultimately show thesis using that [of rc] assign_merkle_same [OF c(1)] by simp
qed

lemma receipt_blocks:
  assumes "rc \<in> set (tb_receipts tb)" "ar_token_id rc = qa_token_id q" "ar_decision rc = ''allow''"
  shows "\<not> is_allow (snd (snd (evaluate w revoked q tb)))"
proof
  obtain tb' cur ans where e: "evaluate w revoked q tb = (tb', cur, ans)" by (metis prod_cases3)
  assume "is_allow (snd (snd (evaluate w revoked q tb)))"
  then obtain row where "row_refusal w row q tb = None" using evaluate_allowed [OF e] e by auto
  from row_refusal_None(4,6) [OF this] show False using assms by (auto simp: allow_receipts_def filter_empty_conv)
qed

text \<open>
  C1. A token is allowed once. After an evaluation has allowed an action with a token, no
  transaction of the service, on any mount, by any caller, at any time and with any clock, lets
  another evaluation with the same token identifier be allowed.
\<close>

theorem token_single_use:
  assumes ok: "tables_ok tb" and allow: "evaluate w revoked q tb = (tb1, cur, ans)" "is_allow ans"
    and run: "mount_step\<^sup>*\<^sup>* tb1 tb2" and same: "qa_token_id q' = qa_token_id q"
  shows "\<not> is_allow (snd (snd (evaluate w' revoked' q' tb2)))"
proof -
  have ok1: "tables_ok tb1" using ok keeps_evaluate [OF allow(1)] by (simp add: keeps_def)
  obtain rc where "tb_receipts tb1 = tb_receipts tb @ [rc]" "ar_token_id rc = qa_token_id q" "ar_decision rc = ''allow''"
    by (rule evaluate_receipt [OF ok allow])
  then show ?thesis using receipt_blocks [of rc tb2 q'] ms.run_receipts [OF run ok1, of rc] same by simp
qed

theorem token_single_use_witness:
  "\<exists>tb1 cur ans. evaluate sample_world {} sample_action sample_tables = (tb1, cur, ans) \<and> is_allow ans \<and>
     (\<forall>w revoked. \<not> is_allow (snd (snd (evaluate w revoked sample_action tb1))))"
proof -
  obtain tb1 cur ans where e: "evaluate sample_world {} sample_action sample_tables = (tb1, cur, ans)" "is_allow ans"
    using sample_allow by blast
  then show ?thesis using token_single_use [OF sample_tables_ok e rtranclp.rtrancl_refl refl] by blast
qed

subsection \<open>The termination fence\<close>

lemma terminate_now_row:
  assumes "terminate_txn w mid reason who ws revoked tb tb = (tb', revoked', Term_Now a)"
  obtains row where "row_of mid tb = Some row" "\<not> mr_terminated row"
    "row_of mid tb' = Some (row\<lparr>mr_terminated := True, mr_authority_epoch := or_int (mr_authority_epoch row) 1 + 1\<rparr>)"
  using assms
proof (cases rule: terminate_txn_cases)
  case (now row tb1 a')
  let ?row = "row\<lparr>mr_terminated := True, mr_authority_epoch := or_int (mr_authority_epoch row) 1 + 1\<rparr>"
  have r1: "row_of (mr_mount_id ?row) tb1 = Some row" using now(1,4) by (simp add: audit_onlyD row_of_id)
  have "row_of mid tb' = row_of mid (set_row ?row tb1)"
    using now(8) by (auto simp: revoke_lease_def split: option.splits if_splits sum.splits)
  then have "row_of mid tb' = Some ?row" using row_of_set_row [OF r1] now(1) by (simp add: row_of_id)
  then show thesis using that now(1,3) by blast
qed auto

lemma dead_evaluate: "dead (qa_mount_id q) tb \<Longrightarrow> \<not> is_allow (snd (snd (evaluate w revoked q tb)))"
proof
  obtain tb' cur ans where e: "evaluate w revoked q tb = (tb', cur, ans)" by (metis prod_cases3)
  assume d: "dead (qa_mount_id q) tb" and "is_allow (snd (snd (evaluate w revoked q tb)))"
  then have "is_allow ans" using e by simp
  show False
  proof (rule evaluate_allowed [OF e \<open>is_allow ans\<close>])
    fix row
    assume "row_of (qa_mount_id q) tb = Some row" "row_refusal w row q tb = None"
    then show False using d row_refusal_None(1) by (auto simp: dead_def)
  qed
qed

lemma dead_begin: "dead mid tb \<Longrightarrow> snd (begin_txn w mid op seen tb) \<noteq> Begun"
proof
  obtain tb' b where e: "begin_txn w mid op seen tb = (tb', b)" by fastforce
  assume "dead mid tb" "snd (begin_txn w mid op seen tb) = Begun"
  then show False using e begin_refusal_dead by (cases rule: begin_txn_cases [OF e]) auto
qed

lemma dead_claim: "dead mid tb \<Longrightarrow> fst (snd (claim_start w mid tid nonce op who ws tb)) = DENY"
  by (auto simp: dead_def claim_start_def)

lemma dead_active: "dead mid tb \<Longrightarrow> \<exists>e. active_row mid who ws what tb = Inl e"
  by (auto simp: dead_def active_row_def)

lemma dead_handover:
  assumes "dead mid tb"
  shows "\<exists>e. handover_incarnation w mid dh text who ws tb = (tb, Inl e)" "\<exists>e. advance_epoch mid who ws tb = (tb, Inl e)"
  using dead_active [OF assms, of who ws "''handover incarnation''"] dead_active [OF assms, of who ws "''advance epoch''"]
  by (auto simp: handover_incarnation_def advance_epoch_def)

text \<open>
  C2. The termination fence. Once a termination has been anchored and committed, then after any
  run of the service the mount's row is still the terminated one, no operation of the mount has
  been started, no receipt issued, no evidence consumed and no permit redeemed since, and no later
  evaluation, start, claim, epoch advance or handover of the mount succeeds.
\<close>

theorem termination_fence:
  assumes ok: "tables_ok tb"
    and fin: "terminate_txn w mid reason who ws revoked tb tb = (tb1, revoked1, Term_Now a)"
    and run: "mount_step\<^sup>*\<^sup>* tb1 tb2"
  shows "dead mid tb2 \<and> row_of mid tb2 = row_of mid tb1 \<and>
    filter (\<lambda>e. ce_mount_id e = mid \<and> ce_state e = CS_STARTED) (tb_events tb2) =
      filter (\<lambda>e. ce_mount_id e = mid \<and> ce_state e = CS_STARTED) (tb_events tb1) \<and>
    filter (\<lambda>r. ar_mount_id r = mid) (tb_receipts tb2) = filter (\<lambda>r. ar_mount_id r = mid) (tb_receipts tb1) \<and>
    filter (\<lambda>c. co_mount_id c = mid) (tb_consumed tb2) = filter (\<lambda>c. co_mount_id c = mid) (tb_consumed tb1) \<and>
    filter (\<lambda>r. rd_mount_id r = mid) (tb_redeemed tb2) = filter (\<lambda>r. rd_mount_id r = mid) (tb_redeemed tb1) \<and>
    (qa_mount_id q = mid \<longrightarrow> \<not> is_allow (snd (snd (evaluate w' revoked' q tb2)))) \<and>
    snd (begin_txn w' mid op seen tb2) \<noteq> Begun \<and>
    fst (snd (claim_start w' mid tid nonce op who' ws' tb2)) = DENY \<and>
    (\<exists>e. advance_epoch mid who' ws' tb2 = (tb2, Inl e)) \<and>
    (\<exists>e. handover_incarnation w' mid dh text who' ws' tb2 = (tb2, Inl e))"
proof -
  obtain row0 where "row_of mid tb1 = Some (row0\<lparr>mr_terminated := True,
      mr_authority_epoch := or_int (mr_authority_epoch row0) 1 + 1\<rparr>)" by (rule terminate_now_row [OF fin])
  then obtain row where row: "row_of mid tb1 = Some row" "mr_terminated row" by simp
  have ok1: "tables_ok tb1" using ok keeps_terminate [OF fin] by (simp add: keeps_def)
  note le = tables_le_dead [OF ms.run_le [OF run ok1] row]
  have d: "dead mid tb2" using le(1) row(2) by (simp add: dead_def)
  have r: "row_of mid tb2 = row_of mid tb1" using le(1) row(1) by simp
  have ev: "qa_mount_id q = mid \<longrightarrow> \<not> is_allow (snd (snd (evaluate w' revoked' q tb2)))" using d dead_evaluate by blast
  show ?thesis
    by (intro conjI d r ev le(2-5) dead_begin [OF d] dead_claim [OF d] dead_handover [OF d])
qed

lemma sample_terminate:
  "\<exists>tb1 revoked a. terminate_txn sample_world ''mnt_a'' EXPLICIT_TERMINATE ''alice'' (Some ''w'') {} sample_tables sample_tables =
     (tb1, revoked, Term_Now a)"
proof -
  obtain tb1 a where c: "call_anchor sample_world 0 (decision_request ''terminate'' ''execution'' ALLOW
      (unmount_value EXPLICIT_TERMINATE) (Some (mr_mount sample_row)) (Some (row_token sample_row))) sample_tables = (tb1, a)"
    by fastforce
  then have "anchored a" "tb_leases tb1 = []"
    by (auto simp: call_anchor_def sample_world_def local_confirmed_anchor_def anchored_def sample_tables_def)
  moreover have "\<not> mr_terminated sample_row" by (simp add: sample_row_def)
  ultimately show ?thesis
    using terminate_txn_row [OF sample_row_of sample_owned _ c] by (simp add: revoke_lease_def lease_of_def)
qed

theorem termination_fence_witness:
  "\<exists>tb1 revoked a. terminate_txn sample_world ''mnt_a'' EXPLICIT_TERMINATE ''alice'' (Some ''w'') {} sample_tables sample_tables =
     (tb1, revoked, Term_Now a) \<and> dead ''mnt_a'' tb1 \<and>
     (\<forall>w revoked'. \<not> is_allow (snd (snd (evaluate w revoked' sample_action tb1))))"
proof -
  obtain tb1 revoked a where t: "terminate_txn sample_world ''mnt_a'' EXPLICIT_TERMINATE ''alice'' (Some ''w'') {} sample_tables
    sample_tables = (tb1, revoked, Term_Now a)" using sample_terminate by blast
  have "qa_mount_id sample_action = ''mnt_a''" by (simp add: sample_action_def)
  then show ?thesis using t termination_fence [OF sample_tables_ok t rtranclp.rtrancl_refl, where q = sample_action] by blast
qed

subsection \<open>Histories\<close>

text \<open>
  C11. In every run of the service, whatever stale event rows its transactions read, the events of
  each operation are numbered from 0 without gaps, begin with \<open>AUTHORIZED\<close>, hold at most one
  \<open>STARTED\<close> and one identity, and their states are a path of listed transitions once a repeated
  state is counted once; the only state that is ever repeated is \<open>OUTCOME_UNKNOWN\<close>, by a further
  uncertain completion report. An operation whose state has no listed successor keeps it.
\<close>

theorem service_history_legal:
  assumes "tables_ok tb" "mount_step\<^sup>*\<^sup>* tb tb'" and h: "h = history op (tb_events tb')"
  shows "one_operation h \<and> legal_path (remdups_adj (map ce_state h)) \<and>
    (\<forall>i. Suc i < length h \<and> ce_state (h ! i) = ce_state (h ! Suc i) \<longrightarrow> ce_state (h ! i) = CS_OUTCOME_UNKNOWN) \<and>
    (\<forall>e. latest_event op (tb_events tb) = Some e \<and> allowed_transitions (ce_state e) = {} \<longrightarrow>
       latest_event op (tb_events tb') = Some e)"
proof -
  have wf: "events_wf (tb_events tb)" "events_wf (tb_events tb')"
    using assms ms.run_ok by (auto simp: tables_ok_def)
  note p = events_wf_history [OF wf(2), of op, folded h]
  have "ce_state (h ! i) = CS_OUTCOME_UNKNOWN" if "Suc i < length h" "ce_state (h ! i) = ce_state (h ! Suc i)" for i
    using event_step_repeats [OF p(2), of i] that by simp
  moreover have "latest_event op (tb_events tb') = Some e"
    if "latest_event op (tb_events tb) = Some e" "allowed_transitions (ce_state e) = {}" for e
    using ms.events.final_stays [OF wf(1) that ms.run_event_writes [OF assms(2,1)]] .
  ultimately show ?thesis using p(1) event_step_legal [OF p(2)] by blast
qed

definition sample_authorized :: tables where
  "sample_authorized = sample_tables\<lparr>tb_events :=
     [authorized_event sample_world sample_row ''op'' ''ih'' ''rcpt'' ''draft.write'' []]\<rparr>"

lemma sample_authorize:
  "authorize_txn sample_world sample_row ''op'' ''ih'' ''rcpt'' ''draft.write'' [] sample_tables = Some sample_authorized"
  by (simp add: authorize_txn_def sample_authorized_def sample_tables_def event_conflict_def)

lemma sample_authorized_ok: "tables_ok sample_authorized"
  using sample_tables_ok keeps_authorize [OF sample_authorize] by (simp add: keeps_def)

lemma sample_latest:
  "latest_event ''op'' (tb_events sample_authorized) =
     Some (authorized_event sample_world sample_row ''op'' ''ih'' ''rcpt'' ''draft.write'' [])"
  by (simp add: latest_event_def sample_authorized_def authorized_event_def)

definition sample_begun :: tables where
  "sample_begun = sample_authorized\<lparr>tb_events := tb_events sample_authorized @
     [started_event (later 1 sample_world) ''op'' (Some sample_row)
        (authorized_event sample_world sample_row ''op'' ''ih'' ''rcpt'' ''draft.write'' [])]\<rparr>"

lemma sample_begin_txn:
  "begin_txn (later 1 sample_world) ''mnt_a'' ''op'' (tb_events sample_authorized) sample_authorized = (sample_begun, Begun)"
proof -
  let ?a = "authorized_event sample_world sample_row ''op'' ''ih'' ''rcpt'' ''draft.write'' []"
  have r: "row_of ''mnt_a'' sample_authorized = Some sample_row"
    using sample_row_of by (simp add: sample_authorized_def row_of_def)
  have a: "ce_state ?a = CS_AUTHORIZED" "begin_refusal (Some sample_row) ?a = None"
    by (simp_all add: authorized_event_def begin_refusal_def sample_row_def)
  have "\<not> event_conflict (tb_events sample_authorized) (started_event (later 1 sample_world) ''op'' (Some sample_row) ?a)"
    by (simp add: event_conflict_def sample_authorized_def started_event_def advance_event_def authorized_event_def later_def
        sample_world_def sample_uid_def)
  then show ?thesis using r a sample_latest by (simp add: begin_txn_def sample_begun_def)
qed

lemma sample_begin_step: "mount_step sample_authorized sample_begun"
proof (rule step_begin [OF sample_begin_txn, where ns = "[]"])
  fix l
  assume "latest_event ''op'' (tb_events sample_authorized) = Some l"
  then have "l = authorized_event sample_world sample_row ''op'' ''ih'' ''rcpt'' ''draft.write'' []"
    using sample_latest by simp
  then show "ce_mount_id l = ''mnt_a''" by (simp add: authorized_event_def sample_row_def sample_mount_value_def)
qed simp

theorem service_history_legal_witness:
  "tables_ok sample_authorized \<and> mount_step sample_authorized sample_begun \<and>
   one_operation (history ''op'' (tb_events sample_begun)) \<and>
   legal_path (remdups_adj (map ce_state (history ''op'' (tb_events sample_begun))))"
  using service_history_legal [OF sample_authorized_ok r_into_rtranclp refl, OF sample_begin_step] sample_authorized_ok
    sample_begin_step by blast

subsection \<open>Redemption\<close>

lemma redeemed_conditions:
  assumes "redeem_txn w pinned op permit ph ref sig seen seen' tb = (tb', Redeemed)"
  obtains key s k row l where "permit_key (w_sha w) (w_mac w) (w_settings w) = Some key" "ref = Some s" "pinned s = Some k"
    "w_signature_valid w k (or_str sig []) (redeem_message (w_sha w) op ph permit s)"
    "row_of (mr_mount_id row) tb = Some row" "\<not> mr_terminated row" "w_clk w 0 < mr_expires_at row"
    "latest_event op seen' = Some l" "ce_state l = CS_STARTED"
    "permit_matches (w_mac w) key permit op (mr_mount_id row) (ce_receipt_id l) ph s = Some True"
    "map rd_operation_id (tb_redeemed tb') = map rd_operation_id (tb_redeemed tb) @ [op]"
    "op \<notin> rd_operation_id ` set (tb_redeemed tb)"
  using assms
proof (cases rule: redeem_txn_cases)
  case (decided key s k first row)
  show thesis
    using decided(7)
  proof (rule redeem_decide_Redeemed)
    fix l
    assume l: "\<not> mr_terminated row" "w_clk w 0 < mr_expires_at row" "latest_event op seen' = Some l" "ce_state l = CS_STARTED"
      "permit_matches (w_mac w) key permit op (mr_mount_id row) (ce_receipt_id l) ph s = Some True"
      "op \<notin> rd_operation_id ` set (tb_redeemed tb)"
      "tb' = tb\<lparr>tb_redeemed := tb_redeemed tb @ [\<lparr>rd_operation_id = op, rd_mount_id = mr_mount_id row,
         rd_receipt_id = ce_receipt_id l, rd_payload_sha256 = ph, rd_sink_ref = Some s, rd_redeemed_at = w_clk w 1\<rparr>]\<rparr>"
    have "row_of (mr_mount_id row) tb = Some row" using decided(6) row_of_id by metis
    then show thesis using that [OF decided(1-4)] l by simp
  qed
qed simp

text \<open>
  C7. A permit is redeemed at most once, and only for a live mount whose operation is in
  progress: a redemption that succeeds presented a valid signature of the pinned target key, a
  live and unexpired mount, an operation whose latest event is \<open>STARTED\<close>, and the permit minted for
  exactly this operation, mount, receipt, payload and target. After it, no run of the service lets
  the operation be redeemed again, by any target and with any permit.
\<close>

theorem redemption_once:
  assumes ok: "tables_ok tb"
    and red: "redeem_txn w pinned op permit ph ref sig seen seen' tb = (tb1, Redeemed)"
    and run: "mount_step\<^sup>*\<^sup>* tb1 tb2"
  shows "(\<exists>key s k row l. permit_key (w_sha w) (w_mac w) (w_settings w) = Some key \<and> ref = Some s \<and> pinned s = Some k \<and>
      w_signature_valid w k (or_str sig []) (redeem_message (w_sha w) op ph permit s) \<and>
      row_of (mr_mount_id row) tb = Some row \<and> \<not> mr_terminated row \<and> w_clk w 0 < mr_expires_at row \<and>
      latest_event op seen' = Some l \<and> ce_state l = CS_STARTED \<and>
      permit_matches (w_mac w) key permit op (mr_mount_id row) (ce_receipt_id l) ph s = Some True) \<and>
    snd (redeem_txn w' pinned' op permit' ph' ref' sig' seen2 seen2' tb2) \<noteq> Redeemed"
proof
  show "\<exists>key s k row l. permit_key (w_sha w) (w_mac w) (w_settings w) = Some key \<and> ref = Some s \<and> pinned s = Some k \<and>
      w_signature_valid w k (or_str sig []) (redeem_message (w_sha w) op ph permit s) \<and>
      row_of (mr_mount_id row) tb = Some row \<and> \<not> mr_terminated row \<and> w_clk w 0 < mr_expires_at row \<and>
      latest_event op seen' = Some l \<and> ce_state l = CS_STARTED \<and>
      permit_matches (w_mac w) key permit op (mr_mount_id row) (ce_receipt_id l) ph s = Some True"
    using red by (rule redeemed_conditions) blast
  have "op \<in> rd_operation_id ` set (tb_redeemed tb1)"
    using red
  proof (rule redeemed_conditions)
    assume "map rd_operation_id (tb_redeemed tb1) = map rd_operation_id (tb_redeemed tb) @ [op]"
    then have "op \<in> set (map rd_operation_id (tb_redeemed tb1))" by (simp del: set_map)
    then show ?thesis by simp
  qed
  moreover have "tables_ok tb1" using ok keeps_redeem [OF red] by (simp add: keeps_def)
  ultimately have again: "op \<in> rd_operation_id ` set (tb_redeemed tb2)"
    using ms.run_le [OF run] by (auto simp: tables_le_def grows_def)
  show "snd (redeem_txn w' pinned' op permit' ph' ref' sig' seen2 seen2' tb2) \<noteq> Redeemed"
  proof
    assume "snd (redeem_txn w' pinned' op permit' ph' ref' sig' seen2 seen2' tb2) = Redeemed"
    then obtain tb3 where "redeem_txn w' pinned' op permit' ph' ref' sig' seen2 seen2' tb2 = (tb3, Redeemed)"
      by (metis prod.collapse)
    then show False by (rule redeemed_conditions) (use again in simp)
  qed
qed

definition sample_redeemer :: world where
  "sample_redeemer = sample_world\<lparr>w_settings := Some \<lparr>ps_consequence_permit_key = Some ''k'', ps_approval_token_signing_key = None\<rparr>\<rparr>"

definition sample_permit :: string where
  "sample_permit = permit_domain @ ''|explicit|k'' @ permit_message ''op'' ''mnt_a'' (Some ''rcpt'') ''ph'' ''sink''"

lemma sample_started_latest:
  "\<exists>l. latest_event ''op'' (tb_events sample_begun) = Some l \<and> ce_state l = CS_STARTED \<and> ce_receipt_id l = Some ''rcpt'' \<and>
     ce_mount_id l = ''mnt_a''"
proof -
  let ?a = "authorized_event sample_world sample_row ''op'' ''ih'' ''rcpt'' ''draft.write'' []"
  have "ce_operation_id ?a = ''op''" "ce_version ?a = 0" "ce_receipt_id ?a = Some ''rcpt''" "ce_mount_id ?a = ''mnt_a''"
    by (simp_all add: authorized_event_def sample_row_def sample_mount_value_def)
  then show ?thesis
    by (simp add: latest_event_def sample_begun_def sample_authorized_def started_event_def advance_event_def)
qed

lemma sample_redeem:
  "\<exists>tb. redeem_txn sample_redeemer (\<lambda>_. Some ''pk'') ''op'' sample_permit ''ph'' (Some ''sink'') None (tb_events sample_begun)
     (tb_events sample_begun) sample_begun = (tb, Redeemed)"
proof -
  obtain l where l: "latest_event ''op'' (tb_events sample_begun) = Some l" "ce_state l = CS_STARTED"
    "ce_receipt_id l = Some ''rcpt''" "ce_mount_id l = ''mnt_a''" using sample_started_latest by blast
  have row: "row_of ''mnt_a'' sample_begun = Some sample_row"
    using sample_row_of by (simp add: sample_begun_def sample_authorized_def row_of_def)
  have k: "permit_key (w_sha sample_redeemer) (w_mac sample_redeemer) (w_settings sample_redeemer) =
      Some (permit_domain @ ''|explicit|k'')"
    by (simp add: permit_key_def sample_redeemer_def sample_world_def)
  have p: "permit_matches (w_mac sample_redeemer) (permit_domain @ ''|explicit|k'') sample_permit ''op'' ''mnt_a'' (Some ''rcpt'')
      ''ph'' ''sink'' = Some True"
    by (simp add: permit_matches_def mint_permit_def sample_permit_def sample_redeemer_def sample_world_def)
  have r: "\<not> mr_terminated sample_row" "mr_expires_at sample_row = 60000000" "mr_mount_id sample_row = ''mnt_a''"
    "tb_redeemed sample_begun = []" "w_clk sample_redeemer 0 = 0" "w_signature_valid sample_redeemer = (\<lambda>_ _ _. True)"
    by (simp_all add: sample_row_def sample_begun_def sample_authorized_def sample_tables_def sample_redeemer_def sample_world_def)
  show ?thesis using l row k p r by (simp add: redeem_txn_def redeem_decide_def)
qed

lemma sample_begun_ok: "tables_ok sample_begun"
  using mount_step_keeps [OF sample_begin_step] sample_authorized_ok by (simp add: keeps_def)

theorem redemption_once_witness:
  "\<exists>tb. redeem_txn sample_redeemer (\<lambda>_. Some ''pk'') ''op'' sample_permit ''ph'' (Some ''sink'') None (tb_events sample_begun)
     (tb_events sample_begun) sample_begun = (tb, Redeemed) \<and>
   snd (redeem_txn sample_redeemer (\<lambda>_. Some ''pk'') ''op'' sample_permit ''ph'' (Some ''sink'') None (tb_events sample_begun)
     (tb_events sample_begun) tb) \<noteq> Redeemed"
  using sample_redeem redemption_once [OF sample_begun_ok _ rtranclp.rtrancl_refl] by meson

subsection \<open>Epochs\<close>

lemma row_of_align [simp]: "row_of mid' (align_lease mid n tb) = row_of mid' tb"
  by (simp add: align_lease_def split: option.splits)

lemma advance_epoch_row:
  assumes "advance_epoch mid who ws tb = (tb1, Inr n)" "row_of mid tb = Some row"
  shows "row_of mid tb1 = Some (row\<lparr>mr_authority_epoch := or_int (mr_authority_epoch row) 1 + 1\<rparr>)"
proof -
  have a: "active_row mid who ws ''advance epoch'' tb = Inr row"
    using assms by (cases "active_row mid who ws ''advance epoch'' tb") (auto simp: advance_epoch_def active_row_Inr)
  have "row_of (mr_mount_id (row\<lparr>mr_authority_epoch := x\<rparr>)) tb = Some row" for x using assms(2) by (simp add: row_of_id)
  then show ?thesis using assms a row_of_id [OF assms(2)] by (auto simp: advance_epoch_def Let_def row_of_set_row)
qed

lemma handover_incarnation_row:
  assumes "handover_incarnation w mid dh text who ws tb = (tb1, Inr h)" "row_of mid tb = Some row"
  shows "row_of mid tb1 = Some (handover_row w dh text row)"
proof -
  have a: "active_row mid who ws ''handover incarnation'' tb = Inr row"
    using assms by (cases "active_row mid who ws ''handover incarnation'' tb") (auto simp: handover_incarnation_def active_row_Inr)
  let ?row = "handover_row w dh text row"
  obtain tb2 r where c: "call_anchor w 0 (decision_request ''handover_incarnation'' ''handover'' ALLOW text
      (Some (mr_mount ?row)) (Some (row_token ?row))) (align_lease mid (mr_authority_epoch ?row) (set_row ?row tb)) = (tb2, r)"
    by fastforce
  have "tb1 = tb2" using assms(1) unfolding handover_incarnation_def a sum.case Let_def c prod.case by (auto split: if_splits)
  moreover have "row_of (mr_mount_id ?row) tb = Some row" using assms(2) by (simp add: row_of_id)
  ultimately show ?thesis
    using audit_onlyD(8) [OF call_anchor_audit_only [OF c], of mid] row_of_id [OF assms(2)] by (simp add: row_of_set_row)
qed

lemma stale_refusal:
  "latest_event op seen = Some l \<Longrightarrow> begin_refusal (row_of mid tb) l \<noteq> None \<Longrightarrow> snd (begin_txn w mid op seen tb) \<noteq> Begun"
  by (auto simp: begin_txn_def Let_def)

text \<open>
  C12. Advancing the epoch, or handing the mount over to a new incarnation, fences every operation
  authorized before: after any further run of the service, an operation whose latest event carries
  an authority epoch no newer than the mount's epoch before the change is not started.
\<close>

theorem stale_epoch_fenced:
  assumes ok: "tables_ok tb" and row: "row_of mid tb = Some row"
    and change: "advance_epoch mid who ws tb = (tb1, Inr n) \<or> handover_incarnation w mid dh text who ws tb = (tb1, Inr h)"
    and run: "mount_step\<^sup>*\<^sup>* tb1 tb2"
    and old: "latest_event op seen = Some l" "ce_authority_epoch l = Some k" "k \<le> mr_authority_epoch row"
  shows "snd (begin_txn w' mid op seen tb2) \<noteq> Begun"
proof -
  have "mr_authority_epoch row < or_int (mr_authority_epoch row) 1 + 1" by (simp add: or_int_def)
  then obtain row1 where row1: "row_of mid tb1 = Some row1" "mr_authority_epoch row < mr_authority_epoch row1"
    using change advance_epoch_row [OF _ row] handover_incarnation_row [OF _ row] by fastforce
  have ok1: "tables_ok tb1" using ok change keeps_advance keeps_handover by (auto simp: keeps_def)
  obtain row2 where row2: "row_of mid tb2 = Some row2" "mr_authority_epoch row1 \<le> mr_authority_epoch row2"
    by (rule ms.run_row [OF run ok1 row1(1)])
  then have "begin_refusal (row_of mid tb2) l \<noteq> None" using old row1 by (auto simp: begin_refusal_def)
  then show ?thesis using stale_refusal [OF old(1)] by blast
qed

lemma sample_authorized_row: "row_of ''mnt_a'' sample_authorized = Some sample_row"
  using sample_row_of by (simp add: sample_authorized_def row_of_def)

lemma sample_advance: "\<exists>tb. advance_epoch ''mnt_a'' ''alice'' (Some ''w'') sample_authorized = (tb, Inr 2)"
proof -
  have "active_row ''mnt_a'' ''alice'' (Some ''w'') ''advance epoch'' sample_authorized = Inr sample_row"
    using sample_authorized_row sample_owned by (simp add: active_row_Inr sample_row_def)
  moreover have "mr_authority_epoch sample_row = 1" by (simp add: sample_row_def)
  ultimately show ?thesis by (simp add: advance_epoch_def or_int_def)
qed

theorem stale_epoch_fenced_witness:
  "\<exists>tb. snd (begin_txn (later 1 sample_world) ''mnt_a'' ''op'' (tb_events sample_authorized) sample_authorized) = Begun \<and>
     advance_epoch ''mnt_a'' ''alice'' (Some ''w'') sample_authorized = (tb, Inr 2) \<and>
     snd (begin_txn (later 1 sample_world) ''mnt_a'' ''op'' (tb_events sample_authorized) tb) \<noteq> Begun"
proof -
  obtain tb where tb: "advance_epoch ''mnt_a'' ''alice'' (Some ''w'') sample_authorized = (tb, Inr 2)"
    using sample_advance by blast
  have "ce_authority_epoch (authorized_event sample_world sample_row ''op'' ''ih'' ''rcpt'' ''draft.write'' []) = Some 1"
    "1 \<le> mr_authority_epoch sample_row"
    by (simp_all add: authorized_event_def sample_row_def)
  from stale_epoch_fenced [OF sample_authorized_ok sample_authorized_row disjI1 [OF tb] rtranclp.rtrancl_refl sample_latest this]
  show ?thesis using tb sample_begin_txn by auto
qed

end
