(* ===== verification/Mount_Guarantees.thy ===== *)
theory Mount_Guarantees
  imports Mount_System
begin

text \<open>
  What the decisions of the mount service guarantee one by one: everything an allowed evaluation
  has checked and written, that nothing is granted or changed without a confirmed ledger anchor,
  that a freshly requested mount can be used, and which operations a termination reports as in
  flight.
\<close>

subsection \<open>What an allowed evaluation has checked\<close>

lemma lease_refusal_None:
  assumes "lease_refusal w row q tb = None" "lease_of (qa_mount_id q) tb = Some l"
  obtains b eff where "biscuit_authority w (row_token row) = Some b"
    "evaluate_authority l (Some b) (package_authority w (row_token row) b) ONLINE (w_clk w 1) = Inr eff"
    "qa_action q \<in> ac_allowed_actions eff" "resource_in (qa_resource q) (ac_allowed_resources eff)"
    "gr_resources (tk_grants (mr_token row)) \<noteq> [] \<longrightarrow> ''*'' \<notin> ac_allowed_resources b"
  using assms by (auto simp: lease_refusal_def row_token_def split: option.splits sum.splits if_splits)

lemma evidence_gate_Inr:
  assumes "evidence_gate w i kind tok missing replayed row q tb = Inr e"
  shows "verify_evidence (w_sha w) (w_evidence w) (w_clk w i) tok kind (qa_owner_principal q) (mr_mount row)
      (qa_action q) (qa_nonce q) = Inr e" "ve_jti e \<notin> co_jti ` set (tb_consumed tb)"
  using assms by (auto simp: evidence_gate_def list_ex_iff split: sum.splits if_splits)

lemma gate_evidence_Inr:
  assumes "gate_evidence w row q tb = Inr evs"
  shows "qa_action q \<in> set (gr_external_send (tk_grants (mr_token row))) \<Longrightarrow>
      mp_require_human_approval_for_external_send (tk_policy (mr_token row)) \<Longrightarrow>
      \<exists>e \<in> set evs. verify_evidence (w_sha w) (w_evidence w) (w_clk w 2) (qa_approval_token q) Human_Approval
        (qa_owner_principal q) (mr_mount row) (qa_action q) (qa_nonce q) = Inr e \<and> ve_jti e \<notin> co_jti ` set (tb_consumed tb)"
    and "qa_action q \<in> set (gr_suppression_required (tk_grants (mr_token row))) \<Longrightarrow>
      mp_require_suppression_check (tk_policy (mr_token row)) \<Longrightarrow>
      \<exists>e \<in> set evs. verify_evidence (w_sha w) (w_evidence w) (w_clk w 3) (qa_suppression_evidence q) Suppression_Check
        (qa_owner_principal q) (mr_mount row) (qa_action q) (qa_nonce q) = Inr e \<and> ve_jti e \<notin> co_jti ` set (tb_consumed tb)"
  using assms evidence_gate_Inr
  by (fastforce simp: gate_evidence_def Let_def row_token_def map_sum_def split: sum.splits if_splits)+

lemma profile_decision_Inr:
  assumes "profile_decision w revoked row q tb = (b, Inr evs)"
  shows "tk_mount_id (mr_token row) \<notin> revoked" "profile_allows (tk_grants (mr_token row)) (qa_action q)"
    "profile_covers_resource (tk_grants (mr_token row)) (qa_resource q)" "gate_evidence w row q tb = Inr evs"
proof -
  let ?c = "check_live (w_sha w) (\<lambda>i. w_uid w (i + 4)) (\<lambda>i. w_clk w (i + 4)) revoked (row_binding row)"
  obtain b' e where c: "?c = (b', e)" by fastforce
  have e: "e = None"
    using assms c by (cases e) (auto simp: profile_decision_def Let_def split: policy_error.splits)
  have "tk_mount_id (bd_token (row_binding row)) \<notin> revoked" using c e by (simp add: check_live_None)
  then show "tk_mount_id (mr_token row) \<notin> revoked" by (simp add: row_binding_def new_binding_def row_token_def)
  note p = assms [unfolded profile_decision_def Let_def c e prod.case option.case]
  show "profile_allows (tk_grants (mr_token row)) (qa_action q)"
    "profile_covers_resource (tk_grants (mr_token row)) (qa_resource q)" "gate_evidence w row q tb = Inr evs"
    using p by (auto simp: row_token_def split: if_splits sum.splits)
qed

lemma consume_evidence_in:
  "consume_evidence now mid action es cs = Some cs' \<Longrightarrow> e \<in> set es \<Longrightarrow> ve_jti e \<in> co_jti ` set cs'"
proof (induction now mid action es cs rule: consume_evidence.induct)
  case (2 now mid action e' es cs)
  have "grows (\<lambda>c. co_mount_id c = mid) (cs @ [\<lparr>co_jti = ve_jti e', co_kind = ve_kind e', co_mount_id = mid, co_action = action,
      co_consumed_at = now\<rparr>]) cs'"
    using 2(2) by (intro consume_evidence_grows) (simp split: if_splits)
  then show ?case using 2 by (force simp: grows_def split: if_splits)
qed simp

text \<open>
  What the levels of authority have granted, for an action on a resource: the capability profile and,
  for a mount with a lease, the live lease, the signed token and the package, where it is known.
\<close>

definition granted :: "world \<Rightarrow> mount_row \<Rightarrow> action_request \<Rightarrow> tables \<Rightarrow> bool" where
  "granted w row q tb \<longleftrightarrow>
     profile_allows (tk_grants (mr_token row)) (qa_action q) \<and>
     profile_covers_resource (tk_grants (mr_token row)) (qa_resource q) \<and>
     (case lease_of (qa_mount_id q) tb of
        None \<Rightarrow> True
      | Some l \<Rightarrow> ls_lease_state l \<in> {LS_ISSUED, LS_ACTIVE} \<and> w_clk w 9 \<le> ls_expires_at l \<and>
          qa_action q \<in> ls_allowed_actions l \<and> resource_in (qa_resource q) (ls_allowed_resources l) \<and>
          (\<exists>b. biscuit_authority w (row_token row) = Some b \<and> qa_action q \<in> ac_allowed_actions b \<and>
             resource_in (qa_resource q) (ac_allowed_resources b) \<and>
             (gr_resources (tk_grants (mr_token row)) \<noteq> [] \<longrightarrow> ''*'' \<notin> ac_allowed_resources b)) \<and>
          (\<forall>p. w_packages w (tk_package_ref (mr_token row)) = Some p \<longrightarrow>
             qa_action q \<in> set (pk_reads p) \<union> set (pk_writes p) \<union> set (pk_external_send_actions p)))"

text \<open>The evidence of one kind that an action needs, verified for this request and then spent.\<close>

definition evidence_spent ::
  "world \<Rightarrow> nat \<Rightarrow> evidence_kind \<Rightarrow> string option \<Rightarrow> mount_row \<Rightarrow> action_request \<Rightarrow> tables \<Rightarrow> tables \<Rightarrow> bool" where
  "evidence_spent w i kind tok row q tb tb' \<longleftrightarrow>
    (\<exists>e. verify_evidence (w_sha w) (w_evidence w) (w_clk w i) tok kind (qa_owner_principal q) (mr_mount row) (qa_action q)
         (qa_nonce q) = Inr e \<and>
       ve_jti e \<notin> co_jti ` set (tb_consumed tb) \<and> ve_jti e \<in> co_jti ` set (tb_consumed tb'))"

lemma lease_of_sink [simp]: "lease_of mid (sink_new w i row b b' tb) = lease_of mid tb"
  using audit_onlyD(9) [OF sink_new_audit_only] .

lemma granted_intro:
  assumes "lease_refusal w row q tb = None" "profile_decision w revoked row q tb = (b, Inr evs)"
    "lease_gate w q (Inr evs) (sink_new w 13 row (row_binding row) b tb) = (tb1, Inr evs)"
  shows "granted w row q tb"
proof (cases "lease_of (qa_mount_id q) tb")
  case None
  then show ?thesis using profile_decision_Inr [OF assms(2)] by (simp add: granted_def)
next
  case (Some l)
  obtain bt eff where b: "biscuit_authority w (row_token row) = Some bt"
    "evaluate_authority l (Some bt) (package_authority w (row_token row) bt) ONLINE (w_clk w 1) = Inr eff"
    "qa_action q \<in> ac_allowed_actions eff" "resource_in (qa_resource q) (ac_allowed_resources eff)"
    "gr_resources (tk_grants (mr_token row)) \<noteq> [] \<longrightarrow> ''*'' \<notin> ac_allowed_resources bt"
    using assms(1) Some by (rule lease_refusal_None)
  have "w_clk w 9 \<le> ls_expires_at l" using lease_gate_Inr(2) [OF assms(3)] Some by simp
  moreover have "ls_lease_state l \<in> {LS_ISSUED, LS_ACTIVE}" "qa_action q \<in> ls_allowed_actions l" "qa_action q \<in> ac_allowed_actions bt"
    "resource_in (qa_resource q) (ls_allowed_resources l)" "resource_in (qa_resource q) (ac_allowed_resources bt)"
    using b(2) by (rule evaluate_authority_Inr, use b(3,4) in \<open>simp add: grant_simps\<close>)+
  moreover have pa: "qa_action q \<in> ac_allowed_actions (package_authority w (row_token row) bt)"
    using b(2) by (rule evaluate_authority_Inr) (use b(3) in simp)
  have "qa_action q \<in> set (pk_reads p) \<union> set (pk_writes p) \<union> set (pk_external_send_actions p)"
    if "w_packages w (tk_package_ref (mr_token row)) = Some p" for p
    using pa that by (simp add: package_authority_def row_token_def)
  ultimately show ?thesis using profile_decision_Inr [OF assms(2)] Some b by (simp add: granted_def)
qed

text \<open>
  C8. An allowed evaluation was entitled. Its mount is stored, owned by the caller, not terminated,
  not revoked in this process and not expired; the presented token and nonce are the stored ones
  and unused; the capability profile grants the action on the resource, and for a mount with a lease
  so do the live lease and the signed token, and the package the action, where the package is known;
  where the profile demands them, a human approval and a suppression check were verified for this
  very request, had not been used, and are spent; the decision is anchored, confirmed or staged; and
  exactly one receipt was written, naming the token, mount, principal, action, resource and anchor.
\<close>

theorem evaluate_allow_sound:
  assumes ok: "tables_ok tb" and e: "evaluate w revoked q tb = (tb', cur, ans)" "is_allow ans"
  shows "\<exists>row rc. row_of (qa_mount_id q) tb = Some row \<and> owned_by row (qa_owner_principal q) (qa_owner_workspace q) \<and>
    \<not> mr_terminated row \<and> tk_mount_id (mr_token row) \<notin> revoked \<and> w_clk w 0 < mr_expires_at row \<and>
    qa_token_id q = mr_token_id row \<and> qa_nonce q = mr_token_nonce row \<and> \<not> mr_nonce_consumed row \<and>
    granted w row q tb \<and>
    (qa_action q \<in> set (gr_external_send (tk_grants (mr_token row))) \<and>
       mp_require_human_approval_for_external_send (tk_policy (mr_token row)) \<longrightarrow>
       evidence_spent w 2 Human_Approval (qa_approval_token q) row q tb tb') \<and>
    (qa_action q \<in> set (gr_suppression_required (tk_grants (mr_token row))) \<and>
       mp_require_suppression_check (tk_policy (mr_token row)) \<longrightarrow>
       evidence_spent w 3 Suppression_Check (qa_suppression_evidence q) row q tb tb') \<and>
    tb_receipts tb' = tb_receipts tb @ [rc] \<and> ar_decision rc = ''allow'' \<and> ar_token_id rc = qa_token_id q \<and>
    ar_mount_id rc = qa_mount_id q \<and> ar_principal rc = qa_owner_principal q \<and> ar_action rc = qa_action q \<and>
    ar_resource rc = qa_resource q \<and>
    (\<exists>reason r d. ans = Inr (ALLOW, reason, r, d) \<and> anchored r \<and> ar_pgl_anchor_id rc = an_anchor_id r \<and>
       ar_pgl_anchor_status rc = Some (an_status r))"
proof -
  obtain rc where rc: "tb_receipts tb' = tb_receipts tb @ [rc]" "ar_token_id rc = qa_token_id q" "ar_mount_id rc = qa_mount_id q"
    "ar_decision rc = ''allow''" "ar_action rc = qa_action q" "ar_resource rc = qa_resource q"
    "ar_principal rc = qa_owner_principal q"
    by (rule evaluate_receipt [OF ok e])
  show ?thesis
  proof (rule evaluate_allowed [OF e])
    fix row b evs tb1 tb2 r rc'
    assume a: "row_of (qa_mount_id q) tb = Some row" "owned_by row (qa_owner_principal q) (qa_owner_workspace q)"
      "row_refusal w row q tb = None" "lease_refusal w row q tb = None" "profile_decision w revoked row q tb = (b, Inr evs)"
      "lease_gate w q (Inr evs) (sink_new w 13 row (row_binding row) b tb) = (tb1, Inr evs)"
      "call_anchor w 0 (decision_request ''action_decision'' (qa_action q) ALLOW ''allowed''
         (Some (mr_mount row)) (Some (row_token row))) tb1 = (tb2, r)"
      "allow_commit w row q evs r tb2 = Some (tb', rc')" "anchored r"
      "ans = Inr (ALLOW, ''allowed'', r, Some \<lparr>dt_decision = ALLOW, dt_reason = ''allowed'', dt_receipt_id = Some (ar_receipt_id rc')\<rparr>)"
    obtain cs nxt where m: "assign_merkle_leaf_index (tb_merkle_next tb2) (new_receipt w row q r) = Some (rc', nxt)" and c: "consume_evidence (w_clk w 12) (qa_mount_id q) (qa_action q) evs (tb_consumed tb2) = Some cs"
      "tb' = (set_row (row\<lparr>mr_nonce_consumed := True\<rparr>) tb2)\<lparr>tb_consumed := cs,
         tb_receipts := tb_receipts tb2 @ [rc'], tb_merkle_next := nxt\<rparr>"
      using a(8) by (rule allow_commit_Some)
    note p = profile_decision_Inr [OF a(5)]
    have spent: "ve_jti x \<in> co_jti ` set (tb_consumed tb')" if "x \<in> set evs" for x
      using consume_evidence_in [OF c(1) that] c(2) by simp
    note g = gate_evidence_Inr [OF p(4)]
    have "qa_action q \<in> set (gr_external_send (tk_grants (mr_token row))) \<and>
       mp_require_human_approval_for_external_send (tk_policy (mr_token row)) \<longrightarrow>
       evidence_spent w 2 Human_Approval (qa_approval_token q) row q tb tb'"
      "qa_action q \<in> set (gr_suppression_required (tk_grants (mr_token row))) \<and>
       mp_require_suppression_check (tk_policy (mr_token row)) \<longrightarrow>
       evidence_spent w 3 Suppression_Check (qa_suppression_evidence q) row q tb tb'"
      using g spent unfolding evidence_spent_def by blast+
    moreover have "rc = rc'" using rc(1) c(2) by simp
    then have "ar_pgl_anchor_id rc = an_anchor_id r" "ar_pgl_anchor_status rc = Some (an_status r)"
      using assign_merkle_same(7,8) [OF m] by (simp_all add: new_receipt_def Let_def)
    ultimately show ?thesis using a(1,2,9,10) rc row_refusal_None [OF a(3)] p(1) granted_intro [OF a(4-6)] by blast
  qed
qed

subsection \<open>Without an anchor\<close>

definition anchor_down :: "world \<Rightarrow> bool" where
  "anchor_down w \<longleftrightarrow> (\<forall>i aq audit. \<not> anchored (snd (w_anchor w i aq audit)))"

lemma call_anchor_down: "anchor_down w \<Longrightarrow> call_anchor w i aq tb = (tb', r) \<Longrightarrow> \<not> anchored r"
  by (cases "w_anchor w i aq (tb_audit tb)") (auto simp: anchor_down_def call_anchor_def, metis snd_conv)

lemma evaluate_down:
  assumes "anchor_down w"
  shows "\<not> is_allow (snd (snd (evaluate w revoked q tb)))" "audit_only tb (fst (evaluate w revoked q tb))"
proof -
  obtain tb' cur ans where e: "evaluate w revoked q tb = (tb', cur, ans)" by (metis prod_cases3)
  have no: "\<not> is_allow ans"
  proof
    assume "is_allow ans"
    then show False by (rule evaluate_allowed [OF e]) (use call_anchor_down [OF assms] in blast)
  qed
  have "audit_only tb tb'"
    using e by (cases rule: evaluate_result) (use no in auto)
  then show "\<not> is_allow (snd (snd (evaluate w revoked q tb)))" "audit_only tb (fst (evaluate w revoked q tb))"
    using e no by simp_all
qed

lemma request_down:
  assumes "anchor_down w" "request_mount w q tb = (tb', ans)"
  shows "audit_only tb tb'" "ans \<noteq> Inr (Some m, x)"
proof -
  have "audit_only tb tb' \<and> (\<forall>m x. ans \<noteq> Inr (Some m, x))"
  proof (cases "request_refusal w q")
    case None
    then show ?thesis
      using assms(2) call_anchor_down [OF assms(1)] unfolding request_mount_def None Let_def option.case
      by (auto split: sum.splits mount_failure.splits prod.splits if_splits option.splits)
  next
    case (Some reason)
    then show ?thesis using assms(2) call_anchor_audit_only by (auto simp: request_mount_def split: prod.splits)
  qed
  then show "audit_only tb tb'" "ans \<noteq> Inr (Some m, x)" by blast+
qed

lemma terminate_down:
  assumes "anchor_down w" "terminate_txn w mid reason who ws revoked tb tb = (tb', revoked', t)"
  shows "audit_only tb tb'" "t \<noteq> Term_Now a"
proof -
  have "audit_only tb tb' \<and> (\<forall>a. t \<noteq> Term_Now a)"
  proof (cases "\<exists>row. row_of mid tb = Some row \<and> owned_by row who ws \<and> \<not> mr_terminated row")
    case True
    then obtain row where row: "row_of mid tb = Some row" "owned_by row who ws" "\<not> mr_terminated row" by blast
    obtain tb1 r where c: "call_anchor w 0 (decision_request ''terminate'' ''execution'' ALLOW (unmount_value reason)
        (Some (mr_mount row)) (Some (row_token row))) tb = (tb1, r)" by fastforce
    show ?thesis using assms(2) [unfolded terminate_txn_row [OF row c]] call_anchor_down [OF assms(1) c] by auto
  next
    case False
    then show ?thesis using terminate_txn_not_live [OF assms(2)] by blast
  qed
  then show "audit_only tb tb'" "t \<noteq> Term_Now a" by auto
qed

text \<open>
  C15. The service fails closed without its ledger. If no anchor is confirmed or staged, an
  evaluation is never allowed, a mount is never issued and a mount is never terminated, and none of
  the three changes anything but the audit table.
\<close>

theorem anchor_fail_closed:
  assumes "anchor_down w"
  shows "\<not> is_allow (snd (snd (evaluate w revoked q tb))) \<and> audit_only tb (fst (evaluate w revoked q tb)) \<and>
    (\<forall>m x. snd (request_mount w rq tb) \<noteq> Inr (Some m, x)) \<and> audit_only tb (fst (request_mount w rq tb)) \<and>
    (\<forall>a. snd (snd (terminate_txn w mid reason who ws revoked tb tb)) \<noteq> Term_Now a) \<and>
    audit_only tb (fst (terminate_txn w mid reason who ws revoked tb tb))"
proof -
  obtain tb1 a1 where r: "request_mount w rq tb = (tb1, a1)" by fastforce
  obtain tb2 rv a2 where t: "terminate_txn w mid reason who ws revoked tb tb = (tb2, rv, a2)" by (metis prod_cases3)
  show ?thesis
    using evaluate_down [OF assms] request_down [OF assms r] terminate_down [OF assms t] r t by simp
qed

theorem anchor_fail_closed_witness:
  "anchor_down (sample_world\<lparr>w_anchor := unconfirmed_anchor\<rparr>) \<and>
   \<not> is_allow (snd (snd (evaluate (sample_world\<lparr>w_anchor := unconfirmed_anchor\<rparr>) {} sample_action sample_tables))) \<and>
   (\<exists>tb cur ans. evaluate sample_world {} sample_action sample_tables = (tb, cur, ans) \<and> is_allow ans)"
proof -
  have "anchor_down (sample_world\<lparr>w_anchor := unconfirmed_anchor\<rparr>)"
    by (simp add: anchor_down_def unconfirmed_anchor_def anchored_def)
  then show ?thesis using anchor_fail_closed sample_allow by blast
qed

subsection \<open>Operations in flight\<close>

lemma latest_event_mount:
  assumes wf: "events_wf evs"
  shows "latest_event op (filter (\<lambda>e. ce_mount_id e = mid) evs) = Some e \<longleftrightarrow> latest_event op evs = Some e \<and> ce_mount_id e = mid"
proof -
  let ?rows = "filter (\<lambda>e. ce_mount_id e = mid) evs"
  have same: "ce_mount_id a = ce_mount_id b" if "a \<in> set evs" "b \<in> set evs" "ce_operation_id a = op" "ce_operation_id b = op" for a b
    using events_wf_same_op [OF wf that(1,2)] that(3,4) by (simp add: same_operation_def)
  have up: "latest_event op evs = Some d \<and> ce_mount_id d = mid" if d: "latest_event op ?rows = Some d" for d
  proof -
    have "d \<in> set evs" "ce_mount_id d = mid" "ce_operation_id d = op" using latest_event_SomeD [OF d] by auto
    moreover have "ce_version x \<le> ce_version d" if "x \<in> set evs" "ce_operation_id x = op" for x
      using latest_event_max [OF d, of x] same [OF that(1) \<open>d \<in> set evs\<close> that(2) \<open>ce_operation_id d = op\<close>] that
        \<open>ce_mount_id d = mid\<close> by simp
    ultimately show ?thesis using latest_event_eqI [OF wf] by blast
  qed
  have down: "latest_event op ?rows = Some e" if e: "latest_event op evs = Some e" "ce_mount_id e = mid"
  proof (cases "latest_event op ?rows")
    case None
    then show ?thesis using latest_event_SomeD [OF e(1)] e(2) latest_event_None [of op ?rows] by simp
  next
    case (Some d)
    then show ?thesis using up [OF Some] e(1) by simp
  qed
  show ?thesis using up down by blast
qed

lemma in_flight_iff:
  assumes "events_wf evs"
  shows "op \<in> set (in_flight_operations mid evs) \<longleftrightarrow>
    (\<exists>e. latest_event op evs = Some e \<and> ce_mount_id e = mid \<and> ce_state e \<in> {CS_AUTHORIZED, CS_STARTED})"
proof -
  let ?rows = "filter (\<lambda>e. ce_mount_id e = mid) evs"
  have "op \<in> set (in_flight_operations mid evs) \<longleftrightarrow> op \<in> ce_operation_id ` set ?rows \<and>
      (case latest_event op ?rows of None \<Rightarrow> False | Some e \<Rightarrow> ce_state e \<in> in_flight_states)"
    unfolding in_flight_operations_def Let_def by auto
  also have "\<dots> \<longleftrightarrow> (\<exists>e. latest_event op ?rows = Some e \<and> ce_state e \<in> {CS_AUTHORIZED, CS_STARTED})"
  proof (cases "latest_event op ?rows")
    case (Some e)
    then have "op \<in> ce_operation_id ` set ?rows" using latest_event_SomeD [OF Some] by blast
    then show ?thesis using Some by (simp add: in_flight_states_def)
  qed simp
  finally show ?thesis using latest_event_mount [OF assms] by blast
qed

lemma settle_exact:
  "settle_in_flight mid now polls =
     (if \<exists>evs \<in> set (now # polls). in_flight_operations mid evs = [] then []
      else in_flight_operations mid (last (now # polls)))"
  by (induction mid now polls rule: settle_in_flight.induct) auto

lemma authorized_in_flight:
  assumes "events_wf (tb_events tb)" "authorize_txn w row op ih rid action kwargs tb = Some tb'"
  shows "op \<in> set (in_flight_operations (mt_id (mr_mount row)) (tb_events tb'))"
proof -
  let ?e = "authorized_event w row op ih rid action kwargs"
  have e: "ce_operation_id ?e = op" "ce_version ?e = 0" "ce_state ?e = CS_AUTHORIZED" "ce_mount_id ?e = mt_id (mr_mount row)"
    by (simp_all add: authorized_event_def)
  have t: "tb_events tb' = tb_events tb @ [?e]" "\<not> event_conflict (tb_events tb) ?e"
    using assms(2) by (auto simp: authorize_txn_def split: if_splits option.splits)
  have wf: "events_wf (tb_events tb')" unfolding t(1) using events_wf_start [OF assms(1) t(2) e(2,3)] .
  have "ce_operation_id d \<noteq> op" if "d \<in> set (tb_events tb)" for d
    using start_is_latest [OF assms(1) t(2) e(2)] that by (simp add: e(1) latest_event_None)
  then have "latest_event op (tb_events tb') = Some ?e"
    using e by (intro latest_event_eqI [OF wf]) (auto simp: t(1))
  then show ?thesis using in_flight_iff [OF wf] e by simp
qed

text \<open>An operation of a dead mount that is started at any later time was in flight before.\<close>

lemma started_was_in_flight:
  assumes ok: "tables_ok a" and d: "dead mid a" and run: "mount_step\<^sup>*\<^sup>* a b"
    and e: "latest_event op (tb_events b) = Some e" "ce_mount_id e = mid" "ce_state e = CS_STARTED"
  shows "op \<in> set (in_flight_operations mid (tb_events a))"
proof -
  have wf: "events_wf (tb_events a)" using ok by (simp add: tables_ok_def)
  obtain row where row: "row_of mid a = Some row" "mr_terminated row" using d by (auto simp: dead_def)
  have le: "tables_le a b" by (rule ms.run_le [OF run ok])
  have sub: "set (tb_events a) \<subseteq> set (tb_events b)" using le by (auto simp: tables_le_def grows_def)
  have m: "e \<in> set (tb_events b)" "ce_operation_id e = op" using latest_event_SomeD [OF e(1)] by auto
  then have "e \<in> set (filter (\<lambda>e. ce_mount_id e = mid \<and> ce_state e = CS_STARTED) (tb_events b))" using e by simp
  then have "e \<in> set (tb_events a)" unfolding tables_le_dead(5) [OF le row] by simp
  then have "latest_event op (tb_events a) = Some e"
    using m(2) sub latest_event_max [OF e(1)] by (intro latest_event_eqI [OF wf]) auto
  then show ?thesis using in_flight_iff [OF wf] e by simp
qed

lemma run_through: "successively R\<^sup>*\<^sup>* (x # xs) \<Longrightarrow> y \<in> set (x # xs) \<Longrightarrow> R\<^sup>*\<^sup>* x y \<and> R\<^sup>*\<^sup>* y (last (x # xs))"
proof (induction xs arbitrary: x y)
  case (Cons z zs)
  have "R\<^sup>*\<^sup>* x z" "R\<^sup>*\<^sup>* z (last (z # zs))" using Cons.prems(1) Cons.IH [of z z] by auto
  then have "R\<^sup>*\<^sup>* x (last (x # z # zs))" by simp
  then show ?case using Cons.prems Cons.IH [of z y] \<open>R\<^sup>*\<^sup>* x z\<close> by (auto intro: rtranclp_trans)
qed simp

lemma terminated_dead:
  assumes "terminate_with_in_flight w mid reason who ws polls revoked tb tb = (tb1, rv, Inr (ALLOW, why, a, ops))"
  shows "dead mid tb1" "ops = settle_in_flight mid (tb_events tb1) polls" "why = ''terminated_in_flight'' \<longleftrightarrow> ops \<noteq> []"
    "\<exists>t. terminate_txn w mid reason who ws revoked tb tb = (tb1, rv, t)"
proof -
  obtain tb' rv' t where t: "terminate_txn w mid reason who ws revoked tb tb = (tb', rv', t)" by (metis prod_cases3)
  note x = assms [unfolded terminate_with_in_flight_def t prod.case Let_def]
  have same: "tb' = tb1" "rv' = rv" using x by auto
  show "ops = settle_in_flight mid (tb_events tb1) polls" "why = ''terminated_in_flight'' \<longleftrightarrow> ops \<noteq> []"
    using x by (cases t; auto split: if_splits)+
  show "\<exists>t. terminate_txn w mid reason who ws revoked tb tb = (tb1, rv, t)" using t same by blast
  show "dead mid tb1"
  proof (cases t)
    case (Term_Now b)
    show ?thesis by (rule terminate_now_row [OF t [unfolded Term_Now]]) (simp add: dead_def same)
  next
    case (Term_Prior b)
    then show ?thesis using t same
      by (auto simp: terminate_txn_def Let_def dead_def split: option.splits if_splits prod.splits)
  qed (use x in auto)
qed

text \<open>
  C24. What a termination reports is enough. The service is polled while it runs on, and the report is an
  answer of ALLOW with the operations found in flight. The mount is then terminated for good; an
  operation that is STARTED on the mount at any later time is one of the reported ones, so that a
  report of none means no further effect can land; every reported operation was authorized or started at
  the last poll; and the reason is \<open>terminated_in_flight\<close> exactly when some operation is reported.
\<close>

theorem termination_report:
  assumes ok: "tables_ok tb"
    and fin: "terminate_with_in_flight w mid reason who ws (map tb_events ps) revoked tb tb = (tb1, rv, Inr (ALLOW, why, a, ops))"
    and polls: "successively mount_step\<^sup>*\<^sup>* (tb1 # ps)" and run: "mount_step\<^sup>*\<^sup>* (last (tb1 # ps)) tb2"
  shows "dead mid tb2 \<and>
    (\<forall>op e. latest_event op (tb_events tb2) = Some e \<and> ce_mount_id e = mid \<and> ce_state e = CS_STARTED \<longrightarrow> op \<in> set ops) \<and>
    (\<forall>op \<in> set ops. \<exists>e. latest_event op (tb_events (last (tb1 # ps))) = Some e \<and> ce_mount_id e = mid \<and>
       ce_state e \<in> {CS_AUTHORIZED, CS_STARTED}) \<and>
    (why = ''terminated_in_flight'' \<longleftrightarrow> ops \<noteq> [])"
proof -
  note t = terminated_dead [OF fin]
  have ok1: "tables_ok tb1" using t(4) ok keeps_terminate by (auto simp: keeps_def)
  obtain row where row: "row_of mid tb1 = Some row" "mr_terminated row" using t(1) by (auto simp: dead_def)
  have good: "tables_ok x \<and> dead mid x" if "mount_step\<^sup>*\<^sup>* tb1 x" for x
    using ms.run_ok [OF that ok1] tables_le_dead(1) [OF ms.run_le [OF that ok1] row] row(2) by (simp add: dead_def)
  note thr = run_through [OF polls]
  have last: "mount_step\<^sup>*\<^sup>* tb1 (last (tb1 # ps))" using thr [of tb1] by simp
  have ops: "ops = (if \<exists>x \<in> set (tb1 # ps). in_flight_operations mid (tb_events x) = [] then []
      else in_flight_operations mid (tb_events (last (tb1 # ps))))"
    unfolding t(2) settle_exact by (auto simp: last_map)
  have started: "op \<in> set ops" if e: "latest_event op (tb_events tb2) = Some e" "ce_mount_id e = mid" "ce_state e = CS_STARTED" for op e
  proof -
    have fl: "op \<in> set (in_flight_operations mid (tb_events x))" if x: "x \<in> set (tb1 # ps)" for x
    proof -
      have "mount_step\<^sup>*\<^sup>* x tb2" using thr [OF x] run by (blast intro: rtranclp_trans)
      then show ?thesis using started_was_in_flight [OF _ _ _ e] good thr [OF x] by blast
    qed
    then have "\<not> (\<exists>x \<in> set (tb1 # ps). in_flight_operations mid (tb_events x) = [])" by (metis empty_iff empty_set)
    then have "ops = in_flight_operations mid (tb_events (last (tb1 # ps)))" using ops by (simp only: if_False)
    moreover have "last (tb1 # ps) \<in> set (tb1 # ps)" by (rule last_in_set) simp
    ultimately show ?thesis using fl by blast
  qed
  have wf: "events_wf (tb_events (last (tb1 # ps)))" using good [OF last] by (simp add: tables_ok_def)
  have "set ops \<subseteq> set (in_flight_operations mid (tb_events (last (tb1 # ps))))"
    unfolding ops by (simp only: split: if_split) simp
  then have "\<forall>op \<in> set ops. \<exists>e. latest_event op (tb_events (last (tb1 # ps))) = Some e \<and> ce_mount_id e = mid \<and>
      ce_state e \<in> {CS_AUTHORIZED, CS_STARTED}"
    using in_flight_iff [OF wf] by blast
  moreover have "dead mid tb2" using good [of tb2] rtranclp_trans [OF last run] by blast
  ultimately show ?thesis using started t(3) by blast
qed

lemma sample_terminate_begun:
  "\<exists>tb1 rv a ops why. terminate_with_in_flight sample_world ''mnt_a'' EXPLICIT_TERMINATE ''alice'' (Some ''w'') [] {} sample_begun
     sample_begun = (tb1, rv, Inr (ALLOW, why, a, ops)) \<and> tb_events tb1 = tb_events sample_begun"
proof -
  have r: "row_of ''mnt_a'' sample_begun = Some sample_row"
    using sample_row_of by (simp add: sample_begun_def sample_authorized_def row_of_def)
  obtain tb1 a where c: "call_anchor sample_world 0 (decision_request ''terminate'' ''execution'' ALLOW
      (unmount_value EXPLICIT_TERMINATE) (Some (mr_mount sample_row)) (Some (row_token sample_row))) sample_begun = (tb1, a)"
    by fastforce
  then have "anchored a" "tb_leases tb1 = []" "tb_events tb1 = tb_events sample_begun"
    by (auto simp: call_anchor_def sample_world_def local_confirmed_anchor_def anchored_def sample_tables_def sample_begun_def
        sample_authorized_def)
  moreover have "\<not> mr_terminated sample_row" by (simp add: sample_row_def)
  ultimately show ?thesis
    using terminate_txn_row [OF r sample_owned _ c] by (auto simp: terminate_with_in_flight_def revoke_lease_def lease_of_def Let_def)
qed

theorem termination_report_witness:
  "\<exists>tb1 rv why a ops. terminate_with_in_flight sample_world ''mnt_a'' EXPLICIT_TERMINATE ''alice'' (Some ''w'') [] {} sample_begun
     sample_begun = (tb1, rv, Inr (ALLOW, why, a, ops)) \<and> ''op'' \<in> set ops \<and> why = ''terminated_in_flight'' \<and> dead ''mnt_a'' tb1"
proof -
  obtain tb1 rv a ops why where t: "terminate_with_in_flight sample_world ''mnt_a'' EXPLICIT_TERMINATE ''alice'' (Some ''w'')
      (map tb_events ([] :: tables list)) {} sample_begun sample_begun = (tb1, rv, Inr (ALLOW, why, a, ops))"
    "tb_events tb1 = tb_events sample_begun" using sample_terminate_begun by auto
  have "mount_step\<^sup>*\<^sup>* (last [tb1]) tb1" by simp
  note s = termination_report [OF sample_begun_ok t(1) _ this]
  have "''op'' \<in> set ops" using s sample_started_latest t(2) by auto
  then show ?thesis using s t(1) by (intro exI [of _ tb1] exI [of _ rv] exI [of _ why] exI [of _ a] exI [of _ ops]) auto
qed

subsection \<open>A fresh mount can be used\<close>

abbreviation (input) caller_of :: "mount_request \<Rightarrow> string" where
  "caller_of rq \<equiv> or_str (rq_caller_spiffe_id rq) (rq_owner_principal rq)"

abbreviation (input) executor_of :: "mount_request \<Rightarrow> string" where
  "executor_of rq \<equiv> or_str (rq_executor_spiffe_id rq) (rq_owner_principal rq)"

lemma request_mount_Some:
  assumes "request_mount w rq tb = (tb1, Inr (Some (m, t), x))"
  obtains pkg m0 t0 biscuit tb0 r where "w_packages w (rq_package_ref rq) = Some pkg"
    "mounter_mount (w_sha w) (w_lax_bool w) (w_uid w) (w_uid w 3) (w_clk w 0) pkg (rq_scope rq) (rq_policy rq)
       (rq_ttl_seconds rq) (rq_role rq) (rq_execution_id rq) (rq_substrate rq) = Inr (m0, t0)"
    "mint_biscuit_capability (w_build w) (mint_of pkg t0 (caller_of rq) (executor_of rq)) (w_clk w 1) = Some biscuit"
    "\<not> unverified (caller_of rq)" "\<not> unverified (executor_of rq)" "audit_only tb tb0" "row_of (mt_id m) tb = None"
    "m = m0\<lparr>mt_incarnation := 1, mt_history_head := Some (genesis_head (w_sha w) (mt_id m0) (tk_token_id t0) 1)\<rparr>"
    "t = t0\<lparr>tk_biscuit_token := Some biscuit\<rparr>"
    "tb1 = tb0\<lparr>tb_mounts := tb_mounts tb0 @ [new_row rq m t (w_sha w (w_uid w 4)) r],
       tb_leases := tb_leases tb0 @ [new_lease (w_sha w) pkg m t (caller_of rq) (executor_of rq) (w_clk w 2)]\<rparr>"
proof (cases "request_refusal w rq")
  case (Some reason)
  then show ?thesis using assms by (auto simp: request_mount_def split: prod.splits)
next
  case None
  obtain pkg where pkg: "w_packages w (rq_package_ref rq) = Some pkg"
    using None by (auto simp: request_refusal_def split: option.splits if_splits prod.splits)
  show ?thesis
    using assms that [OF pkg] unfolding request_mount_def None Let_def option.case pkg option.sel
    by (auto split: sum.splits mount_failure.splits prod.splits if_splits option.splits dest: call_anchor_audit_only)
qed

text \<open>What a token minted for a mount is read back as, when the Biscuit library answers with the minted facts.\<close>

definition token_readable :: "world \<Rightarrow> package \<Rightarrow> token \<Rightarrow> string \<Rightarrow> string \<Rightarrow> time \<Rightarrow> bool" where
  "token_readable w pkg t caller executor minted_at \<longleftrightarrow>
     w_parse w (the (tk_biscuit_token t)) = Some (minted_facts (mint_of pkg t caller executor) minted_at) \<and>
     w_strptime w (utc_stamp (minted_at + tk_ttl_seconds t * 1000000)) =
       Some (whole_seconds (minted_at + tk_ttl_seconds t * 1000000)) \<and>
     list_all literal_safe (gr_reads (tk_grants t) @ gr_writes (tk_grants t)) \<and> literal_safe caller \<and> literal_safe executor"

lemma mint_of_biscuit [simp]: "mint_of pkg (t\<lparr>tk_biscuit_token := b\<rparr>) caller executor = mint_of pkg t caller executor"
  by (simp add: mint_of_def)

lemma fresh_biscuit_authority:
  assumes "mint_biscuit_capability build (mint_of pkg t0 caller executor) minted_at = Some biscuit" "biscuit \<noteq> []"
    and "executor \<noteq> []" "token_readable w pkg (t0\<lparr>tk_biscuit_token := Some biscuit\<rparr>) caller executor minted_at"
  shows "biscuit_authority w (t0\<lparr>tk_biscuit_token := Some biscuit, tk_nonce_consumed := c\<rparr>) = Some
      \<lparr>ac_allowed_actions = set (gr_reads (tk_grants t0)) \<union> set (gr_writes (tk_grants t0)),
       ac_allowed_resources = (if gr_resources (tk_grants t0) = [] then {''*''} else set (gr_resources (tk_grants t0))),
       ac_executor_spiffe_id = executor, ac_subject_spiffe_id = caller,
       ac_expires_at = Some (whole_seconds (minted_at + tk_ttl_seconds t0 * 1000000)),
       ac_delegation_depth = 0, ac_max_delegation_depth = 1, ac_authority_epoch = 0\<rparr>"
proof -
  let ?q = "mint_of pkg t0 caller executor"
  have q: "mq_reads ?q = gr_reads (tk_grants t0)" "mq_writes ?q = gr_writes (tk_grants t0)"
    "mq_resources ?q = gr_resources (tk_grants t0)" "or_str (mq_executor_spiffe_id ?q) ''any'' = executor"
    "mq_caller_spiffe_id ?q = caller" "mq_ttl_seconds ?q = tk_ttl_seconds t0"
    using assms(3) by (simp_all add: mint_of_def or_str_def)
  show ?thesis
    using extracted_authority [OF assms(1), where parse = "w_parse w" and strptime = "w_strptime w"] assms(2,4)
    by (simp add: biscuit_authority_def token_readable_def q)
qed

lemma resource_issubset_refl [simp]: "resource_issubset R R"
  by (auto simp: resource_issubset_def)

lemma whole_seconds_mono: "x \<le> y \<Longrightarrow> whole_seconds x \<le> whole_seconds y"
  by (simp add: whole_seconds_def minus_mod_eq_mult_div zdiv_mono1)

lemma whole_seconds_idem [simp]: "whole_seconds (whole_seconds x) = whole_seconds x"
  by (simp add: whole_seconds_def minus_mod_eq_mult_div)

lemma fresh_lease_grants:
  assumes g: "set (gr_external_send (tk_grants t)) \<subseteq> set (gr_writes (tk_grants t))"
    and a: "profile_allows (tk_grants t) action" "profile_covers_resource (tk_grants t) res"
    and pa: "ac_allowed_resources pa = {''*''}" "set (gr_reads (tk_grants t)) \<union> set (gr_writes (tk_grants t)) \<subseteq> ac_allowed_actions pa"
    and exp: "tk_expires_at t \<le> expiry"
  shows "\<exists>eff. evaluate_authority (new_lease sha pkg m t caller executor now)
      (Some \<lparr>ac_allowed_actions = set (gr_reads (tk_grants t)) \<union> set (gr_writes (tk_grants t)),
         ac_allowed_resources = (if gr_resources (tk_grants t) = [] then {''*''} else set (gr_resources (tk_grants t))),
         ac_executor_spiffe_id = executor, ac_subject_spiffe_id = caller, ac_expires_at = Some (whole_seconds expiry),
         ac_delegation_depth = 0, ac_max_delegation_depth = 1, ac_authority_epoch = 0\<rparr>) pa ONLINE c = Inr eff \<and>
      action \<in> ac_allowed_actions eff \<and> resource_in res (ac_allowed_resources eff)"
proof -
  have act: "action \<in> set (gr_reads (tk_grants t)) \<union> set (gr_writes (tk_grants t))"
    using a(1) by (auto simp: profile_allows_def split: if_splits)
  have res: "resource_in res (if gr_resources (tk_grants t) = [] then {''*''} else set (gr_resources (tk_grants t)))"
    using a(2) by (auto simp: profile_covers_resource_def resource_in_def split: option.splits if_splits)
  have star: "resource_in res {''*''}" by (simp add: resource_in_def)
  show ?thesis
    using g act res star pa whole_seconds_mono [OF exp]
    by (simp add: evaluate_authority_def new_lease_def Let_def resource_in_intersection le_supI1 subset_Un_eq) blast
qed

lemma lease_of_None: "lease_of mid tb = None \<longleftrightarrow> (\<forall>l \<in> set (tb_leases tb). ls_mount_id l \<noteq> mid)"
  by (simp add: lease_of_def filter_empty_conv)

lemma fresh_lease_of:
  assumes "lease_of (mt_id m) tb = None"
  shows "lease_of (mt_id m) (tb\<lparr>tb_mounts := x, tb_leases := tb_leases tb @ [new_lease sha pkg m t caller executor now]\<rparr>) =
    Some (new_lease sha pkg m t caller executor now)"
proof -
  have "filter (\<lambda>l. ls_mount_id l = mt_id m) (tb_leases tb) = []" using assms by (simp add: lease_of_None filter_empty_conv)
  moreover have "ls_mount_id (new_lease sha pkg m t caller executor now) = mt_id m" by (simp add: new_lease_def Let_def)
  ultimately show ?thesis by (simp add: lease_of_def)
qed

lemma find_append_None: "find p xs = None \<Longrightarrow> p y \<Longrightarrow> find p (xs @ [y]) = Some y"
  by (induction xs) (auto split: if_splits)

lemma fresh_row_of:
  assumes "row_of (mt_id m) tb = None"
  shows "row_of (mt_id m) (tb\<lparr>tb_mounts := tb_mounts tb @ [new_row rq m t h r], tb_leases := y\<rparr>) = Some (new_row rq m t h r)"
  using find_append_None [where p = "\<lambda>r. mr_mount_id r = mt_id m" and y = "new_row rq m t h r"] assms
  by (simp add: row_of_def new_row_def)

text \<open>A request for an action under the token of a mount, by the owner the mount was requested for.\<close>

definition owner_action :: "mount_request \<Rightarrow> mount \<Rightarrow> token \<Rightarrow> action_request \<Rightarrow> bool" where
  "owner_action rq m t q \<longleftrightarrow> qa_mount_id q = mt_id m \<and> qa_token_id q = tk_token_id t \<and> qa_nonce q = tk_nonce t \<and>
     qa_owner_principal q = rq_owner_principal rq \<and> qa_owner_workspace q \<noteq> Some [] \<and>
     qa_owner_workspace q = Some (or_str (rq_owner_workspace rq) (sc_workspace (rq_scope rq))) \<and>
     profile_allows (tk_grants t) (qa_action q) \<and> profile_covers_resource (tk_grants t) (qa_resource q) \<and>
     qa_action q \<notin> set (gr_external_send (tk_grants t)) \<and> qa_action q \<notin> set (gr_suppression_required (tk_grants t))"

lemma fresh_profile:
  assumes "owner_action rq m t q" "tk_mount_id t \<notin> revoked" "w_clk w 4 \<le> tk_expires_at t"
  shows "profile_decision w revoked (new_row rq m t h r) q tb = (row_binding (new_row rq m t h r), Inr [])"
proof -
  let ?b = "row_binding (new_row rq m t h r)"
  have b: "\<not> bd_terminated ?b" "tk_mount_id (bd_token ?b) = tk_mount_id t" "tk_expires_at (bd_token ?b) = tk_expires_at t"
    "tk_grants (row_token (new_row rq m t h r)) = tk_grants t"
    by (simp_all add: row_binding_def new_binding_def row_token_def new_row_def)
  have "check_live (w_sha w) (\<lambda>i. w_uid w (i + 4)) (\<lambda>i. w_clk w (i + 4)) revoked ?b = (?b, None)"
    using assms(2,3) b by (simp add: check_live_None)
  moreover have "gate_evidence w (new_row rq m t h r) q tb = Inr []"
    using assms(1) by (simp add: gate_evidence_def Let_def b owner_action_def)
  ultimately show ?thesis using assms(1) by (simp add: profile_decision_def Let_def b owner_action_def)
qed

lemma fresh_row_refusal:
  assumes "owner_action rq m t q" "lease_of (mt_id m) tb = Some (new_lease sha pkg m t caller executor now)"
    "w_clk w 0 < tk_expires_at t" "allow_receipts (tk_token_id t) tb = []"
  shows "row_refusal w (new_row rq m t h r) q tb = None"
  using assms by (auto simp: row_refusal_def new_row_def new_lease_def Let_def owner_action_def allow_receipts_def
      filter_empty_conv list_ex_iff)

lemma resource_term_star [simp]: "\<not> resource_term ''*''"
  by (simp add: resource_term_def resource_term_char_def is_alnum_def is_digit_def ends_with_def)

lemma fresh_lease_refusal:
  assumes q: "owner_action rq m t q" and l: "lease_of (mt_id m) tb = Some (new_lease sha pkg m t caller executor now)"
    and g: "mount_grants sha' pkg (rq_scope rq) = Inr (tk_grants t)" and p: "w_packages w (tk_package_ref t) = Some pkg"
    and t: "t = t0\<lparr>tk_biscuit_token := Some biscuit\<rparr>" "biscuit \<noteq> []" "executor \<noteq> []"
    and mint: "mint_biscuit_capability build (mint_of pkg t0 caller executor) minted_at = Some biscuit"
    and read: "token_readable w pkg t caller executor minted_at"
    and exp: "tk_expires_at t \<le> minted_at + tk_ttl_seconds t * 1000000"
  shows "lease_refusal w (new_row rq m t h r) q tb = None"
proof -
  let ?row = "new_row rq m t h r"
  have tok: "row_token ?row = t\<lparr>tk_nonce_consumed := False\<rparr>" by (simp add: row_token_def new_row_def)
  let ?b = "\<lparr>ac_allowed_actions = set (gr_reads (tk_grants t)) \<union> set (gr_writes (tk_grants t)),
         ac_allowed_resources = (if gr_resources (tk_grants t) = [] then {''*''} else set (gr_resources (tk_grants t))),
         ac_executor_spiffe_id = executor, ac_subject_spiffe_id = caller,
         ac_expires_at = Some (whole_seconds (minted_at + tk_ttl_seconds t * 1000000)),
         ac_delegation_depth = 0, ac_max_delegation_depth = 1, ac_authority_epoch = 0\<rparr>"
  have b: "biscuit_authority w (row_token ?row) = Some ?b"
    using fresh_biscuit_authority [OF mint t(2,3) read [unfolded t(1)], of False] unfolding tok unfolding t(1) by simp
  let ?pa = "package_authority w (row_token ?row) ?b"
  have pa: "ac_allowed_resources ?pa = {''*''}" "set (gr_reads (tk_grants t)) \<union> set (gr_writes (tk_grants t)) \<subseteq> ac_allowed_actions ?pa"
    using mount_grants_Inr(1,2) [OF g] p by (auto simp: package_authority_def tok)
  obtain eff where eff: "evaluate_authority (new_lease sha pkg m t caller executor now) (Some ?b) ?pa ONLINE (w_clk w 1) = Inr eff"
    "qa_action q \<in> ac_allowed_actions eff" "resource_in (qa_resource q) (ac_allowed_resources eff)"
    using fresh_lease_grants [OF _ _ _ pa exp] mount_grants_Inr(4) [OF g] q unfolding owner_action_def by blast
  obtain ls where "mint_code (mint_of pkg t0 caller executor) minted_at = Some ls"
    using mint by (auto simp: mint_biscuit_capability_def bind_eq_Some_conv)
  then have "list_all resource_term (gr_resources (tk_grants t))"
    using mint_code_terms(1) by (fastforce simp: mint_of_def t(1))
  then have "gr_resources (tk_grants t) \<noteq> [] \<Longrightarrow> ''*'' \<notin> ac_allowed_resources ?b" by (auto simp: list_all_iff)
  then show ?thesis
    using q l b eff unfolding lease_refusal_def owner_action_def by (simp add: tok)
qed

text \<open>
  The surroundings of a later evaluation: a working ledger whose anchors give fresh receipt names,
  a live clock, the same packages, and the signed token readable.
\<close>

definition serves :: "world \<Rightarrow> mount_request \<Rightarrow> token \<Rightarrow> time \<Rightarrow> string set \<Rightarrow> tables \<Rightarrow> bool" where
  "serves w rq t minted_at revoked tb \<longleftrightarrow>
     (\<forall>i aq audit r. snd (w_anchor w i aq audit) = r \<longrightarrow> anchored r \<and>
        ''rcpt_'' @ or_str (an_anchor_id r) (compact_stamp (w_clk w 11)) \<notin> ar_receipt_id ` set (tb_receipts tb)) \<and>
     (\<forall>i. w_clk w i < tk_expires_at t) \<and> \<not> w_offline w \<and> tk_mount_id t \<notin> revoked \<and> truthy (tk_biscuit_token t) \<and>
     (\<exists>pkg. w_packages w (tk_package_ref t) = Some pkg \<and> w_packages w (rq_package_ref rq) = Some pkg \<and>
        token_readable w pkg t (caller_of rq) (executor_of rq) minted_at)"

lemma evaluate_serves:
  assumes rows: "row_of (qa_mount_id q) tb1 = Some row" "owned_by row (qa_owner_principal q) (qa_owner_workspace q)"
      "row_refusal w row q tb1 = None" "lease_refusal w row q tb1 = None"
      "profile_decision w revoked row q tb1 = (row_binding row, Inr [])"
      "lease_gate w q (Inr []) (sink_new w 13 row (row_binding row) (row_binding row) tb1) = (tb1, Inr [])"
    and s: "serves w rq t minted_at revoked' tb" and tb1: "tb_receipts tb1 = tb_receipts tb" "tb_merkle_next tb1 = Some n"
  shows "is_allow (snd (snd (evaluate w revoked q tb1)))"
proof -
  obtain tb2 r where c: "call_anchor w 0 (decision_request ''action_decision'' (qa_action q) ALLOW ''allowed''
      (Some (mr_mount row)) (Some (row_token row))) tb1 = (tb2, r)" by fastforce
  then obtain audit where "w_anchor w 0 (decision_request ''action_decision'' (qa_action q) ALLOW ''allowed''
      (Some (mr_mount row)) (Some (row_token row))) (tb_audit tb1) = (audit, r)"
    by (auto simp: call_anchor_def split: prod.splits)
  then have r: "anchored r" "''rcpt_'' @ or_str (an_anchor_id r) (compact_stamp (w_clk w 11)) \<notin> ar_receipt_id ` set (tb_receipts tb)"
    using s unfolding serves_def by (metis snd_conv)+
  have t2: "tb_receipts tb2 = tb_receipts tb" "tb_merkle_next tb2 = Some n"
    using audit_onlyD [OF call_anchor_audit_only [OF c]] tb1 by simp_all
  have "ar_receipt_id (new_receipt w row q r) = ''rcpt_'' @ or_str (an_anchor_id r) (compact_stamp (w_clk w 11))"
    by (simp add: new_receipt_def Let_def)
  then obtain tb3 rc where "allow_commit w row q [] r tb2 = Some (tb3, rc)"
    using allow_commit_total [of w q "[]" tb2 "tb_consumed tb2" row r n] r(2) t2 by auto
  from evaluate_allows [OF rows c r(1) this] show ?thesis by auto
qed

lemma owner_allowed:
  assumes req: "request_mount w rq tb = (tb1, Inr (Some (m, t), x))" and q: "owner_action rq m t q"
    and w': "serves w' rq t (w_clk w 1) revoked tb" "w_packages w' = w_packages w"
    and clk: "w_clk w 0 \<le> w_clk w 1" and seeded: "tb_merkle_next tb = Some n"
    and fresh: "lease_of (mt_id m) tb = None" "allow_receipts (tk_token_id t) tb = []"
  shows "is_allow (snd (snd (evaluate w' revoked q tb1)))"
  using req
proof (rule request_mount_Some)
  fix pkg m0 t0 biscuit tb0 r
  assume a: "w_packages w (rq_package_ref rq) = Some pkg"
    "mounter_mount (w_sha w) (w_lax_bool w) (w_uid w) (w_uid w 3) (w_clk w 0) pkg (rq_scope rq) (rq_policy rq)
       (rq_ttl_seconds rq) (rq_role rq) (rq_execution_id rq) (rq_substrate rq) = Inr (m0, t0)"
    "mint_biscuit_capability (w_build w) (mint_of pkg t0 (caller_of rq) (executor_of rq)) (w_clk w 1) = Some biscuit"
    "\<not> unverified (executor_of rq)" "audit_only tb tb0" "row_of (mt_id m) tb = None" "t = t0\<lparr>tk_biscuit_token := Some biscuit\<rparr>"
    "tb1 = tb0\<lparr>tb_mounts := tb_mounts tb0 @ [new_row rq m t (w_sha w (w_uid w 4)) r],
       tb_leases := tb_leases tb0 @ [new_lease (w_sha w) pkg m t (caller_of rq) (executor_of rq) (w_clk w 2)]\<rparr>"
  let ?row = "new_row rq m t (w_sha w (w_uid w 4)) r"
  let ?lease = "new_lease (w_sha w) pkg m t (caller_of rq) (executor_of rq) (w_clk w 2)"
  note mm = mounter_mount_Inr [OF a(2)] and s = w'(1) [unfolded serves_def] and ao = audit_onlyD [OF a(5)]
  have same: "row_of (mt_id m) tb0 = None" "lease_of (mt_id m) tb0 = None" using a(6) fresh(1) ao by simp_all
  have rows: "row_of (qa_mount_id q) tb1 = Some ?row" "lease_of (mt_id m) tb1 = Some ?lease"
    unfolding a(8) using q fresh_row_of [OF same(1)] fresh_lease_of [OF same(2)] by (simp_all add: owner_action_def)
  have own: "owned_by ?row (qa_owner_principal q) (qa_owner_workspace q)"
    using q by (auto simp: owned_by_def owner_action_def new_row_def)
  have rr: "row_refusal w' ?row q tb1 = None"
    using fresh_row_refusal [OF q rows(2)] s fresh(2) ao(3) a(8) by (simp add: allow_receipts_def)
  have pkg: "w_packages w' (tk_package_ref t) = Some pkg" "token_readable w' pkg t (caller_of rq) (executor_of rq) (w_clk w 1)"
    using s a(1) w'(2) by auto
  have "biscuit \<noteq> []" "executor_of rq \<noteq> []" "mount_grants (w_sha w) pkg (rq_scope rq) = Inr (tk_grants t)"
    "tk_expires_at t \<le> w_clk w 1 + tk_ttl_seconds t * 1000000"
    using s a(4,7) mm(4,11,16) clk by (auto simp: unverified_def)
  then have lr: "lease_refusal w' ?row q tb1 = None"
    using fresh_lease_refusal [OF q rows(2) _ pkg(1) a(7) _ _ a(3) pkg(2)] by blast
  have pd: "profile_decision w' revoked ?row q tb1 = (row_binding ?row, Inr [])"
    using fresh_profile [OF q] s by (simp add: less_imp_le)
  have lg: "lease_gate w' q (Inr []) (sink_new w' 13 ?row (row_binding ?row) (row_binding ?row) tb1) = (tb1, Inr [])"
    using rows(2) s q by (simp add: lease_gate_def sink_new_def owner_action_def new_lease_def Let_def not_less less_imp_le)
  show ?thesis using evaluate_serves [OF rows(1) own rr lr pd lg w'(1)] a(8) ao seeded by simp
qed

text \<open>
  C28. A fresh mount is usable. When a request has been answered with a mount and a token, the
  leaf counter is seeded and the identifiers drawn are new, then the owner's first evaluation of
  any granted action that needs no external approval, on any granted resource, before expiry and
  under a working ledger, is allowed.
\<close>

theorem fresh_mount_usable:
  assumes req: "request_mount w rq tb = (tb1, Inr (Some (m, t), x))" and q: "owner_action rq m t q"
    and w': "serves w' rq t (w_clk w 1) revoked tb" "w_packages w' = w_packages w"
    and clk: "w_clk w 0 \<le> w_clk w 1" and seeded: "tb_merkle_next tb = Some n"
    and fresh: "lease_of (mt_id m) tb = None" "allow_receipts (tk_token_id t) tb = []"
  shows "is_allow (snd (snd (evaluate w' revoked q tb1)))"
  by (rule owner_allowed [OF assms])

lemma request_lease:
  assumes "request_mount w rq tb = (tb1, Inr (Some (m, t), x))" "lease_of (mt_id m) tb = None"
  obtains l where "lease_of (mt_id m) tb1 = Some l"
  using assms(1)
proof (rule request_mount_Some)
  fix pkg tb0 r
  assume a: "audit_only tb tb0" "tb1 = tb0\<lparr>tb_mounts := tb_mounts tb0 @ [new_row rq m t (w_sha w (w_uid w 4)) r],
       tb_leases := tb_leases tb0 @ [new_lease (w_sha w) pkg m t (caller_of rq) (executor_of rq) (w_clk w 2)]\<rparr>"
  have "lease_of (mt_id m) tb0 = None" using assms(2) audit_onlyD [OF a(1)] by simp
  then show thesis using that fresh_lease_of unfolding a(2) by blast
qed

definition sample_request :: mount_request where
  "sample_request = \<lparr>rq_package_ref = ''lead@v1'', rq_scope = sample_scope, rq_role = ''r'', rq_policy = None,
     rq_ttl_seconds = 60, rq_owner_principal = ''alice'', rq_owner_workspace = Some ''w'', rq_execution_id = None,
     rq_caller_spiffe_id = None, rq_executor_spiffe_id = Some ''bob'', rq_authority_evaluation = None,
     rq_substrate = \<lparr>sb_substrate_id = None, sb_boot_instance_id = None, sb_runtime_key_thumbprint = None,
       sb_state_root = None\<rparr>\<rparr>"

lemma sample_mint_token:
  assumes "tk_grants t = tk_grants sample_token"
  shows "\<exists>ls. mint_code (mint_of sample_package t ''alice'' ''bob'') 0 = Some ls"
  using assms by (simp add: mint_code_def envelope_code_def bound_code_def mint_of_def sample_token_def resource_term_def
      resource_term_char_def is_alnum_def is_digit_def ends_with_def Let_def less_eq_char_def)

lemma sample_request_mount:
  "\<exists>tb1 m t x. request_mount sample_world sample_request (sample_tables\<lparr>tb_mounts := []\<rparr>) = (tb1, Inr (Some (m, t), x)) \<and>
     tk_grants t = tk_grants sample_token \<and> tk_biscuit_token t = Some ''tok'' \<and> tk_expires_at t = 60000000 \<and>
     tk_package_ref t = ''lead@v1'' \<and> tk_ttl_seconds t = 60"
proof -
  have f: "w_sha sample_world = id" "w_lax_bool sample_world = (\<lambda>_. None)" "w_clk sample_world = (\<lambda>_. 0)"
    "w_packages sample_world = [''lead@v1'' \<mapsto> sample_package]" "w_build sample_world = (\<lambda>_. Some ''tok'')"
    "rq_package_ref sample_request = ''lead@v1''" "rq_scope sample_request = sample_scope" "rq_policy sample_request = None"
    "rq_ttl_seconds sample_request = 60" "rq_role sample_request = ''r''" "rq_execution_id sample_request = None"
    "or_str (rq_caller_spiffe_id sample_request) (rq_owner_principal sample_request) = ''alice''"
    "or_str (rq_executor_spiffe_id sample_request) (rq_owner_principal sample_request) = ''bob''"
    by (simp_all add: sample_world_def sample_request_def or_str_def)
  obtain m0 t0 where mt: "mounter_mount (w_sha sample_world) (w_lax_bool sample_world) (w_uid sample_world) (w_uid sample_world 3)
      (w_clk sample_world 0) sample_package (rq_scope sample_request) (rq_policy sample_request) (rq_ttl_seconds sample_request)
      (rq_role sample_request) (rq_execution_id sample_request) (rq_substrate sample_request) = Inr (m0, t0)"
    unfolding f by (simp add: mounter_mount_def sample_grants sample_policy MAX_TTL_SECONDS_def Let_def default_policy_def)
  note mm = mounter_mount_Inr [OF mt]
  have g: "tk_grants t0 = tk_grants sample_token" using mm(4) sample_grants by (simp add: f)
  obtain ls where "mint_code (mint_of sample_package t0 ''alice'' ''bob'') 0 = Some ls" using sample_mint_token [OF g] by blast
  then have mint: "mint_biscuit_capability (w_build sample_world) (mint_of sample_package t0 ''alice'' ''bob'') (w_clk sample_world 1) =
      Some ''tok''" by (simp add: mint_biscuit_capability_def f)
  have refusal: "request_refusal sample_world sample_request = None" by (simp add: request_refusal_def f sample_request_def)
  have anchor: "call_anchor sample_world 0 aq tb = (tb, \<lparr>an_status = ''confirmed'', an_anchor_id = Some (aq_event_type aq),
      an_detail = Some ''local-confirmed'', an_external_ref = None\<rparr>)" for aq tb
    by (simp add: call_anchor_def sample_world_def local_confirmed_anchor_def)
  have e: "row_of mid (sample_tables\<lparr>tb_mounts := []\<rparr>) = None" "\<not> token_taken mid a b (sample_tables\<lparr>tb_mounts := []\<rparr>)"
    "tb_leases (sample_tables\<lparr>tb_mounts := []\<rparr>) = []" for mid a b
    by (simp_all add: row_of_def token_taken_def sample_tables_def)
  show ?thesis
    unfolding request_mount_def refusal option.case Let_def
    using mt mint e anchor g mm by (simp add: f unverified_def anchored_def sample_package_def)
qed

lemma sample_fresh:
  obtains w tb1 m t x q where
    "request_mount sample_world sample_request (sample_tables\<lparr>tb_mounts := []\<rparr>) = (tb1, Inr (Some (m, t), x))"
    "owner_action sample_request m t q" "serves w sample_request t (w_clk sample_world 1) {} (sample_tables\<lparr>tb_mounts := []\<rparr>)"
    "w_packages w = w_packages sample_world" "w_clk sample_world 0 \<le> w_clk sample_world 1"
    "tb_merkle_next (sample_tables\<lparr>tb_mounts := []\<rparr>) = Some 0" "lease_of (mt_id m) (sample_tables\<lparr>tb_mounts := []\<rparr>) = None"
    "allow_receipts (tk_token_id t) (sample_tables\<lparr>tb_mounts := []\<rparr>) = []"
    "qa_action q = ''draft.write''" "qa_resource q = Some ''acme''"
proof -
  obtain tb1 m t x where r: "request_mount sample_world sample_request (sample_tables\<lparr>tb_mounts := []\<rparr>) = (tb1, Inr (Some (m, t), x))"
    "tk_grants t = tk_grants sample_token" "tk_biscuit_token t = Some ''tok''" "tk_expires_at t = 60000000"
    "tk_package_ref t = ''lead@v1''" "tk_ttl_seconds t = 60" using sample_request_mount by blast
  define w where "w = sample_world\<lparr>w_parse := (\<lambda>_. Some (minted_facts (mint_of sample_package t ''alice'' ''bob'') 0))\<rparr>"
  define q where "q = sample_action\<lparr>qa_mount_id := mt_id m, qa_token_id := tk_token_id t, qa_nonce := tk_nonce t\<rparr>"
  have f: "w_packages w = [''lead@v1'' \<mapsto> sample_package]" "w_clk w = (\<lambda>_. 0)" "\<not> w_offline w" "w_strptime w = sample_strptime"
    "w_parse w = (\<lambda>_. Some (minted_facts (mint_of sample_package t ''alice'' ''bob'') 0))" "w_packages w = w_packages sample_world"
    "or_str (rq_caller_spiffe_id sample_request) (rq_owner_principal sample_request) = ''alice''"
    "or_str (rq_executor_spiffe_id sample_request) (rq_owner_principal sample_request) = ''bob''"
    "rq_package_ref sample_request = ''lead@v1''" "tb_receipts sample_tables = []" "w_clk sample_world = (\<lambda>_. 0)"
    by (simp_all add: w_def sample_world_def sample_request_def or_str_def sample_tables_def)
  have "anchored (snd (w_anchor w i aq audit))" for i aq audit
    by (simp add: w_def sample_world_def local_confirmed_anchor_def anchored_def)
  moreover have "token_readable w sample_package t ''alice'' ''bob'' 0"
    by (simp add: token_readable_def f r sample_strptime_def whole_seconds_def sample_token_def literal_safe_def)
  ultimately have s: "serves w sample_request t (w_clk sample_world 1) {} (sample_tables\<lparr>tb_mounts := []\<rparr>)"
    using f r by (simp add: serves_def)
  have "owner_action sample_request m t q"
    by (simp add: owner_action_def q_def sample_action_def sample_request_def r sample_token_def profile_allows_def
        profile_covers_resource_def or_str_def)
  moreover have fresh: "lease_of (mt_id m) (sample_tables\<lparr>tb_mounts := []\<rparr>) = None" "tb_merkle_next (sample_tables\<lparr>tb_mounts := []\<rparr>) = Some 0"
    "allow_receipts (tk_token_id t) (sample_tables\<lparr>tb_mounts := []\<rparr>) = []"
    by (simp_all add: sample_tables_def lease_of_def allow_receipts_def)
  moreover have "qa_action q = ''draft.write''" "qa_resource q = Some ''acme''" by (simp_all add: q_def sample_action_def)
  ultimately show thesis using that [OF r(1) _ s f(6)] f(11) by simp
qed

theorem fresh_mount_usable_witness:
  "\<exists>w tb1 m t x q. request_mount sample_world sample_request (sample_tables\<lparr>tb_mounts := []\<rparr>) = (tb1, Inr (Some (m, t), x)) \<and>
     qa_action q = ''draft.write'' \<and> qa_resource q = Some ''acme'' \<and> is_allow (snd (snd (evaluate w {} q tb1)))"
proof (rule sample_fresh)
  fix w tb1 m t x q
  assume a: "request_mount sample_world sample_request (sample_tables\<lparr>tb_mounts := []\<rparr>) = (tb1, Inr (Some (m, t), x))"
    "owner_action sample_request m t q" "serves w sample_request t (w_clk sample_world 1) {} (sample_tables\<lparr>tb_mounts := []\<rparr>)"
    "w_packages w = w_packages sample_world" "w_clk sample_world 0 \<le> w_clk sample_world 1"
    "tb_merkle_next (sample_tables\<lparr>tb_mounts := []\<rparr>) = Some 0" "lease_of (mt_id m) (sample_tables\<lparr>tb_mounts := []\<rparr>) = None"
    "allow_receipts (tk_token_id t) (sample_tables\<lparr>tb_mounts := []\<rparr>) = []"
    "qa_action q = ''draft.write''" "qa_resource q = Some ''acme''"
  show ?thesis using fresh_mount_usable [OF a(1-8)] a(1,9,10) by blast
qed

theorem evaluate_allow_sound_witness:
  "\<exists>w q tb tb' cur ans l row rc. tables_ok tb \<and> evaluate w {} q tb = (tb', cur, ans) \<and> is_allow ans \<and>
     lease_of (qa_mount_id q) tb = Some l \<and> row_of (qa_mount_id q) tb = Some row \<and> granted w row q tb \<and>
     tb_receipts tb' = tb_receipts tb @ [rc] \<and> ar_action rc = ''draft.write'' \<and> ar_resource rc = Some ''acme''"
proof (rule sample_fresh)
  fix w tb m t x q
  assume a: "request_mount sample_world sample_request (sample_tables\<lparr>tb_mounts := []\<rparr>) = (tb, Inr (Some (m, t), x))"
    "owner_action sample_request m t q" "serves w sample_request t (w_clk sample_world 1) {} (sample_tables\<lparr>tb_mounts := []\<rparr>)"
    "w_packages w = w_packages sample_world" "w_clk sample_world 0 \<le> w_clk sample_world 1"
    "tb_merkle_next (sample_tables\<lparr>tb_mounts := []\<rparr>) = Some 0" "lease_of (mt_id m) (sample_tables\<lparr>tb_mounts := []\<rparr>) = None"
    "allow_receipts (tk_token_id t) (sample_tables\<lparr>tb_mounts := []\<rparr>) = []"
    "qa_action q = ''draft.write''" "qa_resource q = Some ''acme''"
  have allow: "is_allow (snd (snd (evaluate w {} q tb)))" by (rule owner_allowed [OF a(1-8)])
  have "tables_ok (sample_tables\<lparr>tb_mounts := []\<rparr>)" by (simp add: tables_ok_def sample_tables_def allow_receipts_def log_ok_def)
  then have ok: "tables_ok tb" using keeps_request [OF a(1)] by (simp add: keeps_def)
  obtain l where l: "lease_of (qa_mount_id q) tb = Some l" by (rule request_lease [OF a(1,7)]) (use a(2) in \<open>simp add: owner_action_def\<close>)
  obtain tb' cur ans where e: "evaluate w {} q tb = (tb', cur, ans)" by (metis prod_cases3)
  then have al: "is_allow ans" using allow by simp
  show ?thesis using evaluate_allow_sound [OF ok e al] ok e al l a(9,10) by metis
qed

subsection \<open>The receipt log\<close>

lemma ordered_cose_sorted:
  assumes "log_ok rows nxt"
  shows "get_merkle_ordered_cose_bytes rows =
    map (\<lambda>r. the (ar_signed_receipt_cose r)) (filter (\<lambda>r. ar_merkle_leaf_index r \<noteq> None) rows)"
proof -
  have signed: "\<And>r. r \<in> set rows \<Longrightarrow> ar_signed_receipt_cose r \<noteq> None"
    using assms by (auto simp: log_ok_def list_all_iff)
  have "leaf_positions rs = map (\<lambda>r. the (ar_merkle_leaf_index r)) (filter (\<lambda>r. ar_merkle_leaf_index r \<noteq> None) rs)" for rs
    by (induction rs) (auto split: option.splits)
  then have "sort_key (\<lambda>r. the (ar_merkle_leaf_index r)) (filter (\<lambda>r. ar_merkle_leaf_index r \<noteq> None) rows) =
      filter (\<lambda>r. ar_merkle_leaf_index r \<noteq> None) rows"
    using assms by (intro sort_key_id_if_sorted) (simp add: log_ok_def)
  moreover have "filter (\<lambda>r. ar_merkle_leaf_index r \<noteq> None \<and> ar_signed_receipt_cose r \<noteq> None) rows =
      filter (\<lambda>r. ar_merkle_leaf_index r \<noteq> None) rows" using signed by (auto intro: filter_cong)
  ultimately show ?thesis by (simp add: get_merkle_ordered_cose_bytes_def)
qed

lemma run_log_extends:
  assumes "tables_ok a" "mount_step\<^sup>*\<^sup>* a b"
  shows "\<exists>zs. get_merkle_ordered_cose_bytes (tb_receipts b) = get_merkle_ordered_cose_bytes (tb_receipts a) @ zs"
proof -
  obtain rs where "tb_receipts b = tb_receipts a @ rs"
    using ms.run_le [OF assms(2,1)] by (auto simp: tables_le_def grows_def)
  then show ?thesis
    using ordered_cose_sorted [of "tb_receipts a"] ordered_cose_sorted [of "tb_receipts b"] assms(1) ms.run_ok [OF assms(2,1)]
    by (auto simp: tables_ok_def)
qed

end
