(* ===== verification/Mount_Execute.thy ===== *)
theory Mount_Execute
  imports Mount_Guarantees
begin

text \<open>
  \<open>execute_consequence\<close> of \<open>capability_mount/service.py\<close>: the whole request that authorizes and
  runs one consequence. It composes the preflight checks, the governed call of the execution binding
  (\<^emph>\<open>Mount_Engine\<close>) with the three callbacks of \<open>_record\<close> (\<^emph>\<open>Mount_Decide\<close> and
  \<^emph>\<open>Mount_Lifecycle\<close>), the dispatch to a registered target with its permit (\<^emph>\<open>Effects\<close>,
  \<^emph>\<open>Permits\<close>) and the closing termination. A request runs several transactions, and between two
  of them other requests commit: \<open>sv_gap\<close> says what, at each of these points, so that nothing below
  depends on a request running alone (preflight and evaluation share one transaction, which holds the
  lock of the mount row). A run state holds the committed tables, the session's view with
  rows it has not committed, and the target.
\<close>

subsection \<open>Requests, targets and the state of a run\<close>

record consequence_request =
  xq_mount_id :: string
  xq_action :: string
  xq_token_id :: string
  xq_nonce :: string
  xq_owner_principal :: string
  xq_owner_workspace :: "string option"
  xq_approval_token :: "string option"
  xq_suppression_evidence :: "string option"
  xq_suppression_confirmed :: bool
  xq_target_ref :: string
  xq_resource :: string
  xq_arguments :: "(string \<times> json) list"
  xq_operation_id :: "string option"
  xq_spiffe_fields :: "(string \<times> json) list option"
  xq_substrate_id :: "string option"
  xq_boot_instance_id :: "string option"
  xq_runtime_key_thumbprint :: "string option"
  xq_state_root :: "string option"
  xq_authority_epoch :: "int option"

record permitted_context = consequence_context +
  cx_permit_for :: "(string \<Rightarrow> digest option) option"

text \<open>A registered target: the actions it maps, whether it keeps sandbox data apart, and its dispatch.\<close>

record 't adapter =
  ad_actions :: "string set"
  ad_project_isolated :: bool
  ad_dispatch :: "permitted_context \<Rightarrow> 't \<Rightarrow> 't \<times> json effect_result"

record 't service =
  sv_targets :: "string \<rightharpoonup> 't adapter"
  sv_pgl_agent_id :: "string option"
  sv_gap :: "nat \<Rightarrow> tables \<Rightarrow> tables"

text \<open>\<open>rs_row\<close> is the session's copy of the mount row; \<open>rs_dispatched\<close> lists what this request has dispatched.\<close>

record 't run_state =
  rs_base :: tables
  rs_cur :: tables
  rs_row :: mount_row
  rs_revoked :: "string set"
  rs_target :: 't
  rs_dispatched :: "permitted_context list"

text \<open>Other requests commit; rows this session has added and not committed stay in its view.\<close>

definition interfere :: "'t service \<Rightarrow> nat \<Rightarrow> 't run_state \<Rightarrow> 't run_state" where
  "interfere sv i s =
    (let tb = sv_gap sv i (rs_base s)
     in s\<lparr>rs_base := tb, rs_cur := tb\<lparr>tb_audit := tb_audit tb @ drop (length (tb_audit (rs_base s))) (tb_audit (rs_cur s))\<rparr>\<rparr>)"

definition commit :: "string \<Rightarrow> tables \<Rightarrow> tables \<Rightarrow> 't run_state \<Rightarrow> 't run_state" where
  "commit mount_id base cur s =
     s\<lparr>rs_base := base, rs_cur := cur, rs_row := (case row_of mount_id cur of None \<Rightarrow> rs_row s | Some r \<Rightarrow> r)\<rparr>"

subsection \<open>Packages\<close>

definition register_package :: "package \<Rightarrow> (string \<rightharpoonup> package) \<Rightarrow> (string \<rightharpoonup> package)" where
  "register_package p packages = packages(pk_id p \<mapsto> p)"

text \<open>\<open>policy_defaults.get("cost", 0)\<close> and the comparison with the budget; \<open>None\<close> is a \<open>TypeError\<close>.\<close>

fun json_number :: "json \<Rightarrow> int option" where
  "json_number (JNum n) = Some n"
| "json_number (JBool b) = Some (if b then 1 else 0)"
| "json_number _ = None"

definition candidate_verdict ::
  "(string \<rightharpoonup> package) \<Rightarrow> int \<Rightarrow> string list \<Rightarrow> string \<Rightarrow> string option option" where
  "candidate_verdict packages budget forbidden candidate =
    (case packages candidate of
       None \<Rightarrow> Some (Some ''unknown_package'')
     | Some pkg \<Rightarrow>
         if candidate \<in> set forbidden then Some (Some ''policy_forbidden'')
         else case json_number (case map_of (pk_policy_defaults pkg) ''cost'' of None \<Rightarrow> JNum 0 | Some v \<Rightarrow> v) of
           None \<Rightarrow> None
         | Some pkg_cost \<Rightarrow> Some (if pkg_cost > budget then Some ''budget_ceiling'' else None))"

record candidate_evaluation =
  cv_decision :: decision
  cv_permitted_candidates :: "string list"
  cv_rejected_candidates :: "string \<rightharpoonup> string"
  cv_authority_reference :: "string option"
  cv_binding_constraints_digest :: "digest option"

fun join_commas :: "string list \<Rightarrow> string" where
  "join_commas [] = []"
| "join_commas [x] = x"
| "join_commas (x # y # zs) = x @ CHR '','' # join_commas (y # zs)"

text \<open>\<open>self_id\<close> is \<open>id(self)\<close>, the identity of the registry object.\<close>

definition evaluate_candidates ::
  "(string \<Rightarrow> digest) \<Rightarrow> string \<Rightarrow> (string \<rightharpoonup> package) \<Rightarrow> int option \<Rightarrow> string list \<Rightarrow> string list \<Rightarrow> candidate_evaluation option" where
  "evaluate_candidates sha self_id packages budget forbidden candidates =
    (let verdict = candidate_verdict packages (case budget of None \<Rightarrow> 999999 | Some b \<Rightarrow> b) forbidden;
         permitted = sort (filter (\<lambda>c. verdict c = Some None) candidates);
         rejected = (\<lambda>c. if c \<in> set candidates then Option.bind (verdict c) id else None);
         auth_ref = ''auth-'' @ self_id
     in if list_ex (\<lambda>c. verdict c = None) candidates then None
        else if permitted = [] then
          Some \<lparr>cv_decision = DENY, cv_permitted_candidates = [], cv_rejected_candidates = rejected,
                cv_authority_reference = None, cv_binding_constraints_digest = None\<rparr>
        else
          Some \<lparr>cv_decision = ALLOW, cv_permitted_candidates = permitted, cv_rejected_candidates = rejected,
                cv_authority_reference = Some auth_ref,
                cv_binding_constraints_digest = Some (sha (auth_ref @ '':'' @ join_commas permitted))\<rparr>)"

subsection \<open>Preflight\<close>

definition envelope_unverifiable :: string where
  "envelope_unverifiable = ''operation_envelope_unverifiable''"

definition envelope_refusal ::
  "world \<Rightarrow> token \<Rightarrow> string \<Rightarrow> string \<Rightarrow> string \<Rightarrow> (string \<times> json) list \<Rightarrow> string option" where
  "envelope_refusal w t target_ref action resource arguments =
    (let bound = gr_envelope_digest (tk_grants t); carried = truthy (tk_biscuit_token t)
     in if bound \<noteq> None \<and> \<not> carried then Some envelope_unverifiable
        else case (if carried then extract_allowed_envelopes (w_parse w) (the (tk_biscuit_token t)) else Some {}) of
          None \<Rightarrow> Some envelope_unverifiable
        | Some signed \<Rightarrow>
            if bound = None \<and> signed = {} then None
            else if bound = None \<or> carried \<and> the bound \<notin> signed then Some envelope_unverifiable
            else if operation_envelope_digest (w_sha w) (tk_package_ref t) target_ref action resource arguments = the bound
              then None else Some ''operation_envelope_mismatch'')"

definition SANDBOX_PROJECT :: string where
  "SANDBOX_PROJECT = ''sandbox''"

text \<open>The bar a presented epoch must reach: the lease epoch, or the epoch of the row once it has advanced.\<close>

definition effective_epoch :: "mount_row \<Rightarrow> lease option \<Rightarrow> int" where
  "effective_epoch row lease =
    (let lease_epoch = (case lease of None \<Rightarrow> 0 | Some l \<Rightarrow> ls_authority_epoch l);
         row_epoch = (if mr_terminated row then 1 else or_int (mr_authority_epoch row) 1)
     in max lease_epoch (if row_epoch > 1 then row_epoch else 0))"

definition substrate_refusal :: "mount \<Rightarrow> consequence_request \<Rightarrow> string option" where
  "substrate_refusal m q =
    (if mt_substrate_id m \<noteq> None \<and> xq_substrate_id q \<noteq> mt_substrate_id m then Some ''substrate_id_mismatch''
     else if mt_substrate_id m \<noteq> None \<and> xq_boot_instance_id q \<noteq> mt_boot_instance_id m then Some ''boot_instance_id_mismatch''
     else if mt_substrate_id m \<noteq> None \<and> xq_runtime_key_thumbprint q \<noteq> mt_runtime_key_thumbprint m
       then Some ''runtime_key_thumbprint_mismatch''
     else if mt_state_root m \<noteq> None \<and> xq_state_root q \<noteq> mt_state_root m then Some ''state_root_mismatch''
     else None)"

definition epoch_refusal :: "int option \<Rightarrow> int \<Rightarrow> bool" where
  "epoch_refusal presented effective =
    (case presented of Some e \<Rightarrow> e < effective | None \<Rightarrow> effective > 1)"

definition package_refusal :: "world \<Rightarrow> mount_row \<Rightarrow> consequence_request \<Rightarrow> string option" where
  "package_refusal w row q =
    (case w_packages w (tk_package_ref (row_token row)) of
       None \<Rightarrow> None
     | Some p \<Rightarrow>
         if pk_requires_start_claim p \<and>
            (xq_operation_id q = None \<or> mr_start_claim_operation_id row \<noteq> xq_operation_id q) then Some ''start_not_claimed''
         else if truthy (pk_target_ref p) \<and> pk_target_ref p \<noteq> Some (xq_target_ref q) then Some ''target_not_bound_to_package''
         else None)"

definition target_refusal :: "mount_row \<Rightarrow> 't adapter option \<Rightarrow> consequence_request \<Rightarrow> string option" where
  "target_refusal row adapter q =
    (case adapter of
       None \<Rightarrow> Some ''unknown_effect_target''
     | Some a \<Rightarrow>
         if xq_action q \<notin> ad_actions a then Some ''effect_not_mapped''
         else if sc_project (mt_scope (mr_mount row)) = SANDBOX_PROJECT \<and> \<not> ad_project_isolated a
           then Some ''target_has_no_sandbox''
         else if \<not> valid_resource (xq_resource q) then Some ''invalid_effect_resource''
         else None)"

text \<open>The refusals in the order of the code; those before the row is known to be the caller's carry no record.\<close>

definition record_refusal :: "world \<Rightarrow> 't service \<Rightarrow> mount_row \<Rightarrow> consequence_request \<Rightarrow> tables \<Rightarrow> string option" where
  "record_refusal w sv row q tb =
    (case substrate_refusal (mr_mount row) q of
       Some reason \<Rightarrow> Some reason
     | None \<Rightarrow>
         if epoch_refusal (xq_authority_epoch q) (effective_epoch row (lease_of (xq_mount_id q) tb))
           then Some ''stale_authority_epoch''
         else if \<not> mr_terminated row \<and> mr_expires_at row > w_clk w 0 \<and>
                 (xq_token_id q \<noteq> mr_token_id row \<or> xq_nonce q \<noteq> mr_token_nonce row) then Some ''token_mismatch''
         else case package_refusal w row q of
           Some reason \<Rightarrow> Some reason
         | None \<Rightarrow>
             (case envelope_refusal w (row_token row) (xq_target_ref q) (xq_action q) (xq_resource q) (xq_arguments q) of
                Some reason \<Rightarrow> Some reason
              | None \<Rightarrow> target_refusal row (resolve_target (sv_targets sv) (xq_target_ref q)) q))"

definition preflight ::
  "world \<Rightarrow> 't service \<Rightarrow> consequence_request \<Rightarrow> tables \<Rightarrow> (string \<times> mount_row option) + mount_row" where
  "preflight w sv q tb =
    (case row_of (xq_mount_id q) tb of
       None \<Rightarrow> Inl (''unknown_mount'', None)
     | Some row \<Rightarrow>
         if \<not> owned_by row (xq_owner_principal q) (xq_owner_workspace q) then Inl (''owner_mismatch'', None)
         else case record_refusal w sv row q tb of
           Some reason \<Rightarrow> Inl (reason, Some row)
         | None \<Rightarrow> Inr row)"

subsection \<open>The callbacks of a record\<close>

definition passthrough :: "consequence_request \<Rightarrow> (string \<times> json) list" where
  "passthrough q =
    [(''resource'', JStr (xq_resource q)), (''arguments'', JObj (xq_arguments q)), (''target_ref'', JStr (xq_target_ref q)),
     (''approval_token'', jopt (xq_approval_token q)), (''suppression_evidence'', jopt (xq_suppression_evidence q)),
     (''suppression_confirmed'', JBool (xq_suppression_confirmed q)),
     (''spiffe_fields'', case xq_spiffe_fields q of None \<Rightarrow> JNull | Some kvs \<Rightarrow> JObj kvs)]"

definition expected_intent :: "world \<Rightarrow> mount_row \<Rightarrow> consequence_request \<Rightarrow> digest" where
  "expected_intent w row q =
     build_intent_hash (w_sha w) (mt_id (mr_mount row)) (tk_execution_id (row_token row)) (xq_action q)
       (Some (xq_resource q)) (normalized_args (py_str w) (passthrough q))"

definition spiffe_of :: "json option \<Rightarrow> string \<Rightarrow> string option" where
  "spiffe_of fs k =
    (case fs of Some (JObj kvs) \<Rightarrow> (case map_of kvs k of Some (JStr s) \<Rightarrow> Some s | _ \<Rightarrow> None) | _ \<Rightarrow> None)"

definition action_of :: "world \<Rightarrow> mount_row \<Rightarrow> string \<Rightarrow> (string \<times> json) list \<Rightarrow> action_request" where
  "action_of w row action kwargs =
    \<lparr>qa_mount_id = mt_id (mr_mount row), qa_action = action, qa_resource = kw_resource_text (py_str w) kwargs,
     qa_token_id = tk_token_id (row_token row), qa_nonce = tk_nonce (row_token row),
     qa_owner_principal = mr_owner_principal row, qa_owner_workspace = Some (mr_owner_workspace row),
     qa_approval_token = map_option (py_str w) (map_of kwargs ''approval_token''),
     qa_suppression_evidence = map_option (py_str w) (map_of kwargs ''suppression_evidence''),
     qa_spiffe = spiffe_of (map_of kwargs ''spiffe_fields''),
     qa_target_ref = (case map_of kwargs ''target_ref'' of None \<Rightarrow> None | Some JNull \<Rightarrow> None | Some v \<Rightarrow> Some (py_str w v))\<rparr>"

text \<open>\<open>cappo_evaluator\<close>: a known operation is refused, a new one evaluated, and an allowed one recorded \<open>AUTHORIZED\<close>.\<close>

definition replay_reason :: "cevent \<Rightarrow> digest \<Rightarrow> string" where
  "replay_reason latest intent_hash =
    (if ce_intent_hash latest \<noteq> intent_hash then ''idempotency_intent_mismatch''
     else ''idempotency_replay:'' @ cstate_value (ce_state latest))"

definition cappo_evaluator ::
  "world \<Rightarrow> 't service \<Rightarrow> mount_row \<Rightarrow> string \<Rightarrow> (string \<times> json) list \<Rightarrow> string \<Rightarrow> digest \<Rightarrow> 't run_state \<Rightarrow>
   't run_state \<times> (exc + decision \<times> string \<times> string option)" where
  "cappo_evaluator w sv row action kwargs operation_id intent_hash s =
    (case latest_event operation_id (tb_events (rs_cur s)) of
       Some latest \<Rightarrow>
         (s, Inr (DENY, replay_reason latest intent_hash,
                  if ce_intent_hash latest \<noteq> intent_hash then None else ce_receipt_id latest))
     | None \<Rightarrow>
         (case evaluate w (rs_revoked s) (action_of w row action kwargs) (rs_cur s) of (base, cur, ans) \<Rightarrow>
            let s1 = commit (mt_id (mr_mount row)) base cur s
            in (case ans of
                  Inl ex \<Rightarrow> (s1, Inl ex)
                | Inr (dec, reason, _, detail) \<Rightarrow>
                    let receipt_id = Option.bind detail dt_receipt_id
                    in if dec = ALLOW \<and> truthy receipt_id then
                         let s2 = interfere sv 0 s1
                         in (case authorize_txn (later 20 w) row operation_id intent_hash (the receipt_id) action kwargs (rs_cur s2) of
                               None \<Rightarrow> (s2\<lparr>rs_cur := rs_base s2\<rparr>, Inl integrity_error)
                             | Some tb \<Rightarrow> (s2\<lparr>rs_base := tb, rs_cur := tb\<rparr>, Inr (dec, reason, receipt_id)))
                       else (s1, Inr (dec, reason, receipt_id)))))"

definition begin_callback :: "world \<Rightarrow> 't service \<Rightarrow> mount_row \<Rightarrow> string \<Rightarrow> 't run_state \<Rightarrow> 't run_state \<times> claim" where
  "begin_callback w sv row operation_id s =
    (let s1 = interfere sv 1 s
     in case begin_consequence w (mr_mount row) (row_token row) operation_id (rs_cur s1) of
          (tb, c) \<Rightarrow> (commit (mt_id (mr_mount row)) tb tb s1, c))"

definition report_callback ::
  "world \<Rightarrow> 't service \<Rightarrow> mount_row \<Rightarrow> string \<Rightarrow> bool \<Rightarrow> string option \<Rightarrow> bool \<Rightarrow> string \<Rightarrow> 't run_state \<Rightarrow> 't run_state" where
  "report_callback w sv row operation_id succeeded error_summary outcome_uncertain proof_type s =
    (let s1 = interfere sv 3 s;
         tb = completion_reporter w (mr_mount row) (row_token row) operation_id succeeded error_summary outcome_uncertain
                proof_type (rs_cur s1)
     in s1\<lparr>rs_base := tb, rs_cur := tb\<rparr>)"

subsection \<open>Dispatch\<close>

definition with_permit :: "world \<Rightarrow> consequence_context \<Rightarrow> string \<Rightarrow> string \<Rightarrow> tables \<Rightarrow> permitted_context" where
  "with_permit w cx mount_id target_ref tb =
    consequence_context.extend cx \<lparr>cx_permit_for =
      (case permit_key (w_sha w) (w_mac w) (w_settings w) of
         None \<Rightarrow> None
       | Some key \<Rightarrow>
           if \<not> truthy (cx_operation_id cx) then None
           else let op = the (cx_operation_id cx);
                    receipt_id = Option.bind (latest_event op (tb_events tb)) ce_receipt_id
                in Some (\<lambda>payload. mint_permit (w_mac w) key op mount_id receipt_id (payload_digest (w_sha w) payload) target_ref))\<rparr>"

definition context_of :: "mount_row \<Rightarrow> consequence_request \<Rightarrow> string \<Rightarrow> consequence_context" where
  "context_of row q op_id =
    \<lparr>cx_action = xq_action q, cx_resource = xq_resource q, cx_arguments = xq_arguments q, cx_operation_id = Some op_id,
     cx_workspace = Some (mr_owner_workspace row), cx_project = Some (sc_project (mt_scope (mr_mount row)))\<rparr>"

definition invoke_effect ::
  "world \<Rightarrow> 't service \<Rightarrow> 't adapter \<Rightarrow> mount_row \<Rightarrow> consequence_request \<Rightarrow> string \<Rightarrow> (string \<times> json) list \<Rightarrow> 't run_state \<Rightarrow>
   't run_state \<times> json effect_result" where
  "invoke_effect w sv adapter row q op_id kwargs s =
    (let s1 = interfere sv 2 s;
         cx = with_permit w (context_of row q op_id) (mt_id (mr_mount row)) (xq_target_ref q) (rs_cur s1)
     in case ad_dispatch adapter cx (rs_target s1) of
          (t, r) \<Rightarrow> (s1\<lparr>rs_target := t, rs_dispatched := rs_dispatched s1 @ [cx]\<rparr>, r))"

subsection \<open>The request\<close>

record anchoring =
  ac_status :: string
  ac_anchor_id :: "string option"
  ac_content_hash :: "digest option"
  ac_pgl_event_hash :: "string option"
  ac_pgl_agent_id :: "string option"

record payload =
  pl_execution_id :: "string option"
  pl_operation_id :: string
  pl_decision :: decision
  pl_reason :: string
  pl_consequence_state :: "string option"
  pl_target_invoked :: bool
  pl_resulting_state :: "json option"
  pl_receipt_id :: "string option"
  pl_nonce_consumed :: "bool option"
  pl_terminated :: bool
  pl_anchoring :: anchoring

definition not_applicable :: anchoring where
  "not_applicable = \<lparr>ac_status = ''not_applicable'', ac_anchor_id = None, ac_content_hash = None, ac_pgl_event_hash = None,
     ac_pgl_agent_id = None\<rparr>"

definition preflight_payload :: "mount_row option \<Rightarrow> string \<Rightarrow> string \<Rightarrow> payload" where
  "preflight_payload row op_id reason =
    \<lparr>pl_execution_id = map_option (\<lambda>r. tk_execution_id (row_token r)) row, pl_operation_id = op_id, pl_decision = DENY,
     pl_reason = reason, pl_consequence_state = None, pl_target_invoked = False, pl_resulting_state = None,
     pl_receipt_id = None, pl_nonce_consumed = map_option mr_nonce_consumed row, pl_terminated = False,
     pl_anchoring = not_applicable\<rparr>"

definition anchoring_of :: "'t service \<Rightarrow> string option \<Rightarrow> tables \<Rightarrow> anchoring" where
  "anchoring_of sv receipt_id tb =
    (case Option.bind receipt_id (\<lambda>rid. find (\<lambda>r. ar_receipt_id r = rid) (tb_receipts tb)) of
       None \<Rightarrow> not_applicable
     | Some r \<Rightarrow>
         let status = or_str (ar_pgl_anchor_status r) ''unconfirmed''
         in \<lparr>ac_status = status, ac_anchor_id = ar_pgl_anchor_id r, ac_content_hash = Some (ar_content_hash r),
             ac_pgl_event_hash = ar_pgl_event_hash r,
             ac_pgl_agent_id = (if status \<noteq> ''confirmed'' then None else sv_pgl_agent_id sv)\<rparr>)"

text \<open>What the governed call gave: its decision, or the exception that leaves the request.\<close>

definition call_outcome :: "json effect_result \<Rightarrow> cevent option \<Rightarrow> exc + decision \<times> string \<times> json option" where
  "call_outcome r latest =
    (case r of
       Returned v \<Rightarrow> Inr (ALLOW, ''allowed'', Some v)
     | Raised ex \<Rightarrow>
         (case ex_class ex of
            PolicyExc _ \<Rightarrow> Inr (DENY, ex_text ex, None)
          | ValueExc \<Rightarrow>
              if (case latest of None \<Rightarrow> True | Some l \<Rightarrow> ce_state l \<noteq> CS_FAILED) then Inl ex
              else Inr (DENY, ''target_rejected:'' @ ex_text ex, None)
          | OtherExc \<Rightarrow> Inl ex))"

definition should_terminate :: "string \<Rightarrow> string \<Rightarrow> tables \<Rightarrow> bool" where
  "should_terminate mount_id reason tb \<longleftrightarrow>
     \<not> (take 19 reason = ''idempotency_replay:'' \<or> reason = ''consequence_already_started'' \<or>
        reason = ''nonce_replayed'' \<and> in_flight_operations mount_id (tb_events tb) \<noteq> [])"

definition terminate ::
  "world \<Rightarrow> string \<Rightarrow> unmount_reason \<Rightarrow> string \<Rightarrow> string option \<Rightarrow> cevent list list \<Rightarrow> string set \<Rightarrow> tables \<Rightarrow> tables \<Rightarrow>
   tables \<times> string set \<times> (exc + decision \<times> string \<times> anchor_result)" where
  "terminate w mount_id reason owner_principal owner_workspace polls revoked base cur =
    (case terminate_with_in_flight w mount_id reason owner_principal owner_workspace polls revoked base cur of
       (tb, revoked', r) \<Rightarrow> (tb, revoked', map_sum id (\<lambda>(d, why, a, _). (d, why, a)) r))"

text \<open>The closing termination and the answer. A raised exception leaves uncommitted rows behind.\<close>

definition finish ::
  "world \<Rightarrow> 't service \<Rightarrow> mount_row \<Rightarrow> consequence_request \<Rightarrow> string \<Rightarrow> decision \<Rightarrow> string \<Rightarrow> json option \<Rightarrow>
   't run_state \<Rightarrow> 't run_state \<times> (exc + decision \<times> string \<times> string option \<times> payload)" where
  "finish w sv row q op_id dec reason result s =
    (let latest = latest_event op_id (tb_events (rs_cur s));
         receipt_id = Option.bind latest ce_receipt_id;
         consequence_state = map_option (\<lambda>l. cstate_value (ce_state l)) latest;
         answer = (\<lambda>s' terminated. Inr (dec, reason, consequence_state,
           \<lparr>pl_execution_id = Some (tk_execution_id (row_token row)), pl_operation_id = op_id, pl_decision = dec,
            pl_reason = reason, pl_consequence_state = consequence_state, pl_target_invoked = (rs_dispatched s \<noteq> []),
            pl_resulting_state = result, pl_receipt_id = receipt_id,
            pl_nonce_consumed = Some (mr_nonce_consumed (rs_row s')), pl_terminated = terminated,
            pl_anchoring = anchoring_of sv receipt_id (rs_cur s)\<rparr>))
     in if \<not> should_terminate (xq_mount_id q) reason (rs_cur s) then (s\<lparr>rs_cur := rs_base s\<rparr>, answer s False)
        else case terminate w (xq_mount_id q) TASK_COMPLETE (xq_owner_principal q) (xq_owner_workspace q) [] (rs_revoked s)
                 (rs_base s) (rs_cur s) of
          (tb, revoked, Inl ex) \<Rightarrow> (s\<lparr>rs_base := tb, rs_cur := tb, rs_revoked := revoked\<rparr>, Inl ex)
        | (tb, revoked, Inr (d, _, _)) \<Rightarrow>
            let s' = commit (xq_mount_id q) tb tb (s\<lparr>rs_revoked := revoked\<rparr>)
            in (s', answer s' (d = ALLOW)))"

definition settle ::
  "world \<Rightarrow> 't service \<Rightarrow> mount_row \<Rightarrow> consequence_request \<Rightarrow> string \<Rightarrow> json effect_result \<Rightarrow> 't run_state \<Rightarrow>
   't run_state \<times> (exc + decision \<times> string \<times> string option \<times> payload)" where
  "settle w sv row q op_id r s =
    (case call_outcome r (latest_event op_id (tb_events (rs_cur s))) of
       Inl ex \<Rightarrow> (s, Inl ex)
     | Inr (dec, reason, result) \<Rightarrow> finish w sv row q op_id dec reason result s)"

definition governed_call ::
  "world \<Rightarrow> 't service \<Rightarrow> 't adapter \<Rightarrow> mount_row \<Rightarrow> consequence_request \<Rightarrow> string \<Rightarrow> 't run_state \<Rightarrow>
   't run_state \<times> json effect_result" where
  "governed_call w sv adapter row q op_id s =
    (case consequence (w_sha w) (py_str w) (\<lambda>i. w_uid w (i + 1)) (\<lambda>i. w_clk w (i + 1)) (rs_revoked s)
        \<lparr>cb_evaluator = Some (cappo_evaluator (later 10 w) sv row), cb_begin = Some (begin_callback (later 40 w) sv row),
         cb_reporter = Some (report_callback (later 50 w) sv row)\<rparr>
        (xq_action q) (invoke_effect w sv adapter row q op_id) (Some op_id) (passthrough q) (row_binding row) s of
       (b, s', r) \<Rightarrow> (s'\<lparr>rs_cur := sink_new (later 60 w) 0 row (row_binding row) b (rs_cur s')\<rparr>, r))"

definition execute_consequence ::
  "world \<Rightarrow> 't service \<Rightarrow> consequence_request \<Rightarrow> string set \<Rightarrow> 't \<Rightarrow> tables \<Rightarrow>
   tables \<times> string set \<times> 't \<times> permitted_context list \<times> (exc + decision \<times> string \<times> string option \<times> payload)" where
  "execute_consequence w sv q revoked target tb =
    (let op_id = or_str (xq_operation_id q) (w_uid w 0)
     in case preflight w sv q tb of
          Inl (reason, row) \<Rightarrow>
            (tb, revoked, target, [], Inr (DENY, reason, None, preflight_payload row op_id reason))
        | Inr row \<Rightarrow>
            (case Option.bind (xq_operation_id q) (\<lambda>op. latest_event op (tb_events tb)) of
               Some latest \<Rightarrow>
                 let reason = replay_reason latest (expected_intent w row q); st = cstate_value (ce_state latest)
                 in (tb, revoked, target, [], Inr (DENY, reason, Some st,
                       (preflight_payload (Some row) op_id reason)\<lparr>pl_consequence_state := Some st,
                          pl_receipt_id := ce_receipt_id latest\<rparr>))
             | None \<Rightarrow>
                 let adapter = the (resolve_target (sv_targets sv) (xq_target_ref q));
                     (s1, r) = governed_call w sv adapter row q op_id
                       \<lparr>rs_base = tb, rs_cur = tb, rs_row = row, rs_revoked = revoked, rs_target = target, rs_dispatched = []\<rparr>;
                     (s2, ans) = settle (later 70 w) sv row q op_id r (interfere sv 4 s1)
                 in (rs_base s2, rs_revoked s2, rs_target s2, rs_dispatched s2, ans)))"

end
