(* ===== verification/Mount_Dispatch.thy ===== *)
theory Mount_Dispatch
  imports Mount_Execute
begin

text \<open>
  What one \<open>execute_consequence\<close> request does to the service and to its target. Its transactions,
  with everything other requests commit in between, form a run of the service, so every guarantee of
  \<^emph>\<open>Mount_System\<close> holds across it; the target is reached at most once, and only after a
  receipt, an authorization and a won start claim of this request.
\<close>

subsection \<open>Steps of a request\<close>

lemma audit_step: "audit_only a b \<Longrightarrow> mount_step a b"
proof -
  assume "audit_only a b"
  then have "call_anchor (sample_world\<lparr>w_anchor := \<lambda>i q x. (tb_audit b, undefined)\<rparr>) 0 undefined a = (b, undefined)"
    by (simp add: call_anchor_def audit_only_def)
  then show "mount_step a b" by (rule step_anchor)
qed

definition gaps_ok :: "'t service \<Rightarrow> bool" where
  "gaps_ok sv \<longleftrightarrow> (\<forall>i tb. mount_step\<^sup>*\<^sup>* tb (sv_gap sv i tb))"

text \<open>Between two states of a request the service has run, and only audit rows are uncommitted.\<close>

definition moves :: "'t run_state \<Rightarrow> 't run_state \<Rightarrow> bool" where
  "moves s s' \<longleftrightarrow> mount_step\<^sup>*\<^sup>* (rs_base s) (rs_base s') \<and> audit_only (rs_base s') (rs_cur s')"

lemma moves_trans: "moves a b \<Longrightarrow> moves b c \<Longrightarrow> moves a c"
  by (auto simp: moves_def)

lemma moves_cur: "moves a b \<Longrightarrow> mount_step\<^sup>*\<^sup>* (rs_base a) (rs_cur b)"
  using audit_step by (fastforce simp: moves_def intro: rtranclp.rtrancl_into_rtrancl)

lemma commit_simps [simp]:
  "rs_base (commit mid base cur s) = base" "rs_cur (commit mid base cur s) = cur"
  "rs_target (commit mid base cur s) = rs_target s" "rs_dispatched (commit mid base cur s) = rs_dispatched s"
  "rs_revoked (commit mid base cur s) = rs_revoked s"
  by (simp_all add: commit_def)

lemma interfere_simps [simp]:
  "rs_target (interfere sv i s) = rs_target s" "rs_dispatched (interfere sv i s) = rs_dispatched s"
  "rs_revoked (interfere sv i s) = rs_revoked s" "rs_base (interfere sv i s) = sv_gap sv i (rs_base s)"
  "audit_only (sv_gap sv i (rs_base s)) (rs_cur (interfere sv i s))"
  by (simp_all add: interfere_def Let_def audit_only_def)

lemma interfere_moves: "gaps_ok sv \<Longrightarrow> moves s (interfere sv i s)"
  by (simp add: moves_def gaps_ok_def)

text \<open>A committed session view: one more step of the service, then nothing is left uncommitted.\<close>

lemma moves_commit:
  assumes "moves s s1" "mount_step\<^sup>*\<^sup>* (rs_cur s1) tb" "audit_only tb cur"
  shows "mount_step\<^sup>*\<^sup>* (rs_base s) tb" "moves s (commit mid tb cur s1)" "moves s (s1\<lparr>rs_base := tb, rs_cur := cur\<rparr>)"
  using moves_cur [OF assms(1)] assms(2,3) by (auto simp: moves_def)

lemma moves_refl: "audit_only (rs_base s) (rs_cur s) \<Longrightarrow> moves s s"
  by (simp add: moves_def)

subsection \<open>The evaluator\<close>

lemma evaluate_audit_only:
  assumes "evaluate w revoked q tb = (tb', cur, ans)"
  shows "audit_only tb' cur"
  using assms by (cases rule: evaluate_result) auto

text \<open>The committed right to start an operation: an allow receipt of the row's token and an \<open>AUTHORIZED\<close> event on it.\<close>

definition authorized_for :: "mount_row \<Rightarrow> string \<Rightarrow> string option \<Rightarrow> string \<Rightarrow> tables \<Rightarrow> bool" where
  "authorized_for row action resource op tb \<longleftrightarrow>
     (\<exists>rc e. rc \<in> set (tb_receipts tb) \<and> ar_decision rc = ''allow'' \<and> ar_token_id rc = mr_token_id row \<and>
        ar_mount_id rc = mr_mount_id row \<and> ar_action rc = action \<and> ar_resource rc = resource \<and>
        e \<in> set (tb_events tb) \<and> ce_operation_id e = op \<and> ce_mount_id e = mr_mount_id row \<and> ce_state e = CS_AUTHORIZED \<and>
        ce_receipt_id e = Some (ar_receipt_id rc) \<and> ce_authority_epoch e = Some (mr_authority_epoch row))"

lemma new_receipt_id: "ar_receipt_id (new_receipt w row q r) \<noteq> []"
  by (simp add: new_receipt_def Let_def)

lemma evaluate_allow_answer:
  assumes "tables_ok tb" "evaluate w revoked q tb = (tb', cur, Inr (ALLOW, reason, r, d))"
  obtains rc where "tb_receipts tb' = tb_receipts tb @ [rc]" "ar_token_id rc = qa_token_id q" "ar_mount_id rc = qa_mount_id q"
    "ar_decision rc = ''allow''" "ar_action rc = qa_action q" "ar_resource rc = qa_resource q"
    "Option.bind d dt_receipt_id = Some (ar_receipt_id rc)" "ar_receipt_id rc \<noteq> []"
  using assms(2)
proof (cases rule: evaluate_result)
  case (allowed row b evs tb1 tb2 r' rc)
  obtain rc' where rc': "tb_receipts tb' = tb_receipts tb @ [rc']" "ar_token_id rc' = qa_token_id q" "ar_mount_id rc' = qa_mount_id q"
    "ar_decision rc' = ''allow''" "ar_action rc' = qa_action q" "ar_resource rc' = qa_resource q"
    using evaluate_receipt [OF assms] by auto
  have "tb_receipts tb' = tb_receipts tb2 @ [rc]" "ar_receipt_id rc = ar_receipt_id (new_receipt w row q r')"
    using allowed(9) by (auto elim!: allow_commit_Some)
  then have "rc' = rc" "ar_receipt_id rc \<noteq> []" using rc'(1) new_receipt_id by auto
  then show ?thesis using that [of rc] rc' allowed(11) by simp
next
  case refused
  then show ?thesis by blast
qed

lemma cappo_evaluator_moves:
  assumes "gaps_ok sv" "audit_only (rs_base s) (rs_cur s)" "cappo_evaluator w sv row action kwargs op ih s = (s', r)"
  shows "moves s s' \<and> rs_target s' = rs_target s \<and> rs_dispatched s' = rs_dispatched s"
proof (cases "latest_event op (tb_events (rs_cur s))")
  case (Some l)
  then show ?thesis using assms(2,3) by (auto simp: cappo_evaluator_def intro: moves_refl)
next
  case None
  obtain base cur ans where e: "evaluate w (rs_revoked s) (action_of w row action kwargs) (rs_cur s) = (base, cur, ans)"
    by (metis prod_cases3)
  let ?s1 = "commit (mt_id (mr_mount row)) base cur s"
  have m1: "moves s ?s1"
    using moves_commit(2) [OF moves_refl [OF assms(2)] _ evaluate_audit_only [OF e]] step_evaluate [OF e] by blast
  let ?s2 = "interfere sv 0 ?s1"
  have m2: "moves s ?s2" using m1 interfere_moves [OF assms(1)] moves_trans by blast
  have m3: "moves s (?s2\<lparr>rs_cur := rs_base ?s2\<rparr>)" using m2 by (simp add: moves_def)
  have m4: "moves s (?s2\<lparr>rs_base := tb, rs_cur := tb\<rparr>)" if "authorize_txn w' row op ih rid action kwargs (rs_cur ?s2) = Some tb" for w' rid tb
    using moves_commit(3) [OF m2 r_into_rtranclp [of mount_step, OF step_authorize [OF that]]] by simp
  note run = assms(3) [unfolded cappo_evaluator_def None option.case e prod.case Let_def]
  show ?thesis
  proof (cases ans)
    case (Inl ex)
    then show ?thesis using run m1 by auto
  next
    case (Inr a)
    obtain dec reason x d where a: "a = (dec, reason, x, d)" by (metis prod_cases4)
    show ?thesis
    proof (cases "dec = ALLOW \<and> truthy (Option.bind d dt_receipt_id)")
      case False
      then show ?thesis using run m1 Inr a by auto
    next
      case True
      then show ?thesis using run m3 m4 Inr a
        by (cases "authorize_txn (later 20 w) row op ih (the (Option.bind d dt_receipt_id)) action kwargs (rs_cur ?s2)") auto
    qed
  qed
qed

lemma authorize_txn_Some:
  "authorize_txn w row op ih rid action kwargs tb = Some tb' \<Longrightarrow>
     tb' = tb\<lparr>tb_events := tb_events tb @ [authorized_event w row op ih rid action kwargs]\<rparr>"
  by (auto simp: authorize_txn_def split: option.splits if_splits)

text \<open>An allowed evaluator leaves its receipt and the \<open>AUTHORIZED\<close> event of the operation behind.\<close>

lemma cappo_evaluator_allow:
  assumes gaps: "gaps_ok sv" and pending: "audit_only (rs_base s) (rs_cur s)" and ok: "tables_ok (rs_base s)" "row_ok row"
    and run: "cappo_evaluator w sv row action kwargs op ih s = (s', Inr (ALLOW, reason, rid))"
  shows "authorized_for row action (kw_resource_text (py_str w) kwargs) op (rs_base s')"
proof -
  have none: "latest_event op (tb_events (rs_cur s)) = None"
    using run by (auto simp: cappo_evaluator_def split: option.splits)
  obtain base cur ans where e: "evaluate w (rs_revoked s) (action_of w row action kwargs) (rs_cur s) = (base, cur, ans)"
    by (metis prod_cases3)
  have okc: "tables_ok (rs_cur s)" using ok(1) keeps_audit_only [OF pending] by (simp add: keeps_def)
  let ?s1 = "commit (mt_id (mr_mount row)) base cur s"
  let ?s2 = "interfere sv 0 ?s1"
  note run' = run [unfolded cappo_evaluator_def none option.case e prod.case Let_def]
  obtain x d where ans: "ans = Inr (ALLOW, reason, x, d)"
    using run' by (cases ans) (auto split: if_splits option.splits)
  obtain rc where rc: "tb_receipts base = tb_receipts (rs_cur s) @ [rc]" "ar_token_id rc = mr_token_id row"
    "ar_mount_id rc = mr_mount_id row" "ar_decision rc = ''allow''" "ar_action rc = action"
    "ar_resource rc = kw_resource_text (py_str w) kwargs" "Option.bind d dt_receipt_id = Some (ar_receipt_id rc)" "ar_receipt_id rc \<noteq> []"
    using evaluate_allow_answer [OF okc e [unfolded ans]] ok(2) by (auto simp: action_of_def row_token_def row_ok_def)
  have base: "tables_ok base" using okc keeps_evaluate [OF e] by (simp add: keeps_def)
  then have "rc \<in> set (tb_receipts (rs_base ?s2))"
    using rc(1) ms.run_receipts [of base "rs_base ?s2"] gaps by (auto simp: gaps_ok_def)
  then have in2: "rc \<in> set (tb_receipts (rs_cur ?s2))" using audit_onlyD(3) [OF interfere_simps(5) [of sv 0 ?s1]] by simp
  obtain tb where a: "authorize_txn (later 20 w) row op ih (ar_receipt_id rc) action kwargs (rs_cur ?s2) = Some tb"
    "s' = ?s2\<lparr>rs_base := tb, rs_cur := tb\<rparr>"
    using run' rc(7,8) by (auto simp: ans split: option.splits if_splits)
  show ?thesis using in2 rc ok(2) a(2) authorize_txn_Some [OF a(1)]
    by (intro authorized_for_def [THEN iffD2] exI [of _ rc] exI [of _ "authorized_event (later 20 w) row op ih (ar_receipt_id rc) action kwargs"])
      (simp add: authorized_event_def row_ok_def)
qed

subsection \<open>Start, effect and report\<close>

lemma anchor_outcome_audit_only: "audit_only tb (anchor_consequence_outcome w i outcome m t op rid action dec reason pt tb)"
  by (simp add: anchor_consequence_outcome_def call_anchor_audit_only [OF prod.collapse [symmetric]])

lemma begin_consequence_cases:
  assumes "begin_consequence w m t op tb = (tb', c)"
  obtains tb1 r where "begin_txn w (mt_id m) op (tb_events tb) tb = (tb1, r)" "audit_only tb1 tb'"
    "c = Owned True \<longleftrightarrow> r = Begun" "r = Begun \<longrightarrow> tb' = tb1"
proof -
  obtain tb1 r where b: "begin_txn w (mt_id m) op (tb_events tb) tb = (tb1, r)" by fastforce
  show thesis
    using that [OF b] assms b anchor_outcome_audit_only by (cases r) (auto simp: begin_consequence_def)
qed

lemma begin_callback_moves:
  assumes gaps: "gaps_ok sv" and pending: "audit_only (rs_base s) (rs_cur s)" and ok: "tables_ok (rs_base s)" "row_ok row"
    and e: "e \<in> set (tb_events (rs_base s))" "ce_operation_id e = op" "ce_mount_id e = mr_mount_id row"
    and run: "begin_callback w sv row op s = (s', c)"
  shows "moves s s' \<and> rs_target s' = rs_target s \<and> rs_dispatched s' = rs_dispatched s \<and> rs_cur s' = rs_base s' \<and>
    (c = Owned True \<longrightarrow> (\<exists>tb. mount_step\<^sup>*\<^sup>* (rs_base s) tb \<and> mount_step tb (rs_base s') \<and>
       begin_txn w (mr_mount_id row) op (tb_events tb) tb = (rs_base s', Begun)))"
proof -
  let ?s1 = "interfere sv 1 s"
  have m1: "moves s ?s1" by (rule interfere_moves [OF gaps])
  have ok1: "tables_ok (rs_cur ?s1)" using ms.run_ok [OF moves_cur [OF m1] ok(1)] .
  obtain tb c' where b: "begin_consequence w (mr_mount row) (row_token row) op (rs_cur ?s1) = (tb, c')" by fastforce
  then have s': "s' = commit (mt_id (mr_mount row)) tb tb ?s1" "c' = c" using run by (simp_all add: begin_callback_def Let_def)
  have mid: "mt_id (mr_mount row) = mr_mount_id row" using ok(2) by (simp add: row_ok_def)
  obtain tb1 r where t: "begin_txn w (mr_mount_id row) op (tb_events (rs_cur ?s1)) (rs_cur ?s1) = (tb1, r)" "audit_only tb1 tb"
    "c' = Owned True \<longleftrightarrow> r = Begun" "r = Begun \<longrightarrow> tb = tb1"
    by (rule begin_consequence_cases [OF b, unfolded mid])
  have e1: "e \<in> set (tb_events (rs_cur ?s1))" using e(1) ms.run_events [OF moves_cur [OF m1] ok(1)] by auto
  have mount: "ce_mount_id l = mr_mount_id row" if "latest_event op (tb_events (rs_cur ?s1)) = Some l" for l
  proof -
    have "same_operation e l"
      using events_wf_same_op [OF _ e1] latest_event_SomeD [OF that] e(2) ok1 by (simp add: tables_ok_def)
    then show ?thesis using e(3) by (simp add: same_operation_def)
  qed
  have step: "mount_step (rs_cur ?s1) tb1" by (rule step_begin [OF t(1), of "[]"]) (simp, rule mount)
  have "mount_step\<^sup>*\<^sup>* (rs_cur ?s1) tb"
    using rtranclp.rtrancl_into_rtrancl [OF r_into_rtranclp [of mount_step, OF step] audit_step [OF t(2)]] .
  then have "moves s s'" unfolding s' by (rule moves_commit(2) [OF m1 _ audit_only_refl])
  then show ?thesis using t(1,3,4) step moves_cur [OF m1] unfolding s' by auto
qed

lemma completion_reporter_step: "mount_step\<^sup>*\<^sup>* tb (completion_reporter w m t op ok err u pt tb)"
proof -
  obtain tb1 r where b: "report_txn w op ok err u pt (tb_events tb) tb = (tb1, r)" by fastforce
  have "mount_step tb tb1" by (rule step_report [OF b, of "[]"]) simp
  moreover have "mount_step\<^sup>*\<^sup>* tb1 (completion_reporter w m t op ok err u pt tb)"
    using b audit_step [OF anchor_outcome_audit_only] by (cases r) (auto simp: completion_reporter_def)
  ultimately show ?thesis by (rule converse_rtranclp_into_rtranclp)
qed

lemma report_callback_moves:
  assumes "gaps_ok sv"
  shows "moves s (report_callback w sv row op ok err u pt s)"
    "rs_target (report_callback w sv row op ok err u pt s) = rs_target s"
    "rs_dispatched (report_callback w sv row op ok err u pt s) = rs_dispatched s"
  using moves_commit(3) [OF interfere_moves [OF assms] completion_reporter_step audit_only_refl]
  by (simp_all add: report_callback_def Let_def)

lemma invoke_effect_moves:
  assumes "gaps_ok sv" "invoke_effect w sv adapter row q op kw s = (s', r)"
  obtains cx tb where "moves s s'" "rs_dispatched s' = rs_dispatched s @ [cx]" "ad_dispatch adapter cx (rs_target s) = (rs_target s', r)"
    "cx = with_permit w (context_of row q op) (mt_id (mr_mount row)) (xq_target_ref q) tb"
  using assms interfere_moves [OF assms(1), of s 2]
  by (auto simp: invoke_effect_def Let_def moves_def split: prod.splits)

subsection \<open>The governed call\<close>

lemma consequence_cases:
  assumes "consequence sha ps uid clk revoked \<lparr>cb_evaluator = Some ev, cb_begin = Some bg, cb_reporter = Some rp\<rparr>
      action fn (Some op) kwargs b s = (b', s', r)" "op \<noteq> []"
  obtains (denied) err where "local_eval sha ps uid clk revoked action kwargs b = (b', Inl err)" "s' = s" "r = Raised (policy_exc err)"
  | (failed) kw ih ex where "local_eval sha ps uid clk revoked action kwargs b = (b, Inr kw)"
      "ev action kw op ih s = (s', Inl ex)" "r = Raised ex"
  | (refused) kw ih dec reason rid where "local_eval sha ps uid clk revoked action kwargs b = (b, Inr kw)"
      "ev action kw op ih s = (s', Inr (dec, reason, rid))" "dec \<noteq> ALLOW" "r = Raised (policy_exc (PolicyError reason))"
  | (unclaimed) kw ih s1 reason rid c e where "local_eval sha ps uid clk revoked action kwargs b = (b, Inr kw)"
      "ev action kw op ih s = (s1, Inr (ALLOW, reason, rid))" "bg op s1 = (s', c)" "c \<noteq> Owned True" "r = Raised (policy_exc e)"
  | (ran) kw ih s1 reason rid s2 s3 ok err u pt where "local_eval sha ps uid clk revoked action kwargs b = (b, Inr kw)"
      "ev action kw op ih s = (s1, Inr (ALLOW, reason, rid))" "bg op s1 = (s2, Owned True)" "fn kw s2 = (s3, r)"
      "s' = rp op ok err u pt s3"
proof -
  obtain b1 le where l: "local_eval sha ps uid clk revoked action kwargs b = (b1, le)" by fastforce
  note c = assms(1) [unfolded consequence_def l prod.case callbacks.select_convs option.case]
  show thesis
  proof (cases le)
    case (Inl err)
    then show ?thesis using c l denied by auto
  next
    case (Inr kw)
    then have b1: "b1 = b" using local_eval_Inr(1) l by blast
    have op: "or_str (Some op) (uid 3) = op" using assms(2) by simp
    let ?ih = "consequence_intent sha ps (tk_mount_id (bd_token b)) (tk_execution_id (bd_token b)) action kw"
    note lb = l [unfolded b1 Inr]
    obtain s1 a where e: "ev action kw op ?ih s = (s1, a)" by fastforce
    note c1 = c [unfolded Inr sum.case Let_def op b1 e prod.case]
    show ?thesis
    proof (cases a)
      case (Inl ex)
      then have "s1 = s'" "r = Raised ex" using c1 by simp_all
      then show ?thesis using failed [OF lb] e Inl by simp
    next
      case (Inr d)
      obtain dec reason rid where d: "d = (dec, reason, rid)" by (metis prod_cases3)
      note e1 = e [unfolded Inr d]
      show ?thesis
      proof (cases "dec = ALLOW")
        case False
        then have "s1 = s'" "r = Raised (policy_exc (PolicyError reason))" using c1 Inr d by simp_all
        then show ?thesis using refused [OF lb _ False] e1 by simp
      next
        case True
        note e2 = e1 [unfolded True]
        obtain s2 cl where g: "bg op s1 = (s2, cl)" by fastforce
        obtain s3 r3 where f: "fn kw s2 = (s3, r3)" by fastforce
        note c2 = c1 [unfolded Inr d sum.case prod.case True g, simplified]
        show ?thesis
        proof (cases "cl = Owned True")
          case False
          then obtain e' where "s2 = s'" "r = Raised (policy_exc e')" using c2 by (cases cl) auto
          then show ?thesis using unclaimed [OF lb e2 _ False] g by simp
        next
          case True
          then have "r3 = r" "\<exists>ok err u pt. s' = rp op ok err u pt s3"
            using c2 f by (cases r3; auto simp: run_effect_def Let_def)+
          then show ?thesis using ran [OF lb e2 g [unfolded True]] f by blast
        qed
      qed
    qed
  qed
qed

lemma authorized_for_run:
  assumes "authorized_for row action res op a" "tables_ok a" "mount_step\<^sup>*\<^sup>* a b"
  shows "authorized_for row action res op b"
  using assms(1) ms.run_receipts [OF assms(3,2)] ms.run_events [OF assms(3,2)]
  unfolding authorized_for_def by (metis Un_iff set_append)

lemma passthrough_resource:
  "kw_resource (py_str w) (passthrough q) = Some (xq_resource q)"
  "kw_resource_text (py_str w) (drop_keys [''approval_token'', ''suppression_confirmed''] (passthrough q)) = Some (xq_resource q)"
  by (simp_all add: kw_resource_def kw_resource_text_def passthrough_def drop_keys_def py_str_def)

text \<open>What a request that reached its target had: the rights of the row, a recorded authorization and the start claim.\<close>

definition started_by :: "world \<Rightarrow> mount_row \<Rightarrow> consequence_request \<Rightarrow> string \<Rightarrow> tables \<Rightarrow> tables \<Rightarrow> bool" where
  "started_by w row q op a b \<longleftrightarrow>
     profile_allows (tk_grants (mr_token row)) (xq_action q) \<and>
     profile_covers_resource (tk_grants (mr_token row)) (Some (xq_resource q)) \<and>
     (\<exists>tb1 tb2. mount_step\<^sup>*\<^sup>* a tb1 \<and> authorized_for row (xq_action q) (Some (xq_resource q)) op tb1 \<and>
        begin_txn (later 40 w) (mr_mount_id row) op (tb_events tb1) tb1 = (tb2, Begun) \<and> mount_step tb1 tb2 \<and>
        mount_step\<^sup>*\<^sup>* tb2 b)"

lemma started_by_run: "started_by w row q op a b \<Longrightarrow> mount_step\<^sup>*\<^sup>* b c \<Longrightarrow> started_by w row q op a c"
  unfolding started_by_def by (meson rtranclp_trans)

lemma sink_moves: "moves a s \<Longrightarrow> moves a (s\<lparr>rs_cur := sink_new w i row b b' (rs_cur s)\<rparr>)"
  using sink_new_audit_only audit_only_trans by (fastforce simp: moves_def)

lemma governed_call_cases:
  assumes gaps: "gaps_ok sv" and start: "rs_cur s = rs_base s" and ok: "tables_ok (rs_base s)" "row_ok row" and op: "op \<noteq> []"
    and run: "governed_call w sv adapter row q op s = (s', r)"
  obtains (idle) ex where "moves s s'" "rs_target s' = rs_target s" "rs_dispatched s' = rs_dispatched s" "r = Raised ex"
  | (ran) cx tb where "moves s s'" "started_by w row q op (rs_base s) (rs_base s')" "rs_dispatched s' = rs_dispatched s @ [cx]"
      "ad_dispatch adapter cx (rs_target s) = (rs_target s', r)"
      "cx = with_permit w (context_of row q op) (mt_id (mr_mount row)) (xq_target_ref q) tb"
proof -
  let ?ev = "cappo_evaluator (later 10 w) sv row" and ?bg = "begin_callback (later 40 w) sv row"
    and ?rp = "report_callback (later 50 w) sv row"
  have pending: "audit_only (rs_base s) (rs_cur s)" using start by simp
  obtain b sc where c: "consequence (w_sha w) (py_str w) (\<lambda>i. w_uid w (i + 1)) (\<lambda>i. w_clk w (i + 1)) (rs_revoked s)
      \<lparr>cb_evaluator = Some ?ev, cb_begin = Some ?bg, cb_reporter = Some ?rp\<rparr>
      (xq_action q) (invoke_effect w sv adapter row q op) (Some op) (passthrough q) (row_binding row) s = (b, sc, r)"
    "s' = sc\<lparr>rs_cur := sink_new (later 60 w) 0 row (row_binding row) b (rs_cur sc)\<rparr>"
    using run by (auto simp: governed_call_def split: prod.splits)
  have same: "rs_base s' = rs_base sc" "rs_target s' = rs_target sc" "rs_dispatched s' = rs_dispatched sc" using c(2) by simp_all
  have sink: "moves s sc \<Longrightarrow> moves s s'" using c(2) sink_moves by simp
  note ev = cappo_evaluator_moves [OF gaps pending]
  from c(1) op show thesis
  proof (cases rule: consequence_cases)
    case (denied err)
    then show ?thesis using idle [OF sink] same moves_refl [OF pending] by simp
  next
    case (failed kw ih ex)
    then show ?thesis using idle [OF sink] same ev [OF failed(2)] by simp
  next
    case (refused kw ih dec reason rid)
    then show ?thesis using idle [OF sink] same ev [OF refused(2)] by simp
  next
    case (unclaimed kw ih s1 reason rid c e)
    note m1 = ev [OF unclaimed(2)] and az = cappo_evaluator_allow [OF gaps pending ok unclaimed(2)]
    have "tables_ok (rs_base s1)" using m1 ok(1) ms.run_ok by (auto simp: moves_def)
    then have "moves s1 sc \<and> rs_target sc = rs_target s1 \<and> rs_dispatched sc = rs_dispatched s1"
      using begin_callback_moves [OF gaps _ _ ok(2) _ _ _ unclaimed(3)] az m1 by (auto simp: authorized_for_def moves_def)
    then show ?thesis using idle [OF sink] same m1 moves_trans unclaimed(5) by auto
  next
    case (ran kw ih s1 reason rid s2 s3 ok' err u pt)
    note m1 = ev [OF ran(2)] and az = cappo_evaluator_allow [OF gaps pending ok ran(2)]
    have ok1: "tables_ok (rs_base s1)" using m1 ok(1) ms.run_ok by (auto simp: moves_def)
    have m2: "moves s1 s2 \<and> rs_target s2 = rs_target s1 \<and> rs_dispatched s2 = rs_dispatched s1 \<and>
        (\<exists>tb. mount_step\<^sup>*\<^sup>* (rs_base s1) tb \<and> mount_step tb (rs_base s2) \<and> begin_txn (later 40 w) (mr_mount_id row) op (tb_events tb) tb = (rs_base s2, Begun))"
      using begin_callback_moves [OF gaps _ ok1 ok(2) _ _ _ ran(3)] az m1 by (auto simp: authorized_for_def moves_def)
    obtain cx tb where m3: "moves s2 s3" "rs_dispatched s3 = rs_dispatched s2 @ [cx]" "ad_dispatch adapter cx (rs_target s2) = (rs_target s3, r)"
      "cx = with_permit w (context_of row q op) (mt_id (mr_mount row)) (xq_target_ref q) tb"
      by (rule invoke_effect_moves [OF gaps ran(4)])
    have m4: "moves s3 sc" "rs_target sc = rs_target s3" "rs_dispatched sc = rs_dispatched s3"
      unfolding ran(5) by (rule report_callback_moves [OF gaps])+
    obtain tb1 where tb1: "mount_step\<^sup>*\<^sup>* (rs_base s1) tb1" "mount_step tb1 (rs_base s2)"
      "begin_txn (later 40 w) (mr_mount_id row) op (tb_events tb1) tb1 = (rs_base s2, Begun)" using m2 by blast
    have kw: "kw = drop_keys [''approval_token'', ''suppression_confirmed''] (passthrough q)" by (rule local_eval_Inr(7) [OF ran(1)])
    have "authorized_for row (xq_action q) (Some (xq_resource q)) op tb1"
      using authorized_for_run [OF az ok1 tb1(1)] by (simp add: kw passthrough_resource)
    moreover have "mount_step\<^sup>*\<^sup>* (rs_base s) tb1" "mount_step\<^sup>*\<^sup>* (rs_base s2) (rs_base s')"
      using m1 tb1(1) m3(1) m4(1) same(1) by (auto simp: moves_def)
    moreover have "profile_allows (tk_grants (mr_token row)) (xq_action q)"
      "profile_covers_resource (tk_grants (mr_token row)) (Some (xq_resource q))"
      using local_eval_Inr(5,6) [OF ran(1)] by (simp_all add: row_binding_def new_binding_def row_token_def passthrough_resource)
    ultimately have "started_by w row q op (rs_base s) (rs_base s')" using tb1(2,3) unfolding started_by_def by blast
    moreover have "moves s s'" using sink m1 m2 m3(1) m4(1) moves_trans by blast
    ultimately show ?thesis using that(2) m1 m2 m3 m4 same by simp
  qed
qed

subsection \<open>The whole request\<close>

lemma terminate_txn_committed:
  assumes "terminate_txn w mid reason who ws revoked base cur = (tb', revoked', Term_Now a)"
  shows "terminate_txn w mid reason who ws revoked cur cur = (tb', revoked', Term_Now a)"
  using assms unfolding terminate_txn_def Let_def
  by (auto split: option.splits prod.splits if_splits)

lemma terminate_runs:
  assumes "audit_only base cur" "terminate_txn w mid reason who ws revoked base cur = (tb', revoked', r)"
  shows "mount_step\<^sup>*\<^sup>* base tb'"
  using assms(2)
proof (cases rule: terminate_txn_cases)
  case audit
  then show ?thesis using audit_step [OF audit_only_trans [OF assms(1) audit(1)]] by blast
next
  case (now row tb1 a)
  have "mount_step cur tb'" by (rule step_terminate [OF terminate_txn_committed [OF assms(2) [unfolded now(6)]]])
  then show ?thesis using audit_step [OF assms(1)] by (meson converse_rtranclp_into_rtranclp r_into_rtranclp)
qed simp

lemma finish_cases:
  assumes "audit_only (rs_base s) (rs_cur s)" "finish w sv row q op dec reason result s = (s', ans)"
  obtains st pl where "moves s s'" "rs_target s' = rs_target s" "rs_dispatched s' = rs_dispatched s"
    "isl ans \<or> ans = Inr (dec, reason, st, pl) \<and> (pl_target_invoked pl \<longleftrightarrow> rs_dispatched s \<noteq> []) \<and> pl_decision pl = dec"
proof -
  obtain tb revoked r where t: "terminate_txn w (xq_mount_id q) TASK_COMPLETE (xq_owner_principal q) (xq_owner_workspace q)
      (rs_revoked s) (rs_base s) (rs_cur s) = (tb, revoked, r)" by (metis prod_cases3)
  have run: "mount_step\<^sup>*\<^sup>* (rs_base s) tb" by (rule terminate_runs [OF assms(1) t])
  show thesis
  proof (cases "should_terminate (xq_mount_id q) reason (rs_cur s)")
    case False
    then show ?thesis using assms that by (auto simp: finish_def Let_def moves_def)
  next
    case True
    then show ?thesis using assms(2) run t that
      by (cases r) (auto simp: finish_def Let_def terminate_def terminate_with_in_flight_def moves_def)
  qed
qed

lemma settle_cases:
  assumes "audit_only (rs_base s) (rs_cur s)" "settle w sv row q op r s = (s', ans)"
  shows "moves s s' \<and> rs_target s' = rs_target s \<and> rs_dispatched s' = rs_dispatched s \<and>
    (isl ans \<or> (\<exists>dec reason st pl. ans = Inr (dec, reason, st, pl) \<and> (pl_target_invoked pl \<longleftrightarrow> rs_dispatched s \<noteq> []) \<and>
       pl_decision pl = dec \<and> (dec = ALLOW \<longleftrightarrow> (\<exists>v. r = Returned v))))"
proof (cases "call_outcome r (latest_event op (tb_events (rs_cur s)))")
  case (Inl ex)
  then show ?thesis using assms by (auto simp: settle_def intro: moves_refl)
next
  case (Inr x)
  obtain dec reason result where x: "x = (dec, reason, result)" by (metis prod_cases3)
  have dec: "dec = ALLOW \<longleftrightarrow> (\<exists>v. r = Returned v)"
    using Inr x by (auto simp: call_outcome_def split: effect_result.splits exc_class.splits if_splits)
  have f: "finish w sv row q op dec reason result s = (s', ans)" using assms(2) Inr x by (simp add: settle_def)
  show ?thesis by (rule finish_cases [OF assms(1) f]) (use dec in blast)
qed

lemma preflight_Inr:
  assumes "preflight w sv q tb = Inr row"
  obtains adapter where "row_of (xq_mount_id q) tb = Some row" "owned_by row (xq_owner_principal q) (xq_owner_workspace q)"
    "record_refusal w sv row q tb = None" "sv_targets sv (xq_target_ref q) = Some adapter" "xq_action q \<in> ad_actions adapter"
    "package_refusal w row q = None"
    "envelope_refusal w (row_token row) (xq_target_ref q) (xq_action q) (xq_resource q) (xq_arguments q) = None"
proof -
  have p: "row_of (xq_mount_id q) tb = Some row" "owned_by row (xq_owner_principal q) (xq_owner_workspace q)"
    "record_refusal w sv row q tb = None"
    using assms by (auto simp: preflight_def split: option.splits if_splits)
  then have "package_refusal w row q = None \<and>
      envelope_refusal w (row_token row) (xq_target_ref q) (xq_action q) (xq_resource q) (xq_arguments q) = None \<and>
      target_refusal row (resolve_target (sv_targets sv) (xq_target_ref q)) q = None"
    by (simp add: record_refusal_def split: option.splits if_splits)
  then show thesis using that p by (auto simp: target_refusal_def resolve_target_def split: option.splits if_splits)
qed

lemma execute_cases:
  assumes ok: "tables_ok tb" and gaps: "gaps_ok sv" and op: "or_str (xq_operation_id q) (w_uid w 0) \<noteq> []"
    and run: "execute_consequence w sv q revoked target tb = (tb', revoked', target', ds, ans)"
  obtains (idle) "mount_step\<^sup>*\<^sup>* tb tb'" "target' = target" "ds = []"
      "isl ans \<or> (\<exists>reason st pl. ans = Inr (DENY, reason, st, pl) \<and> \<not> pl_target_invoked pl \<and> pl_decision pl = DENY)"
  | (ran) row adapter cx tb0 r where "preflight w sv q tb = Inr row" "sv_targets sv (xq_target_ref q) = Some adapter"
      "started_by w row q (or_str (xq_operation_id q) (w_uid w 0)) tb tb'" "ds = [cx]"
      "ad_dispatch adapter cx target = (target', r)"
      "cx = with_permit w (context_of row q (or_str (xq_operation_id q) (w_uid w 0))) (mt_id (mr_mount row)) (xq_target_ref q) tb0"
      "isl ans \<or> (\<exists>dec reason st pl. ans = Inr (dec, reason, st, pl) \<and> pl_target_invoked pl \<and> pl_decision pl = dec \<and>
         (dec = ALLOW \<longleftrightarrow> (\<exists>v. r = Returned v)))"
proof -
  let ?op = "or_str (xq_operation_id q) (w_uid w 0)"
  show thesis
  proof (cases "preflight w sv q tb")
    case (Inl x)
    then show ?thesis using run idle by (cases x) (auto simp: execute_consequence_def Let_def preflight_payload_def)
  next
    case (Inr row)
    note pre = this
    obtain adapter where ad: "row_of (xq_mount_id q) tb = Some row" "sv_targets sv (xq_target_ref q) = Some adapter"
      using preflight_Inr [OF pre] by metis
    have row: "row_ok row" by (rule row_of_ok [OF ok ad(1)])
    show ?thesis
    proof (cases "Option.bind (xq_operation_id q) (\<lambda>op. latest_event op (tb_events tb))")
      case (Some l)
      then show ?thesis using run idle pre by (auto simp: execute_consequence_def Let_def preflight_payload_def)
    next
      case None
      let ?s = "\<lparr>rs_base = tb, rs_cur = tb, rs_row = row, rs_revoked = revoked, rs_target = target, rs_dispatched = []\<rparr>"
      obtain s1 r where g: "governed_call w sv adapter row q ?op ?s = (s1, r)" by fastforce
      let ?s2 = "interfere sv 4 s1"
      obtain s3 where s3: "settle (later 70 w) sv row q ?op r ?s2 = (s3, ans)"
        "tb' = rs_base s3" "target' = rs_target s3" "ds = rs_dispatched s3"
        using run pre None g ad(2) by (auto simp: execute_consequence_def Let_def resolve_target_def split: prod.splits)
      have "audit_only (rs_base ?s2) (rs_cur ?s2)" by simp
      note fin = settle_cases [OF this s3(1)]
      have m: "moves s1 s3" using interfere_moves [OF gaps] fin moves_trans by blast
      have st: "rs_target s3 = rs_target s1" "rs_dispatched s3 = rs_dispatched s1" using fin by simp_all
      have "rs_cur ?s = rs_base ?s" "tables_ok (rs_base ?s)" using ok by simp_all
      from gaps this row op g show ?thesis
      proof (cases rule: governed_call_cases)
        case (idle ex)
        have "mount_step\<^sup>*\<^sup>* tb tb'" using moves_trans [OF idle(1) m] s3(2) by (simp add: moves_def)
        then show ?thesis using that(1) idle(2-4) s3(3,4) st fin by (auto; metis decision.exhaust)
      next
        case (ran cx tb0)
        have "mount_step\<^sup>*\<^sup>* (rs_base s1) tb'" using m s3(2) by (simp add: moves_def)
        then have "started_by w row q ?op tb tb'" using started_by_run [OF ran(2)] by simp
        then show ?thesis using that(2) [OF pre ad(2) _ _ _ ran(5)] ran(3,4) s3(3,4) st fin by auto
      qed
    qed
  qed
qed

end
