(* ===== verification/Mount_Requests.thy ===== *)
theory Mount_Requests
  imports Mount_Dispatch
begin

text \<open>
  Guarantees of whole \<open>execute_consequence\<close> requests: an operation is dispatched at most once over
  any interleaving, an undisturbed request completes with its outcome recorded and its mount ended,
  and a replayed token ends the mount even while an operation of it is in flight.
\<close>

subsection \<open>Dispatch only after authorization\<close>

text \<open>
  C5. A request that reaches a target had every right to. If \<open>execute_consequence\<close> dispatches, under any
  interleaving with other requests, then the mount exists and belongs to the caller, the package names
  this target (if it names one), the operation is the one a bound envelope was signed for, the
  profile grants action and resource, and before the dispatch the service had committed an allow
  receipt of the mount's token for exactly this action and resource, the \<open>AUTHORIZED\<close> event of the
  operation on that receipt, and the start claim on a mount that was then alive and of the same
  epoch. The target is called exactly once, with the caller's action, resource, arguments and
  operation in the mount's own workspace and project.
\<close>

theorem dispatch_authorized:
  assumes "tables_ok tb" "gaps_ok sv" "or_str (xq_operation_id q) (w_uid w 0) \<noteq> []"
    and "execute_consequence w sv q revoked target tb = (tb', revoked', target', ds, ans)" "ds \<noteq> []"
  shows "\<exists>row adapter cx r tb1 tb2. let op = or_str (xq_operation_id q) (w_uid w 0); t = row_token row in
    row_of (xq_mount_id q) tb = Some row \<and> owned_by row (xq_owner_principal q) (xq_owner_workspace q) \<and>
    sv_targets sv (xq_target_ref q) = Some adapter \<and> xq_action q \<in> ad_actions adapter \<and>
    (\<forall>p ref. w_packages w (tk_package_ref t) = Some p \<longrightarrow> pk_target_ref p = Some ref \<longrightarrow> ref = [] \<or> ref = xq_target_ref q) \<and>
    (\<forall>d. gr_envelope_digest (tk_grants t) = Some d \<longrightarrow>
       operation_envelope_digest (w_sha w) (tk_package_ref t) (xq_target_ref q) (xq_action q) (xq_resource q) (xq_arguments q) = d) \<and>
    profile_allows (tk_grants t) (xq_action q) \<and> profile_covers_resource (tk_grants t) (Some (xq_resource q)) \<and>
    mount_step\<^sup>*\<^sup>* tb tb1 \<and> authorized_for row (xq_action q) (Some (xq_resource q)) op tb1 \<and>
    begin_txn (later 40 w) (xq_mount_id q) op (tb_events tb1) tb1 = (tb2, Begun) \<and> \<not> dead (xq_mount_id q) tb1 \<and>
    mount_step\<^sup>*\<^sup>* tb2 tb' \<and> ds = [cx] \<and> ad_dispatch adapter cx target = (target', r) \<and>
    consequence_context.truncate cx = context_of row q op"
  using assms(1-4)
proof (cases rule: execute_cases)
  case idle
  then show ?thesis using assms(5) by simp
next
  case (ran row adapter cx tb0 r)
  let ?op = "or_str (xq_operation_id q) (w_uid w 0)"
  obtain adapter' where pre: "row_of (xq_mount_id q) tb = Some row" "owned_by row (xq_owner_principal q) (xq_owner_workspace q)"
    "sv_targets sv (xq_target_ref q) = Some adapter'" "xq_action q \<in> ad_actions adapter'" "package_refusal w row q = None"
    "envelope_refusal w (row_token row) (xq_target_ref q) (xq_action q) (xq_resource q) (xq_arguments q) = None"
    using preflight_Inr [OF ran(1)] by metis
  have pkg: "\<forall>p ref. w_packages w (tk_package_ref (row_token row)) = Some p \<longrightarrow> pk_target_ref p = Some ref \<longrightarrow>
      ref = [] \<or> ref = xq_target_ref q"
    using pre(5) by (auto simp: package_refusal_def split: if_splits)
  have env: "\<forall>d. gr_envelope_digest (tk_grants (row_token row)) = Some d \<longrightarrow>
      operation_envelope_digest (w_sha w) (tk_package_ref (row_token row)) (xq_target_ref q) (xq_action q) (xq_resource q) (xq_arguments q) = d"
    using pre(6) by (auto simp: envelope_refusal_def Let_def split: if_splits option.splits)
  have mid: "mr_mount_id row = xq_mount_id q" by (rule row_of_id [OF pre(1)])
  obtain tb1 tb2 where s: "mount_step\<^sup>*\<^sup>* tb tb1" "authorized_for row (xq_action q) (Some (xq_resource q)) ?op tb1"
    "begin_txn (later 40 w) (xq_mount_id q) ?op (tb_events tb1) tb1 = (tb2, Begun)" "mount_step\<^sup>*\<^sup>* tb2 tb'"
    using ran(3) unfolding started_by_def mid by blast
  have alive: "\<not> dead (xq_mount_id q) tb1" using dead_begin s(3) by (metis snd_conv)
  have cx: "consequence_context.truncate cx = context_of row q ?op"
    by (simp add: ran(6) with_permit_def context_of_def consequence_context.defs)
  have profile: "profile_allows (tk_grants (row_token row)) (xq_action q)"
    "profile_covers_resource (tk_grants (row_token row)) (Some (xq_resource q))"
    using ran(3) by (simp_all add: started_by_def row_token_def)
  have ad: "xq_action q \<in> ad_actions adapter" using pre(3,4) ran(2) by simp
  show ?thesis unfolding Let_def
    by (rule exI [of _ row], rule exI [of _ adapter], rule exI [of _ cx], rule exI [of _ r], rule exI [of _ tb1], rule exI [of _ tb2],
        intro conjI) (fact pre ad pkg env profile s alive ran cx)+
qed

subsection \<open>One dispatch per operation\<close>

lemma begun_not_authorized:
  assumes "tables_ok tb" "begin_txn w mid op (tb_events tb) tb = (tb1, Begun)" "mount_step tb tb1" "mount_step\<^sup>*\<^sup>* tb1 tb2"
    "latest_event op (tb_events tb2) = Some l"
  shows "ce_state l \<noteq> CS_AUTHORIZED"
proof
  assume l: "ce_state l = CS_AUTHORIZED"
  obtain l0 e where e: "latest_event op (tb_events tb) = Some l0" "follows l0 e" "tb1 = tb\<lparr>tb_events := tb_events tb @ [e]\<rparr>"
    using assms(2) by (cases rule: begin_txn_cases) auto
  have run: "mount_step\<^sup>*\<^sup>* tb tb2" using assms(3,4) by (rule converse_rtranclp_into_rtranclp)
  have ok1: "tables_ok tb1" using ms.run_ok [OF r_into_rtranclp [of mount_step, OF assms(3)] assms(1)] .
  have wf: "events_wf (tb_events tb2)" using ms.run_ok [OF run assms(1)] by (simp add: tables_ok_def)
  have in2: "e \<in> set (tb_events tb2)" using ms.run_events [OF assms(4) ok1] e(3) by auto
  have op: "ce_operation_id e = op" "1 \<le> ce_version e"
    using e(2) latest_event_SomeD(2) [OF e(1)] by (auto simp: follows_def same_operation_def)
  have "1 \<le> ce_version l" using latest_event_max [OF assms(5) in2 op(1)] op(2) by simp
  moreover have "ce_version l = 0"
    using wf latest_event_SomeD(1) [OF assms(5)] l by (auto simp: events_wf_def follows_def)
  ultimately show False by simp
qed

lemma started_by_twice:
  assumes "tables_ok a" "started_by w row q op a b" "mount_step\<^sup>*\<^sup>* b c" "started_by w' row' q' op c d"
  shows False
proof -
  obtain t1 t2 where s: "mount_step\<^sup>*\<^sup>* a t1" "begin_txn (later 40 w) (mr_mount_id row) op (tb_events t1) t1 = (t2, Begun)"
    "mount_step t1 t2" "mount_step\<^sup>*\<^sup>* t2 b" using assms(2) by (auto simp: started_by_def)
  obtain t3 t4 where s': "mount_step\<^sup>*\<^sup>* c t3" "begin_txn (later 40 w') (mr_mount_id row') op (tb_events t3) t3 = (t4, Begun)"
    using assms(4) by (auto simp: started_by_def)
  obtain l where l: "latest_event op (tb_events t3) = Some l" "ce_state l = CS_AUTHORIZED"
    using s'(2) by (cases rule: begin_txn_cases) auto
  have "tables_ok t1" by (rule ms.run_ok [OF s(1) assms(1)])
  moreover have "mount_step\<^sup>*\<^sup>* t2 t3" using s(4) assms(3) s'(1) by simp
  ultimately show False using begun_not_authorized [OF _ s(2,3) _ l(1)] l(2) by blast
qed

text \<open>
  C4. Exactly-once dispatch: once a request has dispatched an operation to its target, no later
  request with the same operation identifier, on any mount, by any caller, with any target and
  after any interleaving of other requests, dispatches; it leaves its target as it is and never
  answers that the action was allowed.
\<close>

theorem operation_dispatched_once:
  assumes ok: "tables_ok tb" and gaps: "gaps_ok sv" "gaps_ok sv'"
    and first: "execute_consequence w sv q revoked target tb = (tb1, revoked1, target1, ds, ans)" "ds \<noteq> []"
    and later: "mount_step\<^sup>*\<^sup>* tb1 tb2" "execute_consequence w' sv' q' revoked' target' tb2 = (tb3, revoked3, target3, ds', ans')"
    and op: "xq_operation_id q = Some op" "xq_operation_id q' = Some op" "op \<noteq> []"
  shows "ds' = [] \<and> target3 = target' \<and> (\<forall>reason st pl. ans' \<noteq> Inr (ALLOW, reason, st, pl))"
proof -
  have n: "or_str (xq_operation_id q) (w_uid w 0) = op" "or_str (xq_operation_id q') (w_uid w' 0) = op" using op by simp_all
  obtain row where s: "started_by w row q op tb tb1"
    using execute_cases [OF ok gaps(1) _ first(1)] first(2) n(1) op(3) by (metis (no_types, lifting))
  then have "mount_step\<^sup>*\<^sup>* tb tb1" unfolding started_by_def by (meson converse_rtranclp_into_rtranclp rtranclp_trans)
  then have ok2: "tables_ok tb2" using ms.run_ok [OF _ ok] later(1) by (meson rtranclp_trans)
  have o: "or_str (xq_operation_id q') (w_uid w' 0) \<noteq> []" using n(2) op(3) by simp
  show ?thesis
    using ok2 gaps(2) o later(2)
  proof (cases rule: execute_cases)
    case idle
    then show ?thesis by auto
  next
    case (ran row' adapter cx tb0 r)
    then show ?thesis using started_by_twice [OF ok s later(1)] n(2) by simp
  qed
qed

subsection \<open>An undisturbed request\<close>

definition alone :: "'t service \<Rightarrow> bool" where
  "alone sv \<longleftrightarrow> (\<forall>i tb. sv_gap sv i tb = tb)"

lemma alone_gaps: "alone sv \<Longrightarrow> gaps_ok sv"
  by (simp add: alone_def gaps_ok_def)

lemma alone_base: "alone sv \<Longrightarrow> rs_base (interfere sv i s) = rs_base s"
  by (simp add: alone_def)

lemma alone_same: "alone sv \<Longrightarrow> rs_cur s = rs_base s \<Longrightarrow> interfere sv i s = s"
  by (simp add: alone_def interfere_def Let_def)

lemma alone_audit: "alone sv \<Longrightarrow> audit_only (rs_base s) (rs_cur (interfere sv i s))"
  using interfere_simps(5) [of sv i s] by (simp add: alone_def)

lemma latest_event_snoc:
  "ce_operation_id n = op \<Longrightarrow> (\<And>e. e \<in> set evs \<Longrightarrow> ce_operation_id e = op \<Longrightarrow> ce_version e < ce_version n) \<Longrightarrow>
   latest_event op (evs @ [n]) = Some n"
  by (auto simp: latest_event_def intro!: latest_by_snoc)

lemma evaluate_allow_tables:
  assumes "tables_ok tb" "evaluate w revoked q tb = (tb', cur, Inr (ALLOW, reason, r, d))" "row_of (qa_mount_id q) tb = Some row"
  shows "tb_events tb' = tb_events tb" "row_of (qa_mount_id q) tb' = Some (row\<lparr>mr_nonce_consumed := True\<rparr>)"
    "\<not> mr_terminated row" "reason = ''allowed''"
proof -
  have "tb_events tb' = tb_events tb \<and> row_of (qa_mount_id q) tb' = Some (row\<lparr>mr_nonce_consumed := True\<rparr>) \<and>
      \<not> mr_terminated row \<and> reason = ''allowed''"
    using assms(2)
  proof (cases rule: evaluate_result)
    case (allowed row' b evs tb1 tb2 r' rc)
    then have row: "row' = row" using assms(3) by simp
    have g: "row_of (qa_mount_id q) tb2 = Some row" "tb_events tb2 = tb_events tb"
      using gate_same(1,4) [OF allowed(6,7)] assms(3) by simp_all
    obtain cs nxt where t: "tb' = (set_row (row\<lparr>mr_nonce_consumed := True\<rparr>) tb2)\<lparr>tb_consumed := cs,
        tb_receipts := tb_receipts tb2 @ [rc], tb_merkle_next := nxt\<rparr>"
      using allow_commit_Some [OF allowed(9)] row by metis
    have "row_of (mr_mount_id (row\<lparr>mr_nonce_consumed := True\<rparr>)) tb2 = Some row" using g(1) by (simp add: row_of_id)
    from row_of_set_row [OF this] g t row_refusal_None(1) [OF allowed(3)] row allowed(11) show ?thesis
      by (simp add: row_of_def row_of_id [OF g(1), unfolded row_of_def])
  next
    case refused
    then show ?thesis by blast
  qed
  then show "tb_events tb' = tb_events tb" "row_of (qa_mount_id q) tb' = Some (row\<lparr>mr_nonce_consumed := True\<rparr>)"
    "\<not> mr_terminated row" "reason = ''allowed''" by simp_all
qed

text \<open>Event identifiers drawn by a request are new.\<close>

definition fresh_ids :: "world \<Rightarrow> cevent list \<Rightarrow> bool" where
  "fresh_ids w evs \<longleftrightarrow> inj (w_uid w) \<and> (\<forall>i. \<forall>e \<in> set evs. ce_event_id e \<noteq> ''evt_'' @ w_uid w i)"

definition authorized_of :: "world \<Rightarrow> mount_row \<Rightarrow> string \<Rightarrow> cevent \<Rightarrow> bool" where
  "authorized_of w row op a \<longleftrightarrow> ce_event_id a = ''evt_'' @ w_uid w 30 \<and> ce_operation_id a = op \<and> ce_state a = CS_AUTHORIZED \<and>
     ce_version a = 0 \<and> ce_authority_epoch a = Some (mr_authority_epoch row) \<and> ce_mount_id a = mr_mount_id row"

lemma evaluator_alone:
  assumes sv: "alone sv" and ok: "tables_ok tb" and row: "row_of mid tb = Some row"
    and new: "\<forall>e \<in> set (tb_events tb). ce_operation_id e \<noteq> op" "fresh_ids w (tb_events tb)"
    and s: "rs_base s = tb" "rs_cur s = tb"
    and allow: "is_allow (snd (snd (evaluate (later 10 w) (rs_revoked s) (action_of (later 10 w) row action kw) tb)))"
  obtains s1 rid a where "cappo_evaluator (later 10 w) sv row action kw op ih s = (s1, Inr (ALLOW, ''allowed'', rid))"
    "rs_cur s1 = rs_base s1" "tb_events (rs_base s1) = tb_events tb @ [a]" "authorized_of w row op a"
    "row_of mid (rs_base s1) = Some (row\<lparr>mr_nonce_consumed := True\<rparr>)" "\<not> mr_terminated row"
    "rs_target s1 = rs_target s" "rs_dispatched s1 = rs_dispatched s" "rs_revoked s1 = rs_revoked s"
proof -
  let ?w = "later 10 w" and ?q = "action_of (later 10 w) row action kw"
  have mid: "qa_mount_id ?q = mid" "mr_mount_id row = mid" "mt_id (mr_mount row) = mid"
    using row_of_ok [OF ok row] row_of_id [OF row] by (simp_all add: action_of_def row_ok_def)
  obtain base cur ans where e: "evaluate ?w (rs_revoked s) ?q tb = (base, cur, ans)" by (metis prod_cases3)
  then obtain reason r d where ans: "ans = Inr (ALLOW, reason, r, d)" using allow by (cases ans rule: is_allow.cases) auto
  note e1 = e [unfolded ans]
  have row': "row_of (qa_mount_id ?q) tb = Some row" using row mid by simp
  note t = evaluate_allow_tables [OF ok e1 row', unfolded mid]
  obtain rc where "tb_receipts base = tb_receipts tb @ [rc]" "ar_token_id rc = qa_token_id ?q" "ar_mount_id rc = qa_mount_id ?q"
    "ar_decision rc = ''allow''" "ar_action rc = qa_action ?q" "ar_resource rc = qa_resource ?q"
    and rc: "Option.bind d dt_receipt_id = Some (ar_receipt_id rc)" "ar_receipt_id rc \<noteq> []"
    by (rule evaluate_allow_answer [OF ok e1])
  let ?s2 = "interfere sv 0 (commit mid base cur s)"
  let ?a = "authorized_event (later 20 ?w) row op ih (ar_receipt_id rc) action kw"
  have only: "audit_only base (rs_cur ?s2)" using alone_audit [OF sv, of "commit mid base cur s" 0] by simp
  have evs: "tb_events (rs_cur ?s2) = tb_events tb" using audit_onlyD(5) [OF only] t(1) by simp
  have a: "authorized_of w row op ?a" using mid by (simp add: authorized_of_def authorized_event_def later_def)
  have "\<not> event_conflict (tb_events tb) ?a"
    using new a by (auto simp: event_conflict_def authorized_of_def fresh_ids_def)
  then have az: "authorize_txn (later 20 ?w) row op ih (ar_receipt_id rc) action kw (rs_cur ?s2) =
      Some ((rs_cur ?s2)\<lparr>tb_events := tb_events tb @ [?a]\<rparr>)" by (simp add: authorize_txn_def evs)
  have none: "latest_event op (tb_events tb) = None" using new(1) by (simp add: latest_event_None)
  let ?tb = "(rs_cur ?s2)\<lparr>tb_events := tb_events tb @ [?a]\<rparr>"
  have truthy: "truthy (Some (ar_receipt_id rc))" using rc(2) by simp
  have run: "cappo_evaluator ?w sv row action kw op ih s =
      (?s2\<lparr>rs_base := ?tb, rs_cur := ?tb\<rparr>, Inr (ALLOW, ''allowed'', Some (ar_receipt_id rc)))"
    unfolding cappo_evaluator_def s(2) none option.case e1 prod.case sum.case Let_def rc(1) mid(3) option.sel az t(4)
    by (simp only: truthy refl simp_thms if_True)
  have "row_of mid ?tb = Some (row\<lparr>mr_nonce_consumed := True\<rparr>)" using audit_onlyD(8) [OF only] t(2) by (simp add: row_of_def)
  then show thesis using that [OF run _ _ a _ t(3)] by simp
qed

lemma begin_alone:
  assumes sv: "alone sv" and s: "rs_cur s = rs_base s" "tb_events (rs_base s) = evs @ [a]"
    and a: "authorized_of w row op a" and new: "\<forall>e \<in> set evs. ce_operation_id e \<noteq> op" "fresh_ids w evs"
    and row: "row_ok row" "row_of (mr_mount_id row) (rs_base s) = Some row'" "\<not> mr_terminated row'"
      "mr_authority_epoch row' = mr_authority_epoch row"
  obtains s' b where "begin_callback (later 40 w) sv row op s = (s', Owned True)" "rs_cur s' = rs_base s'"
    "rs_base s' = (rs_base s)\<lparr>tb_events := evs @ [a, b]\<rparr>" "ce_event_id b = ''evt_'' @ w_uid w 40" "ce_operation_id b = op"
    "ce_state b = CS_STARTED" "ce_version b = 1"
    "rs_target s' = rs_target s" "rs_dispatched s' = rs_dispatched s" "rs_revoked s' = rs_revoked s"
proof -
  let ?b = "started_event (later 40 w) op (Some row') a"
  have l: "latest_event op (evs @ [a]) = Some a" using a new(1) by (intro latest_event_snoc) (auto simp: authorized_of_def)
  have b: "ce_event_id ?b = ''evt_'' @ w_uid w 40" "ce_operation_id ?b = op" "ce_state ?b = CS_STARTED" "ce_version ?b = 1"
    using a by (simp_all add: started_event_def advance_event_def authorized_of_def later_def)
  have "w_uid w 30 \<noteq> w_uid w 40" using new(2) by (auto simp: fresh_ids_def dest: injD)
  then have "\<not> event_conflict (evs @ [a]) ?b"
    using b a new by (auto simp: event_conflict_def authorized_of_def fresh_ids_def)
  moreover have "begin_refusal (Some row') a = None" using row(3,4) a by (simp add: begin_refusal_def authorized_of_def)
  ultimately have "begin_consequence (later 40 w) (mr_mount row) (row_token row) op (rs_base s) =
      ((rs_base s)\<lparr>tb_events := evs @ [a, ?b]\<rparr>, Owned True)"
    using row(1,2) l a s(2) by (simp add: begin_consequence_def begin_txn_def Let_def row_ok_def authorized_of_def)
  then show thesis using that [OF _ _ _ b] alone_same [OF sv s(1)] s(1) by (simp add: begin_callback_def Let_def)
qed

lemma report_alone:
  assumes sv: "alone sv" and s: "rs_cur s = rs_base s" "tb_events (rs_base s) = evs @ [b]"
    and b: "ce_operation_id b = op" "ce_state b = CS_STARTED" "\<forall>e \<in> set evs. ce_operation_id e = op \<longrightarrow> ce_version e < ce_version b"
    and new: "\<forall>e \<in> set (evs @ [b]). ce_event_id e \<noteq> ''evt_'' @ w_uid w 50"
  obtains s' c where "report_callback (later 50 w) sv row op True None False ''callback_return'' s = s'" "rs_cur s' = rs_base s'"
    "audit_only ((rs_base s)\<lparr>tb_events := evs @ [b, c]\<rparr>) (rs_base s')" "ce_state c = CS_SUCCEEDED"
    "latest_event op (tb_events (rs_base s')) = Some c"
    "rs_target s' = rs_target s" "rs_dispatched s' = rs_dispatched s" "rs_revoked s' = rs_revoked s"
proof -
  let ?c = "outcome_event (later 50 w) op b CS_SUCCEEDED ''callback_return'' None"
  have l: "latest_event op (evs @ [b]) = Some b" using b by (intro latest_event_snoc) auto
  have c: "ce_event_id ?c = ''evt_'' @ w_uid w 50" "ce_operation_id ?c = op" "ce_state ?c = CS_SUCCEEDED" "ce_version ?c = Suc (ce_version b)"
    using b by (simp_all add: outcome_event_def advance_event_def later_def)
  have n: "\<not> event_conflict (evs @ [b]) ?c" using c new b(3) by (fastforce simp: event_conflict_def)
  have "report_txn (later 50 w) op True None False ''callback_return'' (evs @ [b]) (rs_base s) =
      ((rs_base s)\<lparr>tb_events := evs @ [b, ?c]\<rparr>, Reported CS_SUCCEEDED ''callback_return'' b)"
    using l n b(2) s(2) by (simp add: report_txn_def report_target_def terminal_states_def certainty_level_def)
  then have only: "audit_only ((rs_base s)\<lparr>tb_events := evs @ [b, ?c]\<rparr>)
      (completion_reporter (later 50 w) (mr_mount row) (row_token row) op True None False ''callback_return'' (rs_base s))"
    using s(2) anchor_outcome_audit_only by (simp add: completion_reporter_def)
  have "latest_event op ((evs @ [b]) @ [?c]) = Some ?c" using c b(3) less_Suc_eq by (intro latest_event_snoc) auto
  then show thesis
    using that [OF refl _ _ c(3)] only audit_onlyD(5) [OF only] alone_same [OF sv s(1)] s(1) by (simp add: report_callback_def Let_def)
qed

lemma revoke_lease_total: "\<exists>tb'. revoke_lease mid tb = Some tb'"
  by (auto simp: revoke_lease_def transition_state_def Let_def split: option.splits)

text \<open>Closing a request whose reason is no replay, with a ledger that answers: the mount ends.\<close>

lemma finish_ends:
  assumes "should_terminate (xq_mount_id q) reason (rs_cur s)" "\<And>i aq x. anchored (snd (w_anchor w i aq x))"
    "row_of (xq_mount_id q) (rs_cur s) = Some row'" "owned_by row' (xq_owner_principal q) (xq_owner_workspace q)" "\<not> mr_terminated row'"
  obtains s' pl where "finish w sv row q op dec reason result s = (s', Inr (dec, reason,
      map_option (\<lambda>l. cstate_value (ce_state l)) (latest_event op (tb_events (rs_cur s))), pl))"
    "pl_terminated pl" "pl_resulting_state pl = result" "dead (xq_mount_id q) (rs_base s')" "tb_events (rs_base s') = tb_events (rs_cur s)"
    "rs_target s' = rs_target s" "rs_dispatched s' = rs_dispatched s"
proof -
  let ?row = "row'\<lparr>mr_terminated := True, mr_authority_epoch := or_int (mr_authority_epoch row') 1 + 1\<rparr>"
  obtain tb1 a where an: "call_anchor w 0 (decision_request ''terminate'' ''execution'' ALLOW (unmount_value TASK_COMPLETE)
      (Some (mr_mount row')) (Some (row_token row'))) (rs_cur s) = (tb1, a)" by fastforce
  have "snd (w_anchor w 0 (decision_request ''terminate'' ''execution'' ALLOW (unmount_value TASK_COMPLETE)
      (Some (mr_mount row')) (Some (row_token row'))) (tb_audit (rs_cur s))) = a"
    using arg_cong [OF an, of snd] by (simp add: call_anchor_def split_beta)
  then have ok: "anchored a" using assms(2) by metis
  obtain tb' where rv: "revoke_lease (xq_mount_id q) (set_row ?row tb1) = Some tb'" using revoke_lease_total by blast
  have t: "terminate_txn w (xq_mount_id q) TASK_COMPLETE (xq_owner_principal q) (xq_owner_workspace q) (rs_revoked s)
      (rs_base s) (rs_cur s) = (tb', mark_mount_revoked (xq_mount_id q) (rs_revoked s), Term_Now a)"
    using terminate_txn_row [OF assms(3,4,5) an] ok rv by simp
  have "dead (xq_mount_id q) tb'"
    by (rule terminate_now_row [OF terminate_txn_committed [OF t]]) (simp add: dead_def)
  moreover have "tb_events tb' = tb_events (rs_cur s)"
    using rv audit_onlyD(5) [OF call_anchor_audit_only [OF an]]
    by (auto simp: revoke_lease_def split: option.splits if_splits sum.splits)
  moreover have "\<exists>pl. finish w sv row q op dec reason result s =
      (commit (xq_mount_id q) tb' tb' (s\<lparr>rs_revoked := mark_mount_revoked (xq_mount_id q) (rs_revoked s)\<rparr>), Inr (dec, reason,
        map_option (\<lambda>l. cstate_value (ce_state l)) (latest_event op (tb_events (rs_cur s))), pl)) \<and>
      pl_terminated pl \<and> pl_resulting_state pl = result"
    using assms(1) t by (simp add: finish_def Let_def terminate_def terminate_with_in_flight_def)
  ultimately show thesis using that by fastforce
qed

text \<open>What an undisturbed request needs to complete.\<close>

definition may_proceed :: "world \<Rightarrow> 't service \<Rightarrow> 't adapter \<Rightarrow> mount_row \<Rightarrow> consequence_request \<Rightarrow> string \<Rightarrow> string set \<Rightarrow> tables \<Rightarrow> bool" where
  "may_proceed w sv adapter row q op revoked tb \<longleftrightarrow>
     preflight w sv q tb = Inr row \<and> sv_targets sv (xq_target_ref q) = Some adapter \<and>
     xq_operation_id q = Some op \<and> op \<noteq> [] \<and> (\<forall>e \<in> set (tb_events tb). ce_operation_id e \<noteq> op) \<and> fresh_ids w (tb_events tb) \<and>
     (\<exists>kw. local_eval (w_sha w) (py_str w) (\<lambda>i. w_uid w (i + 1)) (\<lambda>i. w_clk w (i + 1)) revoked (xq_action q)
         (passthrough q) (row_binding row) = (row_binding row, Inr kw) \<and>
       is_allow (snd (snd (evaluate (later 10 w) revoked (action_of (later 10 w) row (xq_action q) kw) tb))))"

lemma consequence_success:
  assumes "local_eval sha ps uid clk revoked action kwargs b = (b, Inr kw)" "op \<noteq> []"
    "ev action kw op (consequence_intent sha ps (tk_mount_id (bd_token b)) (tk_execution_id (bd_token b)) action kw) s =
       (s1, Inr (ALLOW, reason, rid))" "bg op s1 = (s2, Owned True)" "fn kw s2 = (s3, Returned v)"
  shows "\<exists>b'. consequence sha ps uid clk revoked \<lparr>cb_evaluator = Some ev, cb_begin = Some bg, cb_reporter = Some rp\<rparr>
      action fn (Some op) kwargs b s = (b', rp op True None False ''callback_return'' s3, Returned v)"
  using assms by (simp add: consequence_def Let_def run_effect_def)

text \<open>The four callbacks in a row, for an operation the table does not know.\<close>

lemma callbacks_succeed:
  assumes sv: "alone sv" and ok: "tables_ok tb" and row: "row_of mid tb = Some row"
    and new: "\<forall>e \<in> set (tb_events tb). ce_operation_id e \<noteq> op" "fresh_ids w (tb_events tb)"
    and s: "rs_base s = tb" "rs_cur s = tb" "rs_dispatched s = []"
    and allow: "is_allow (snd (snd (evaluate (later 10 w) (rs_revoked s) (action_of (later 10 w) row (xq_action q) kw) tb)))"
    and target: "\<And>cx. \<exists>t v. ad_dispatch adapter cx (rs_target s) = (t, Returned v)"
  obtains s1 rid s2 s3 s4 v cx e where
    "cappo_evaluator (later 10 w) sv row (xq_action q) kw op ih s = (s1, Inr (ALLOW, ''allowed'', rid))"
    "begin_callback (later 40 w) sv row op s1 = (s2, Owned True)" "invoke_effect w sv adapter row q op kw s2 = (s3, Returned v)"
    "report_callback (later 50 w) sv row op True None False ''callback_return'' s3 = s4" "rs_cur s4 = rs_base s4" "rs_dispatched s4 = [cx]"
    "ad_dispatch adapter cx (rs_target s) = (rs_target s4, Returned v)" "latest_event op (tb_events (rs_base s4)) = Some e"
    "ce_state e = CS_SUCCEEDED" "row_of mid (rs_base s4) = Some (row\<lparr>mr_nonce_consumed := True\<rparr>)" "\<not> mr_terminated row"
proof -
  let ?row = "row\<lparr>mr_nonce_consumed := True\<rparr>"
  have rok: "row_ok row" "mr_mount_id row = mid" using row_of_ok [OF ok row] row_of_id [OF row] by simp_all
  obtain s1 rid a where s1: "cappo_evaluator (later 10 w) sv row (xq_action q) kw op ih s = (s1, Inr (ALLOW, ''allowed'', rid))"
    "rs_cur s1 = rs_base s1" "tb_events (rs_base s1) = tb_events tb @ [a]" "authorized_of w row op a"
    "row_of mid (rs_base s1) = Some ?row" "\<not> mr_terminated row"
    "rs_target s1 = rs_target s" "rs_dispatched s1 = rs_dispatched s" "rs_revoked s1 = rs_revoked s"
    by (rule evaluator_alone [OF sv ok row new s(1,2) allow])
  have "row_of (mr_mount_id row) (rs_base s1) = Some ?row" "\<not> mr_terminated ?row" "mr_authority_epoch ?row = mr_authority_epoch row"
    using s1(5,6) rok(2) by simp_all
  then obtain s2 b where s2: "begin_callback (later 40 w) sv row op s1 = (s2, Owned True)" "rs_cur s2 = rs_base s2"
    "rs_base s2 = (rs_base s1)\<lparr>tb_events := tb_events tb @ [a, b]\<rparr>" "ce_event_id b = ''evt_'' @ w_uid w 40" "ce_operation_id b = op"
    "ce_state b = CS_STARTED" "ce_version b = 1"
    "rs_target s2 = rs_target s1" "rs_dispatched s2 = rs_dispatched s1" "rs_revoked s2 = rs_revoked s1"
    by (rule begin_alone [OF sv s1(2,3,4) new rok(1)])
  define cx where "cx = with_permit w (context_of row q op) (mt_id (mr_mount row)) (xq_target_ref q) (rs_base s2)"
  obtain t v where d: "ad_dispatch adapter cx (rs_target s) = (t, Returned v)" using target by blast
  let ?s3 = "s2\<lparr>rs_target := t, rs_dispatched := [cx]\<rparr>"
  have s3: "invoke_effect w sv adapter row q op kw s2 = (?s3, Returned v)"
    using d s(3) s1(7,8) s2(2,8,9) alone_same [OF sv s2(2)] by (simp add: invoke_effect_def Let_def cx_def)
  have ids: "w_uid w 30 \<noteq> w_uid w 50" "w_uid w 40 \<noteq> w_uid w 50" using new(2) by (auto simp: fresh_ids_def dest: injD)
  have f: "rs_cur ?s3 = rs_base ?s3" "tb_events (rs_base ?s3) = (tb_events tb @ [a]) @ [b]" using s2(2,3) by simp_all
  have h: "\<forall>e \<in> set (tb_events tb @ [a]). ce_operation_id e = op \<longrightarrow> ce_version e < ce_version b"
    "\<forall>e \<in> set ((tb_events tb @ [a]) @ [b]). ce_event_id e \<noteq> ''evt_'' @ w_uid w 50"
    using new s1(4) s2(4,7) ids by (auto simp: authorized_of_def fresh_ids_def)
  obtain s4 c where s4: "report_callback (later 50 w) sv row op True None False ''callback_return'' ?s3 = s4" "rs_cur s4 = rs_base s4"
    "audit_only ((rs_base ?s3)\<lparr>tb_events := (tb_events tb @ [a]) @ [b, c]\<rparr>) (rs_base s4)" "ce_state c = CS_SUCCEEDED"
    "latest_event op (tb_events (rs_base s4)) = Some c"
    "rs_target s4 = rs_target ?s3" "rs_dispatched s4 = rs_dispatched ?s3" "rs_revoked s4 = rs_revoked ?s3"
    by (rule report_alone [OF sv f s2(5,6) h])
  have "row_of mid (rs_base s4) = Some ?row" using audit_onlyD(8) [OF s4(3)] s2(3) s1(5) by (simp add: row_of_def)
  then show thesis using that [OF s1(1) s2(1) s3 s4(1,2) _ _ s4(5,4) _ s1(6)] s4(6,7) d by simp
qed

lemma governed_success:
  assumes sv: "alone sv" and ok: "tables_ok tb" and go: "may_proceed w sv adapter row q op revoked tb"
    and target: "\<And>cx. \<exists>t v. ad_dispatch adapter cx target = (t, Returned v)"
  obtains s' cx v e where "governed_call w sv adapter row q op \<lparr>rs_base = tb, rs_cur = tb, rs_row = row, rs_revoked = revoked,
      rs_target = target, rs_dispatched = []\<rparr> = (s', Returned v)"
    "audit_only (rs_base s') (rs_cur s')" "rs_dispatched s' = [cx]" "ad_dispatch adapter cx target = (rs_target s', Returned v)"
    "latest_event op (tb_events (rs_base s')) = Some e" "ce_state e = CS_SUCCEEDED"
    "row_of (xq_mount_id q) (rs_base s') = Some (row\<lparr>mr_nonce_consumed := True\<rparr>)" "\<not> mr_terminated row"
proof -
  let ?s = "\<lparr>rs_base = tb, rs_cur = tb, rs_row = row, rs_revoked = revoked, rs_target = target, rs_dispatched = []\<rparr>"
  obtain kw where g: "preflight w sv q tb = Inr row" "op \<noteq> []" "\<forall>e \<in> set (tb_events tb). ce_operation_id e \<noteq> op"
    "fresh_ids w (tb_events tb)" "local_eval (w_sha w) (py_str w) (\<lambda>i. w_uid w (i + 1)) (\<lambda>i. w_clk w (i + 1)) revoked
       (xq_action q) (passthrough q) (row_binding row) = (row_binding row, Inr kw)"
    "is_allow (snd (snd (evaluate (later 10 w) revoked (action_of (later 10 w) row (xq_action q) kw) tb)))"
    using go by (auto simp: may_proceed_def)
  have row: "row_of (xq_mount_id q) tb = Some row" using g(1) by (auto simp: preflight_def split: option.splits if_splits)
  let ?ih = "consequence_intent (w_sha w) (py_str w) (tk_mount_id (bd_token (row_binding row)))
    (tk_execution_id (bd_token (row_binding row))) (xq_action q) kw"
  have "rs_base ?s = tb" "rs_cur ?s = tb" "rs_dispatched ?s = []" "\<And>cx. \<exists>t v. ad_dispatch adapter cx (rs_target ?s) = (t, Returned v)"
    "is_allow (snd (snd (evaluate (later 10 w) (rs_revoked ?s) (action_of (later 10 w) row (xq_action q) kw) tb)))"
    using g(6) target by simp_all
  note pre = this
  obtain s1 rid s2 s3 s4 v cx e where c:
    "cappo_evaluator (later 10 w) sv row (xq_action q) kw op ?ih ?s = (s1, Inr (ALLOW, ''allowed'', rid))"
    "begin_callback (later 40 w) sv row op s1 = (s2, Owned True)" "invoke_effect w sv adapter row q op kw s2 = (s3, Returned v)"
    "report_callback (later 50 w) sv row op True None False ''callback_return'' s3 = s4" "rs_cur s4 = rs_base s4" "rs_dispatched s4 = [cx]"
    "ad_dispatch adapter cx (rs_target ?s) = (rs_target s4, Returned v)" "latest_event op (tb_events (rs_base s4)) = Some e"
    "ce_state e = CS_SUCCEEDED" "row_of (xq_mount_id q) (rs_base s4) = Some (row\<lparr>mr_nonce_consumed := True\<rparr>)" "\<not> mr_terminated row"
    by (rule callbacks_succeed [OF sv ok row g(3,4) pre(1-3) pre(5,4)])
  obtain bd where run: "governed_call w sv adapter row q op ?s =
      (s4\<lparr>rs_cur := sink_new (later 60 w) 0 row (row_binding row) bd (rs_cur s4)\<rparr>, Returned v)"
    using consequence_success [where ev = "cappo_evaluator (later 10 w) sv row" and bg = "begin_callback (later 40 w) sv row"
      and fn = "invoke_effect w sv adapter row q op" and rp = "report_callback (later 50 w) sv row", OF g(5,2) c(1-3)] c(4)
    by (fastforce simp: governed_call_def)
  show thesis using that [OF run _ _ _ _ c(9) _ c(11)] c(5-8,10) sink_new_audit_only by simp
qed

lemma undisturbed_completes:
  assumes "tables_ok tb" "alone sv" "may_proceed w sv adapter row q op revoked tb"
    and "\<And>cx. \<exists>t v. ad_dispatch adapter cx target = (t, Returned v)" "\<And>i aq x. anchored (snd (w_anchor w i aq x))"
  shows "\<exists>tb' revoked' target' cx v pl e.
    execute_consequence w sv q revoked target tb = (tb', revoked', target', [cx], Inr (ALLOW, ''allowed'', Some ''succeeded'', pl)) \<and>
    ad_dispatch adapter cx target = (target', Returned v) \<and> pl_resulting_state pl = Some v \<and> pl_terminated pl \<and>
    latest_event op (tb_events tb') = Some e \<and> ce_state e = CS_SUCCEEDED \<and> dead (xq_mount_id q) tb'"
proof -
  let ?s = "\<lparr>rs_base = tb, rs_cur = tb, rs_row = row, rs_revoked = revoked, rs_target = target, rs_dispatched = []\<rparr>"
  let ?row = "row\<lparr>mr_nonce_consumed := True\<rparr>"
  obtain s1 cx v e where g: "governed_call w sv adapter row q op ?s = (s1, Returned v)"
    "audit_only (rs_base s1) (rs_cur s1)" "rs_dispatched s1 = [cx]" "ad_dispatch adapter cx target = (rs_target s1, Returned v)"
    "latest_event op (tb_events (rs_base s1)) = Some e" "ce_state e = CS_SUCCEEDED"
    "row_of (xq_mount_id q) (rs_base s1) = Some ?row" "\<not> mr_terminated row"
    by (rule governed_success [OF assms(2,1,3,4)])
  have m: "preflight w sv q tb = Inr row" "sv_targets sv (xq_target_ref q) = Some adapter" "xq_operation_id q = Some op" "op \<noteq> []"
    "latest_event op (tb_events tb) = None" using assms(3) by (simp_all add: may_proceed_def latest_event_None)
  have own: "owned_by ?row (xq_owner_principal q) (xq_owner_workspace q)"
    using m(1) by (auto simp: preflight_def owned_by_def split: option.splits if_splits)
  let ?s2 = "interfere sv 4 s1"
  have only: "audit_only (rs_base s1) (rs_cur ?s2)" by (rule alone_audit [OF assms(2)])
  have cur: "latest_event op (tb_events (rs_cur ?s2)) = Some e" "row_of (xq_mount_id q) (rs_cur ?s2) = Some ?row"
    using audit_onlyD(5,8) [OF only] g(5,7) by simp_all
  have "should_terminate (xq_mount_id q) ''allowed'' (rs_cur ?s2)" by (simp add: should_terminate_def)
  moreover have "\<And>i aq x. anchored (snd (w_anchor (later 70 w) i aq x))" using assms(5) by (simp add: later_def)
  moreover have "\<not> mr_terminated ?row" using g(8) by simp
  ultimately obtain s3 pl where f: "finish (later 70 w) sv row q op ALLOW ''allowed'' (Some v) ?s2 = (s3, Inr (ALLOW, ''allowed'',
      map_option (\<lambda>l. cstate_value (ce_state l)) (latest_event op (tb_events (rs_cur ?s2))), pl))"
    "pl_terminated pl" "pl_resulting_state pl = Some v" "dead (xq_mount_id q) (rs_base s3)"
    "tb_events (rs_base s3) = tb_events (rs_cur ?s2)" "rs_target s3 = rs_target ?s2" "rs_dispatched s3 = rs_dispatched ?s2"
    by (rule finish_ends [OF _ _ cur(2) own])
  have settle: "settle (later 70 w) sv row q op (Returned v) ?s2 = (s3, Inr (ALLOW, ''allowed'', Some ''succeeded'', pl))"
    using f(1) cur(1) g(6) by (simp add: settle_def call_outcome_def)
  have "execute_consequence w sv q revoked target tb =
      (rs_base s3, rs_revoked s3, rs_target s3, rs_dispatched s3, Inr (ALLOW, ''allowed'', Some ''succeeded'', pl))"
    using m g(1) settle by (simp add: execute_consequence_def Let_def resolve_target_def)
  then show ?thesis using f g(3,4,6) cur(1) by simp
qed

subsection \<open>A request that runs\<close>

definition sample_adapter :: "nat adapter" where
  "sample_adapter = \<lparr>ad_actions = {''draft.write''}, ad_project_isolated = False, ad_dispatch = \<lambda>cx n. (n + 1, Returned (JNum (int n)))\<rparr>"

definition sample_service :: "nat service" where
  "sample_service = \<lparr>sv_targets = [''counter'' \<mapsto> sample_adapter], sv_pgl_agent_id = None, sv_gap = \<lambda>_ tb. tb\<rparr>"

definition sample_consequence :: consequence_request where
  "sample_consequence = \<lparr>xq_mount_id = ''mnt_a'', xq_action = ''draft.write'', xq_token_id = ''tok_c'', xq_nonce = tk_nonce sample_token,
     xq_owner_principal = ''alice'', xq_owner_workspace = Some ''w'', xq_approval_token = None, xq_suppression_evidence = None,
     xq_suppression_confirmed = False, xq_target_ref = ''counter'', xq_resource = ''acme'', xq_arguments = [],
     xq_operation_id = Some ''op'', xq_spiffe_fields = None, xq_substrate_id = None, xq_boot_instance_id = None,
     xq_runtime_key_thumbprint = None, xq_state_root = None, xq_authority_epoch = None\<rparr>"

lemma sample_alone: "alone sample_service" "gaps_ok sample_service"
  by (simp_all add: alone_def gaps_ok_def sample_service_def)

lemma sample_preflight: "preflight sample_world sample_service sample_consequence sample_tables = Inr sample_row"
proof -
  have r: "row_of ''mnt_a'' sample_tables = Some sample_row" "owned_by sample_row ''alice'' (Some ''w'')"
    by (rule sample_row_of sample_owned)+
  have "record_refusal sample_world sample_service sample_row sample_consequence sample_tables = None"
    by (simp add: record_refusal_def substrate_refusal_def epoch_refusal_def effective_epoch_def package_refusal_def envelope_refusal_def
        target_refusal_def resolve_target_def SANDBOX_PROJECT_def valid_resource_def is_alnum_def lease_of_def or_int_def row_token_def
        sample_row_def sample_consequence_def sample_mount_value_def sample_token_def sample_tables_def sample_world_def
        sample_service_def sample_adapter_def sample_package_def sample_scope_def)
  with r show ?thesis by (simp add: preflight_def sample_consequence_def)
qed

lemma sample_local_eval:
  "local_eval (w_sha sample_world) (py_str sample_world) (\<lambda>i. w_uid sample_world (i + 1)) (\<lambda>i. w_clk sample_world (i + 1)) {}
     (xq_action sample_consequence) (passthrough sample_consequence) (row_binding sample_row) =
   (row_binding sample_row, Inr (drop_keys [''approval_token'', ''suppression_confirmed''] (passthrough sample_consequence)))"
  by (simp add: local_eval_def Let_def check_live_def row_binding_def new_binding_def sample_row_def sample_consequence_def
      sample_token_def profile_allows_def is_mount_revoked_def row_token_def profile_covers_resource_def sample_world_def
      passthrough_def kw_resource_def py_str_def)

lemma sample_evaluates:
  "is_allow (snd (snd (evaluate (later 10 sample_world) {} (action_of (later 10 sample_world) sample_row ''draft.write''
     (drop_keys [''approval_token'', ''suppression_confirmed''] (passthrough sample_consequence))) sample_tables)))"
proof -
  let ?w = "later 10 sample_world"
  let ?q = "action_of ?w sample_row ''draft.write'' (drop_keys [''approval_token'', ''suppression_confirmed''] (passthrough sample_consequence))"
  let ?r = "\<lparr>an_status = ''confirmed'', an_anchor_id = Some ''action_decision'', an_detail = Some ''local-confirmed'',
     an_external_ref = None\<rparr>"
  have q: "qa_mount_id ?q = ''mnt_a''" "qa_action ?q = ''draft.write''" "qa_resource ?q = Some ''acme''" "qa_token_id ?q = ''tok_c''"
    "qa_nonce ?q = tk_nonce sample_token" "qa_owner_principal ?q = ''alice''" "qa_owner_workspace ?q = Some ''w''"
    by (simp_all add: action_of_def passthrough_resource sample_row_def sample_mount_value_def sample_token_def row_token_def
        sample_consequence_def)
  have l: "lease_of m sample_tables = None" for m by (simp add: lease_of_def sample_tables_def)
  have w: "w_clk ?w = (\<lambda>_. 0)" "w_offline ?w = False"
    "w_anchor ?w i aq x = (x, \<lparr>an_status = ''confirmed'', an_anchor_id = Some (aq_event_type aq), an_detail = Some ''local-confirmed'',
       an_external_ref = None\<rparr>)" for i aq x
    by (simp_all add: later_def sample_world_def local_confirmed_anchor_def)
  have "row_of (qa_mount_id ?q) sample_tables = Some sample_row" "owned_by sample_row (qa_owner_principal ?q) (qa_owner_workspace ?q)"
    using sample_row_of sample_owned q by simp_all
  moreover have "row_refusal ?w sample_row ?q sample_tables = None" "lease_refusal ?w sample_row ?q sample_tables = None"
    using q l w by (simp_all add: row_refusal_def lease_refusal_def sample_row_def sample_tables_def)
  moreover have "profile_decision ?w {} sample_row ?q sample_tables = (row_binding sample_row, Inr [])"
    using q w by (simp add: profile_decision_def Let_def check_live_def row_binding_def new_binding_def sample_row_def
        sample_token_def profile_allows_def is_mount_revoked_def row_token_def profile_covers_resource_def gate_evidence_def)
  moreover have "lease_gate ?w ?q (Inr []) (sink_new ?w 13 sample_row (row_binding sample_row) (row_binding sample_row) sample_tables) =
      (sample_tables, Inr [])" using l by (simp add: lease_gate_def sink_new_def)
  moreover have "call_anchor ?w 0 (decision_request ''action_decision'' (qa_action ?q) ALLOW ''allowed''
      (Some (mr_mount sample_row)) (Some (row_token sample_row))) sample_tables = (sample_tables, ?r)"
    by (simp add: call_anchor_def w decision_request_def sample_tables_def)
  moreover have "anchored ?r" by (simp add: anchored_def)
  moreover have "\<exists>tb' rc. allow_commit ?w sample_row ?q [] ?r sample_tables = Some (tb', rc)"
    by (rule allow_commit_total [where cs = "[]" and n = 0]) (simp_all add: sample_tables_def)
  ultimately obtain tb' cur d where "evaluate ?w {} ?q sample_tables = (tb', cur, Inr (ALLOW, ''allowed'', ?r, d))"
    using evaluate_allows by metis
  then show ?thesis by simp
qed

lemma sample_proceeds: "may_proceed sample_world sample_service sample_adapter sample_row sample_consequence ''op'' {} sample_tables"
proof -
  have "fresh_ids sample_world (tb_events sample_tables)"
    by (auto simp: fresh_ids_def sample_tables_def sample_world_def sample_uid_def inj_def replicate_eq_replicate)
  moreover have "sv_targets sample_service (xq_target_ref sample_consequence) = Some sample_adapter"
    "xq_operation_id sample_consequence = Some ''op''" "xq_action sample_consequence = ''draft.write''" "tb_events sample_tables = []"
    by (simp_all add: sample_service_def sample_consequence_def sample_tables_def)
  ultimately show ?thesis
    using sample_preflight sample_local_eval sample_evaluates unfolding may_proceed_def by auto
qed

lemma sample_ledger: "anchored (snd (w_anchor sample_world i aq x))"
  by (simp add: sample_world_def local_confirmed_anchor_def anchored_def)

lemma sample_answers: "\<exists>t v. ad_dispatch sample_adapter cx n = (t, Returned v)"
  by (simp add: sample_adapter_def)

lemma sample_execute:
  "\<exists>tb' revoked' cx st pl. execute_consequence sample_world sample_service sample_consequence {} 0 sample_tables =
     (tb', revoked', 1, [cx], Inr (ALLOW, ''allowed'', st, pl))"
  using undisturbed_completes [OF sample_tables_ok sample_alone(1) sample_proceeds sample_answers sample_ledger, of 0]
  by (force simp: sample_adapter_def)

text \<open>
  C14. An undisturbed request completes. If preflight accepts it for a new operation, the binding's own
  checks and the evaluation allow it, its event identifiers are new, the target answers and the ledger
  anchors, then \<open>execute_consequence\<close> dispatches exactly once and returns the target's answer as
  allowed and \<open>succeeded\<close>; the operation's latest event says \<open>SUCCEEDED\<close>, and the mount has ended.
\<close>

theorem request_completes:
  assumes "tables_ok tb" "alone sv" "may_proceed w sv adapter row q op revoked tb"
    and "\<And>cx. \<exists>t v. ad_dispatch adapter cx target = (t, Returned v)" "\<And>i aq x. anchored (snd (w_anchor w i aq x))"
  shows "\<exists>tb' revoked' target' cx v pl e.
    execute_consequence w sv q revoked target tb = (tb', revoked', target', [cx], Inr (ALLOW, ''allowed'', Some ''succeeded'', pl)) \<and>
    ad_dispatch adapter cx target = (target', Returned v) \<and> pl_resulting_state pl = Some v \<and> pl_terminated pl \<and>
    latest_event op (tb_events tb') = Some e \<and> ce_state e = CS_SUCCEEDED \<and> dead (xq_mount_id q) tb'"
  using assms by (rule undisturbed_completes)

theorem request_completes_witness:
  "\<exists>tb' revoked' target' cx pl. execute_consequence sample_world sample_service sample_consequence {} 0 sample_tables =
     (tb', revoked', target', [cx], Inr (ALLOW, ''allowed'', Some ''succeeded'', pl)) \<and> pl_terminated pl \<and> dead ''mnt_a'' tb'"
  using request_completes [OF sample_tables_ok sample_alone(1) sample_proceeds sample_answers sample_ledger, of 0]
  by (fastforce simp: sample_consequence_def)

theorem dispatch_authorized_witness:
  "\<exists>tb1. mount_step\<^sup>*\<^sup>* sample_tables tb1 \<and> authorized_for sample_row ''draft.write'' (Some ''acme'') ''op'' tb1"
proof -
  obtain tb' revoked' cx st pl where e: "execute_consequence sample_world sample_service sample_consequence {} 0 sample_tables =
      (tb', revoked', 1, [cx], Inr (ALLOW, ''allowed'', st, pl))" using sample_execute by blast
  have "or_str (xq_operation_id sample_consequence) (w_uid sample_world 0) = ''op''" "xq_action sample_consequence = ''draft.write''"
    "xq_resource sample_consequence = ''acme''" "row_of (xq_mount_id sample_consequence) sample_tables = Some sample_row"
    using sample_row_of by (simp_all add: sample_consequence_def)
  then show ?thesis
    using dispatch_authorized [OF sample_tables_ok sample_alone(2) _ e] unfolding Let_def by fastforce
qed

theorem operation_dispatched_once_witness:
  "\<exists>tb1 revoked1 cx ans. execute_consequence sample_world sample_service sample_consequence {} 0 sample_tables =
       (tb1, revoked1, 1, [cx], ans) \<and>
     fst (snd (snd (snd (execute_consequence sample_world sample_service sample_consequence revoked1 1 tb1)))) = []"
proof -
  obtain tb' revoked' cx st pl where e: "execute_consequence sample_world sample_service sample_consequence {} 0 sample_tables =
      (tb', revoked', 1, [cx], Inr (ALLOW, ''allowed'', st, pl))" using sample_execute by blast
  obtain tb2 rv2 t2 ds2 ans2 where e2: "execute_consequence sample_world sample_service sample_consequence revoked' 1 tb' =
      (tb2, rv2, t2, ds2, ans2)" by (metis prod_cases5)
  have "xq_operation_id sample_consequence = Some ''op''" by (simp add: sample_consequence_def)
  then have "ds2 = []"
    using operation_dispatched_once [OF sample_tables_ok sample_alone(2) sample_alone(2) e _ rtranclp.rtrancl_refl e2] by simp
  then show ?thesis using e e2 by simp
qed

subsection \<open>A replay ends the mount\<close>

lemma evaluate_replay:
  assumes "row_of (qa_mount_id q) tb = Some row" "owned_by row (qa_owner_principal q) (qa_owner_workspace q)" "\<not> mr_terminated row"
    "w_clk w 0 < mr_expires_at row" "mr_nonce_consumed row" "qa_token_id q = mr_token_id row" "qa_nonce q = mr_token_nonce row"
  obtains tb' r where "evaluate w revoked q tb = (tb', tb', Inr (DENY, ''token_replay'', r, None))" "audit_only tb tb'"
proof -
  let ?aq = "decision_request ''action_decision'' (qa_action q) DENY ''token_replay'' (Some (mr_mount row)) (Some (row_token row))"
  have r: "row_refusal w row q tb = Some ''token_replay''" using assms by (simp add: row_refusal_def)
  obtain tb' a where c: "call_anchor w 0 ?aq tb = (tb', a)" by fastforce
  have "evaluate w revoked q tb = (tb', tb', Inr (DENY, ''token_replay'', a, None))"
    using assms(1,2) r c by (simp add: evaluate_def Let_def)
  then show thesis using that call_anchor_audit_only [OF c] by blast
qed

lemma consequence_refusal:
  assumes "local_eval sha ps uid clk revoked action kwargs b = (b, Inr kw)" "op \<noteq> []" "dec \<noteq> ALLOW"
    "ev action kw op (consequence_intent sha ps (tk_mount_id (bd_token b)) (tk_execution_id (bd_token b)) action kw) s =
       (s1, Inr (dec, reason, rid))"
  shows "\<exists>b'. consequence sha ps uid clk revoked \<lparr>cb_evaluator = Some ev, cb_begin = Some bg, cb_reporter = Some rp\<rparr>
      action fn (Some op) kwargs b s = (b', s1, Raised (policy_exc (PolicyError reason)))"
  using assms by (simp add: consequence_def Let_def)

text \<open>
  C29. A replayed token ends the mount under the feet of the operation that used it. While a mount is
  alive and its token consumed, a further request with the same token and a new operation
  identifier that passes preflight is denied with \<open>token_replay\<close>, and the closing step of the
  denied request terminates the mount although operations of it are in flight: they all stay
  in flight, and none of those only authorized can start any more. The exception \<open>should_terminate\<close>
  makes for this situation tests for the reason \<open>nonce_replayed\<close>, which no code produces.
\<close>

theorem replay_ends_mount:
  assumes ok: "tables_ok tb" and sv: "alone sv" and pre: "preflight w sv q tb = Inr row"
    and op: "xq_operation_id q = Some op" "op \<noteq> []" "latest_event op (tb_events tb) = None"
    and live: "\<not> mr_terminated row" "w_clk w 10 < mr_expires_at row" "mr_nonce_consumed row"
    and owner: "owned_by row (mr_owner_principal row) (Some (mr_owner_workspace row))"
    and local: "local_eval (w_sha w) (py_str w) (\<lambda>i. w_uid w (i + 1)) (\<lambda>i. w_clk w (i + 1)) revoked (xq_action q)
      (passthrough q) (row_binding row) = (row_binding row, Inr kw)"
    and ledger: "\<And>i aq x. anchored (snd (w_anchor w i aq x))"
  shows "\<exists>tb' revoked' pl. execute_consequence w sv q revoked target tb =
      (tb', revoked', target, [], Inr (DENY, ''token_replay'', None, pl)) \<and> pl_terminated pl \<and>
    in_flight_operations (xq_mount_id q) (tb_events tb') = in_flight_operations (xq_mount_id q) (tb_events tb) \<and>
    (\<forall>w' op' seen. snd (begin_txn w' (xq_mount_id q) op' seen tb') \<noteq> Begun)"
proof -
  let ?s = "\<lparr>rs_base = tb, rs_cur = tb, rs_row = row, rs_revoked = revoked, rs_target = target, rs_dispatched = []\<rparr>"
  let ?w = "later 10 w" and ?mid = "xq_mount_id q"
  obtain adapter where p: "row_of ?mid tb = Some row" "owned_by row (xq_owner_principal q) (xq_owner_workspace q)"
    "sv_targets sv (xq_target_ref q) = Some adapter" using preflight_Inr [OF pre] by metis
  have rok: "row_ok row" "mt_id (mr_mount row) = ?mid" using row_of_ok [OF ok p(1)] row_of_id [OF p(1)] by (simp_all add: row_ok_def)
  let ?q = "action_of ?w row (xq_action q) kw"
  have q: "row_of (qa_mount_id ?q) tb = Some row" "owned_by row (qa_owner_principal ?q) (qa_owner_workspace ?q)"
    "w_clk ?w 0 < mr_expires_at row" "qa_token_id ?q = mr_token_id row" "qa_nonce ?q = mr_token_nonce row"
    using p(1) owner live(2) rok by (simp_all add: action_of_def later_def row_ok_def row_token_def)
  obtain tb1 r where e: "evaluate ?w revoked ?q tb = (tb1, tb1, Inr (DENY, ''token_replay'', r, None))" "audit_only tb tb1"
    by (rule evaluate_replay [OF q(1,2) live(1) q(3) live(3) q(4,5)])
  have "cappo_evaluator ?w sv row (xq_action q) kw op ih ?s = (commit ?mid tb1 tb1 ?s, Inr (DENY, ''token_replay'', None))" for ih
    using op(3) e(1) rok(2) by (simp add: cappo_evaluator_def)
  from consequence_refusal [where ev = "cappo_evaluator ?w sv row" and bg = "begin_callback (later 40 w) sv row"
      and fn = "invoke_effect w sv adapter row q op" and rp = "report_callback (later 50 w) sv row", OF local op(2) _ this]
  obtain s1 where g: "governed_call w sv adapter row q op ?s = (s1, Raised (policy_exc (PolicyError ''token_replay'')))"
    "rs_base s1 = tb1" "rs_target s1 = target" "rs_dispatched s1 = []"
    by (fastforce simp: governed_call_def)
  let ?s2 = "interfere sv 4 s1"
  have only: "audit_only tb (rs_cur ?s2)" using alone_audit [OF sv, of s1 4] audit_only_trans [OF e(2)] g(2) by simp
  note same = audit_onlyD(5,8) [OF only]
  have st: "should_terminate ?mid ''token_replay'' (rs_cur ?s2)" by (simp add: should_terminate_def)
  have an: "\<And>i aq x. anchored (snd (w_anchor (later 70 w) i aq x))" using ledger by (simp add: later_def)
  have row2: "row_of ?mid (rs_cur ?s2) = Some row" using same(2) p(1) by simp
  obtain s3 pl where f: "finish (later 70 w) sv row q op DENY ''token_replay'' None ?s2 = (s3, Inr (DENY, ''token_replay'',
      map_option (\<lambda>l. cstate_value (ce_state l)) (latest_event op (tb_events (rs_cur ?s2))), pl))"
    "pl_terminated pl" "pl_resulting_state pl = None" "dead ?mid (rs_base s3)" "tb_events (rs_base s3) = tb_events (rs_cur ?s2)"
    "rs_target s3 = rs_target ?s2" "rs_dispatched s3 = rs_dispatched ?s2"
    by (rule finish_ends [OF st an row2 p(2) live(1)])
  have "settle (later 70 w) sv row q op (Raised (policy_exc (PolicyError ''token_replay''))) ?s2 =
      (s3, Inr (DENY, ''token_replay'', None, pl))"
    using f(1) same(1) op(3) by (simp add: settle_def call_outcome_def policy_exc_def)
  then have "execute_consequence w sv q revoked target tb =
      (rs_base s3, rs_revoked s3, rs_target s3, rs_dispatched s3, Inr (DENY, ''token_replay'', None, pl))"
    using pre p(3) op g(1) by (simp add: execute_consequence_def Let_def resolve_target_def)
  then show ?thesis using f g(3,4) same(1) dead_begin by simp
qed

definition used_row :: mount_row where
  "used_row = sample_row\<lparr>mr_nonce_consumed := True\<rparr>"

definition used_tables :: tables where
  "used_tables = sample_authorized\<lparr>tb_mounts := [used_row]\<rparr>"

definition second_request :: consequence_request where
  "second_request = sample_consequence\<lparr>xq_operation_id := Some ''op2''\<rparr>"

lemma used_row_of: "row_of ''mnt_a'' used_tables = Some used_row"
  by (simp add: row_of_def used_tables_def used_row_def sample_row_def)

lemma used_tables_ok: "tables_ok used_tables"
  using sample_authorized_ok
  by (simp add: tables_ok_def used_tables_def sample_authorized_def used_row_def sample_tables_def row_ok_def allow_receipts_def)

lemma second_preflight: "preflight sample_world sample_service second_request used_tables = Inr used_row"
proof -
  have "record_refusal sample_world sample_service used_row second_request used_tables = None"
    by (simp add: record_refusal_def substrate_refusal_def epoch_refusal_def effective_epoch_def package_refusal_def envelope_refusal_def
        target_refusal_def resolve_target_def SANDBOX_PROJECT_def valid_resource_def is_alnum_def lease_of_def or_int_def row_token_def
        used_row_def sample_row_def second_request_def sample_consequence_def sample_mount_value_def sample_token_def used_tables_def
        sample_authorized_def sample_tables_def sample_world_def sample_service_def sample_adapter_def sample_package_def sample_scope_def)
  moreover have "owned_by used_row ''alice'' (Some ''w'')" by (simp add: owned_by_def used_row_def sample_row_def)
  ultimately show ?thesis using used_row_of by (simp add: preflight_def second_request_def sample_consequence_def)
qed

lemma second_local_eval:
  "local_eval (w_sha sample_world) (py_str sample_world) (\<lambda>i. w_uid sample_world (i + 1)) (\<lambda>i. w_clk sample_world (i + 1)) {}
     (xq_action second_request) (passthrough second_request) (row_binding used_row) =
   (row_binding used_row, Inr (drop_keys [''approval_token'', ''suppression_confirmed''] (passthrough second_request)))"
  by (simp add: local_eval_def Let_def check_live_def row_binding_def new_binding_def used_row_def sample_row_def second_request_def
      sample_consequence_def sample_token_def profile_allows_def is_mount_revoked_def row_token_def profile_covers_resource_def
      sample_world_def passthrough_def kw_resource_def py_str_def)

theorem replay_ends_mount_witness:
  "\<exists>tb' revoked' pl. execute_consequence sample_world sample_service second_request {} 0 used_tables =
      (tb', revoked', 0, [], Inr (DENY, ''token_replay'', None, pl)) \<and>
    ''op'' \<in> set (in_flight_operations ''mnt_a'' (tb_events tb')) \<and>
    snd (begin_txn sample_world ''mnt_a'' ''op'' (tb_events tb') tb') \<noteq> Begun"
proof -
  have o: "xq_operation_id second_request = Some ''op2''" "xq_mount_id second_request = ''mnt_a''"
    by (simp_all add: second_request_def sample_consequence_def)
  have evs: "tb_events used_tables = tb_events sample_authorized" by (simp add: used_tables_def)
  have n: "latest_event ''op2'' (tb_events used_tables) = None"
    by (simp add: latest_event_None evs sample_authorized_def sample_tables_def authorized_event_def)
  have r: "\<not> mr_terminated used_row" "w_clk sample_world 10 < mr_expires_at used_row" "mr_nonce_consumed used_row"
    "owned_by used_row (mr_owner_principal used_row) (Some (mr_owner_workspace used_row))"
    by (simp_all add: used_row_def sample_row_def sample_world_def owned_by_def)
  have "events_wf (tb_events sample_tables)" using sample_tables_ok by (simp add: tables_ok_def)
  from authorized_in_flight [OF this sample_authorize]
  have f: "''op'' \<in> set (in_flight_operations ''mnt_a'' (tb_events used_tables))"
    by (simp add: evs sample_row_def sample_mount_value_def)
  from replay_ends_mount [OF used_tables_ok sample_alone(1) second_preflight o(1) _ n r second_local_eval sample_ledger, of 0] f o(2)
  show ?thesis by fastforce
qed

end
