(* ===== verification/Vdb_Store.thy ===== *)
theory Vdb_Store
  imports Evidence "HOL-Library.Product_Lexorder"
begin

text \<open>
  The foundations of the physical consequence protocol (\<open>vdb_c1\<close>): canonical digests and signed
  objects (\<open>canon.py\<close>), the state machine of an intent (\<open>states.py\<close>), the hash-chained journal
  (\<open>journal.py\<close>) and the SQLite state store (\<open>state_adapter.py\<close>). RFC 8785 encoding, SHA-256 and
  Ed25519 belong to libraries and are fields of the codec \<open>c1\<close>; \<open>fromisoformat\<close> is one too, as in
  \<^emph>\<open>Evidence\<close>. Journal bodies are typed by the members the coordinator writes. The journal is
  modelled both as records and as the bytes of its file, with the torn last line of a crash. Integers
  that RFC 8785 refuses are refused in what is submitted; a store of \<open>2^53\<close> generations is out of reach.
\<close>

subsection \<open>Canonical objects\<close>

record c1 =
  c_sha :: "string \<Rightarrow> string"
  c_jcs :: "json \<Rightarrow> string"
  c_sign :: "string \<Rightarrow> string \<Rightarrow> string"
  c_public :: "string \<Rightarrow> string"
  c_valid :: "string \<Rightarrow> string \<Rightarrow> string \<Rightarrow> bool"
  c_fromisoformat :: "string \<Rightarrow> time option"

definition canon_digest :: "c1 \<Rightarrow> json \<Rightarrow> string" where
  "canon_digest c obj = ''sha256:'' @ c_sha c (c_jcs c obj)"

text \<open>RFC 8785 has no encoding for an integer beyond \<open>2^53 - 1\<close>: \<open>rfc8785.dumps\<close> raises.\<close>

fun encodable :: "json \<Rightarrow> bool" where
  "encodable (JNum i) = (abs i \<le> 2 ^ 53 - 1)"
| "encodable (JArr xs) = list_all encodable xs"
| "encodable (JObj kvs) = list_all (\<lambda>(k, v). encodable v) kvs"
| "encodable _ = True"

text \<open>Strict base64url: a text that is not the encoding of what it decodes to is refused.\<close>

definition unb64u :: "string \<Rightarrow> string option" where
  "unb64u text = (case b64decode text of Some raw \<Rightarrow> if b64encode raw = text then Some raw else None | None \<Rightarrow> None)"

definition key_id :: "c1 \<Rightarrow> string \<Rightarrow> string" where
  "key_id c pub = ''ed25519:'' @ take 16 (c_sha c pub)"

record 'p signed =
  sg_alg :: string
  sg_kid :: string
  sg_payload :: 'p
  sg_sig :: string

definition canon_sign :: "c1 \<Rightarrow> ('p \<Rightarrow> json) \<Rightarrow> 'p \<Rightarrow> string \<Rightarrow> string \<Rightarrow> 'p signed" where
  "canon_sign c to_json p sk kid =
     \<lparr>sg_alg = ''Ed25519'', sg_kid = kid, sg_payload = p, sg_sig = b64encode (c_sign c sk (c_jcs c (to_json p)))\<rparr>"

definition verify_signed :: "c1 \<Rightarrow> ('p \<Rightarrow> json) \<Rightarrow> 'p signed \<Rightarrow> (string \<rightharpoonup> string) \<Rightarrow> bool" where
  "verify_signed c to_json s trusted =
    (case trusted (sg_kid s) of
       None \<Rightarrow> False
     | Some key \<Rightarrow>
         (case unb64u key of
            None \<Rightarrow> False
          | Some pub \<Rightarrow>
              if sg_alg s \<noteq> ''Ed25519'' \<or> key_id c pub \<noteq> sg_kid s then False
              else case unb64u (sg_sig s) of
                None \<Rightarrow> False
              | Some raw \<Rightarrow> encodable (to_json (sg_payload s)) \<and> c_valid c pub raw (c_jcs c (to_json (sg_payload s)))))"

definition STATE_PROTOCOL :: string where
  "STATE_PROTOCOL = ''veklom.vdb.c1.state/v1''"

definition PAYLOAD_PROTOCOL :: string where
  "PAYLOAD_PROTOCOL = ''veklom.vdb.c1.payload/v1''"

type_synonym entries = "(string \<times> string) list"

definition entries_json :: "entries \<Rightarrow> json" where
  "entries_json es = JArr (map (\<lambda>(k, v). JArr [JStr k, JStr v]) es)"

definition state_root :: "c1 \<Rightarrow> string \<Rightarrow> int \<Rightarrow> entries \<Rightarrow> string" where
  "state_root c namespace generation entries =
     canon_digest c (JObj [(''protocol'', JStr STATE_PROTOCOL), (''namespace'', JStr namespace),
       (''generation'', JNum generation), (''entries'', entries_json (sort entries))])"

definition payload_commitment :: "c1 \<Rightarrow> string \<Rightarrow> string \<Rightarrow> string \<Rightarrow> string" where
  "payload_commitment c op key value =
     canon_digest c (JObj [(''protocol'', JStr PAYLOAD_PROTOCOL), (''op'', JStr op), (''key'', JStr key), (''value'', JStr value)])"

text \<open>\<open>isoformat(timespec="milliseconds")\<close> with \<open>Z\<close>; times are microseconds.\<close>

definition format_time :: "time \<Rightarrow> string" where
  "format_time t =
    (let secs = t div 1000000; sod = secs mod 86400; (y, m, d) = civil_from_days (secs div 86400);
         two = (\<lambda>i. pad 2 (show_int i))
     in pad 4 (show_int y) @ ''-'' @ two m @ ''-'' @ two d @ ''T'' @ two (sod div 3600) @ '':'' @ two (sod mod 3600 div 60) @ '':'' @
        two (sod mod 60) @ ''.'' @ pad 3 (show_int (t mod 1000000 div 1000)) @ ''Z'')"

definition canon_parse_time :: "c1 \<Rightarrow> string \<Rightarrow> time option" where
  "canon_parse_time c text =
    (if text = [] \<or> last text \<noteq> CHR ''Z'' then None else c_fromisoformat c (butlast text @ ''+00:00''))"

subsection \<open>The state machine\<close>

datatype c1_state = RECEIVED | ADMISSION_REJECTED | ADMITTED | PRECONDITION_REJECTED | PREPARED | ABORTED | COMMITTING
  | COMMIT_UNCERTAIN | FINALIZED

fun transitions :: "c1_state \<Rightarrow> c1_state set" where
  "transitions RECEIVED = {ADMISSION_REJECTED, ADMITTED}"
| "transitions ADMITTED = {PRECONDITION_REJECTED, PREPARED}"
| "transitions PREPARED = {ABORTED, COMMITTING}"
| "transitions COMMITTING = {FINALIZED, COMMIT_UNCERTAIN}"
| "transitions COMMIT_UNCERTAIN = {FINALIZED, ABORTED}"
| "transitions _ = {}"

definition terminal :: "c1_state \<Rightarrow> bool" where
  "terminal s \<longleftrightarrow> transitions s = {}"

text \<open>Journal record kinds: the states that are recorded, and \<open>COMMITTED\<close>, which is no state.\<close>

datatype kind = Kind c1_state | COMMITTED_RECORD

definition binding_kind :: "kind \<Rightarrow> bool" where
  "binding_kind k \<longleftrightarrow> k \<in> {Kind PREPARED, Kind COMMITTING, Kind COMMIT_UNCERTAIN, COMMITTED_RECORD, Kind FINALIZED, Kind ABORTED}"

text \<open>Replay of the kinds of one intent; \<open>None\<close> is \<open>IllegalTransition\<close>.\<close>

fun replay_kinds :: "c1_state \<Rightarrow> bool \<Rightarrow> kind list \<Rightarrow> c1_state option" where
  "replay_kinds state committed_seen [] = Some state"
| "replay_kinds state committed_seen (COMMITTED_RECORD # ks) =
    (if state \<notin> {COMMITTING, COMMIT_UNCERTAIN} \<or> committed_seen then None else replay_kinds state True ks)"
| "replay_kinds state committed_seen (Kind k # ks) =
    (let state = (if k = PREPARED \<and> state = RECEIVED then ADMITTED else state)
     in if k = COMMIT_UNCERTAIN \<and> state = COMMIT_UNCERTAIN then replay_kinds state committed_seen ks
        else if k = FINALIZED \<and> \<not> committed_seen then None
        else if k = ABORTED \<and> committed_seen then None
        else if k \<notin> transitions state then None
        else replay_kinds k committed_seen ks)"

definition state_after :: "kind list \<Rightarrow> c1_state option" where
  "state_after ks = replay_kinds RECEIVED False ks"

subsection \<open>Intents and journal records\<close>

record intent =
  it_protocol :: string
  it_intent_id :: string
  it_namespace :: string
  it_op :: string
  it_key :: string
  it_value :: string
  it_expected_generation :: int
  it_expected_root :: string
  it_issued_at :: string
  it_expires_at :: string
  it_authority_kid :: string

definition intent_json :: "intent \<Rightarrow> json" where
  "intent_json p = JObj [(''protocol'', JStr (it_protocol p)), (''intent_id'', JStr (it_intent_id p)),
     (''namespace'', JStr (it_namespace p)), (''op'', JStr (it_op p)), (''key'', JStr (it_key p)), (''value'', JStr (it_value p)),
     (''expected_generation'', JNum (it_expected_generation p)), (''expected_root'', JStr (it_expected_root p)),
     (''issued_at'', JStr (it_issued_at p)), (''expires_at'', JStr (it_expires_at p)), (''authority_kid'', JStr (it_authority_kid p))]"

definition signed_json :: "('p \<Rightarrow> json) \<Rightarrow> 'p signed \<Rightarrow> json" where
  "signed_json to_json s = JObj [(''alg'', JStr (sg_alg s)), (''kid'', JStr (sg_kid s)), (''payload'', to_json (sg_payload s)),
     (''sig'', JStr (sg_sig s))]"

record applied_row =
  ap_intent_id :: string
  ap_intent_hash :: string
  ap_generation :: int
  ap_post_root :: string

definition applied_json :: "applied_row \<Rightarrow> json" where
  "applied_json a = JObj [(''intent_id'', JStr (ap_intent_id a)), (''intent_hash'', JStr (ap_intent_hash a)),
     (''generation'', JNum (ap_generation a)), (''post_root'', JStr (ap_post_root a))]"

record prepared =
  pb_intent_hash :: string
  pb_signed_intent :: "intent signed"
  pb_authority_kid :: string
  pb_admitted_at :: string
  pb_store_id :: string
  pb_pre_generation :: int
  pb_pre_root :: string
  pb_pre_entries :: entries
  pb_payload_commitment :: string

record physical =
  ph_adapter :: string
  ph_journal_mode :: string
  ph_synchronous :: string
  ph_store_id :: string

definition durability :: "string \<Rightarrow> physical" where
  "durability store_id = \<lparr>ph_adapter = ''sqlite-wal/v1'', ph_journal_mode = ''wal'', ph_synchronous = ''FULL'', ph_store_id = store_id\<rparr>"

record committed =
  cb_intent_hash :: string
  cb_post_generation :: int
  cb_post_root :: string
  cb_post_entries :: entries
  cb_applied_row :: applied_row
  cb_physical :: physical
  cb_recovered :: bool

record certificate =
  cf_protocol :: string
  cf_intent_id :: string
  cf_intent_hash :: string
  cf_namespace :: string
  cf_authority_kid :: string
  cf_expected_generation :: int
  cf_pre_root :: string
  cf_payload_commitment :: string
  cf_post_generation :: int
  cf_post_root :: string
  cf_physical :: physical
  cf_applied_row :: applied_row
  cf_prepared_seq :: int
  cf_prepared_hash :: string
  cf_committed_seq :: int
  cf_committed_hash :: string
  cf_finalized_at :: string
  cf_finalizer_kid :: string

definition FINALITY_PROTOCOL :: string where
  "FINALITY_PROTOCOL = ''veklom.vdb.c1.finality/v1''"

definition physical_json :: "physical \<Rightarrow> (string \<times> json) list" where
  "physical_json ph = [(''adapter'', JStr (ph_adapter ph)), (''journal_mode'', JStr (ph_journal_mode ph)),
     (''synchronous'', JStr (ph_synchronous ph)), (''store_id'', JStr (ph_store_id ph))]"

definition certificate_json :: "certificate \<Rightarrow> json" where
  "certificate_json f = JObj [(''protocol'', JStr (cf_protocol f)), (''intent_id'', JStr (cf_intent_id f)),
     (''intent_hash'', JStr (cf_intent_hash f)), (''namespace'', JStr (cf_namespace f)), (''authority_kid'', JStr (cf_authority_kid f)),
     (''expected_generation'', JNum (cf_expected_generation f)), (''pre_root'', JStr (cf_pre_root f)),
     (''payload_commitment'', JStr (cf_payload_commitment f)), (''post_generation'', JNum (cf_post_generation f)),
     (''post_root'', JStr (cf_post_root f)),
     (''physical'', JObj (physical_json (cf_physical f) @ [(''applied_row'', applied_json (cf_applied_row f))])),
     (''journal'', JObj [(''prepared_seq'', JNum (cf_prepared_seq f)), (''prepared_hash'', JStr (cf_prepared_hash f)),
        (''committed_seq'', JNum (cf_committed_seq f)), (''committed_hash'', JStr (cf_committed_hash f))]),
     (''finalized_at'', JStr (cf_finalized_at f)), (''finalizer_kid'', JStr (cf_finalizer_kid f))]"

datatype body =
    Admission_Body "string option" string
  | Precondition_Body string string "intent signed" int string
  | Prepared_Body prepared
  | Committing_Body string
  | Uncertain_Body string string
  | Committed_Body committed
  | Finalized_Body string "certificate signed"
  | Aborted_Body string string

fun body_json :: "body \<Rightarrow> json" where
  "body_json (Admission_Body ih reason) = JObj [(''intent_hash'', jopt ih), (''reason'', JStr reason)]"
| "body_json (Precondition_Body ih reason si gen root) = JObj [(''intent_hash'', JStr ih), (''reason'', JStr reason),
     (''signed_intent'', signed_json intent_json si), (''observed_generation'', JNum gen), (''observed_root'', JStr root)]"
| "body_json (Prepared_Body b) = JObj [(''intent_hash'', JStr (pb_intent_hash b)),
     (''signed_intent'', signed_json intent_json (pb_signed_intent b)),
     (''admission'', JObj [(''authority_kid'', JStr (pb_authority_kid b)), (''admitted_at'', JStr (pb_admitted_at b)),
        (''checks'', JArr (map JStr [''schema'', ''protocol'', ''op'', ''namespace'', ''kid'', ''trusted_key'', ''signature'',
           ''validity_window'', ''ttl'']))]),
     (''store_id'', JStr (pb_store_id b)), (''pre_generation'', JNum (pb_pre_generation b)), (''pre_root'', JStr (pb_pre_root b)),
     (''pre_entries'', entries_json (pb_pre_entries b)), (''payload_commitment'', JStr (pb_payload_commitment b))]"
| "body_json (Committing_Body ih) = JObj [(''intent_hash'', JStr ih)]"
| "body_json (Uncertain_Body ih reason) = JObj [(''intent_hash'', JStr ih), (''reason'', JStr reason)]"
| "body_json (Committed_Body b) = JObj [(''intent_hash'', JStr (cb_intent_hash b)), (''post_generation'', JNum (cb_post_generation b)),
     (''post_root'', JStr (cb_post_root b)), (''post_entries'', entries_json (cb_post_entries b)),
     (''applied_row'', applied_json (cb_applied_row b)), (''physical'', JObj (physical_json (cb_physical b))),
     (''recovered'', JBool (cb_recovered b))]"
| "body_json (Finalized_Body ih cert) = JObj [(''intent_hash'', JStr ih), (''certificate'', signed_json certificate_json cert)]"
| "body_json (Aborted_Body ih reason) = JObj [(''intent_hash'', JStr ih), (''reason'', JStr reason)]"

fun body_intent_hash :: "body \<Rightarrow> string option" where
  "body_intent_hash (Admission_Body ih reason) = ih"
| "body_intent_hash (Precondition_Body ih reason si gen root) = Some ih"
| "body_intent_hash (Prepared_Body b) = Some (pb_intent_hash b)"
| "body_intent_hash (Committing_Body ih) = Some ih"
| "body_intent_hash (Uncertain_Body ih reason) = Some ih"
| "body_intent_hash (Committed_Body b) = Some (cb_intent_hash b)"
| "body_intent_hash (Finalized_Body ih cert) = Some ih"
| "body_intent_hash (Aborted_Body ih reason) = Some ih"

subsection \<open>The journal\<close>

definition JOURNAL_PROTOCOL :: string where
  "JOURNAL_PROTOCOL = ''veklom.vdb.c1.journal/v1''"

record jrecord =
  jr_protocol :: string
  jr_seq :: int
  jr_prev :: string
  jr_at :: string
  jr_kind :: kind
  jr_intent_id :: string
  jr_body :: body
  jr_hash :: string

fun state_name :: "c1_state \<Rightarrow> string" where
  "state_name RECEIVED = ''RECEIVED''"
| "state_name ADMISSION_REJECTED = ''ADMISSION_REJECTED''"
| "state_name ADMITTED = ''ADMITTED''"
| "state_name PRECONDITION_REJECTED = ''PRECONDITION_REJECTED''"
| "state_name PREPARED = ''PREPARED''"
| "state_name ABORTED = ''ABORTED''"
| "state_name COMMITTING = ''COMMITTING''"
| "state_name COMMIT_UNCERTAIN = ''COMMIT_UNCERTAIN''"
| "state_name FINALIZED = ''FINALIZED''"

fun kind_name :: "kind \<Rightarrow> string" where
  "kind_name (Kind s) = state_name s"
| "kind_name COMMITTED_RECORD = ''COMMITTED''"

definition record_members :: "jrecord \<Rightarrow> (string \<times> json) list" where
  "record_members r = [(''protocol'', JStr (jr_protocol r)), (''seq'', JNum (jr_seq r)), (''prev'', JStr (jr_prev r)),
     (''at'', JStr (jr_at r)), (''kind'', JStr (kind_name (jr_kind r))), (''intent_id'', JStr (jr_intent_id r)),
     (''body'', body_json (jr_body r))]"

definition record_json :: "jrecord \<Rightarrow> json" where
  "record_json r = JObj (record_members r @ [(''hash'', JStr (jr_hash r))])"

definition record_hash :: "c1 \<Rightarrow> jrecord \<Rightarrow> string" where
  "record_hash c r = canon_digest c (JObj (record_members r))"

definition last_hash :: "jrecord list \<Rightarrow> string" where
  "last_hash rs = (if rs = [] then ''genesis'' else jr_hash (last rs))"

definition new_record :: "c1 \<Rightarrow> kind \<Rightarrow> string \<Rightarrow> body \<Rightarrow> string \<Rightarrow> jrecord list \<Rightarrow> jrecord" where
  "new_record c k intent_id b at rs =
    (let r = \<lparr>jr_protocol = JOURNAL_PROTOCOL, jr_seq = int (length rs), jr_prev = last_hash rs, jr_at = at, jr_kind = k,
           jr_intent_id = intent_id, jr_body = b, jr_hash = []\<rparr>
     in r\<lparr>jr_hash := record_hash c r\<rparr>)"

definition for_intent :: "string \<Rightarrow> jrecord list \<Rightarrow> jrecord list" where
  "for_intent intent_id rs = filter (\<lambda>r. jr_intent_id r = intent_id) rs"

text \<open>
  The file: one line per record. \<open>loads\<close> is \<open>json.loads\<close> with the typing of the members; a line that is
  not JSON or whose chain, hash or encoding is wrong stops the coordinator.
\<close>

definition chain_ok :: "c1 \<Rightarrow> int \<Rightarrow> string \<Rightarrow> jrecord \<Rightarrow> bool" where
  "chain_ok c seq prev r \<longleftrightarrow>
     jr_protocol r = JOURNAL_PROTOCOL \<and> jr_seq r = seq \<and> jr_prev r = prev \<and> jr_hash r = record_hash c r"

fun load_lines :: "c1 \<Rightarrow> (string \<Rightarrow> jrecord option) \<Rightarrow> int \<Rightarrow> string \<Rightarrow> string list \<Rightarrow> jrecord list option" where
  "load_lines c loads seq prev [] = Some []"
| "load_lines c loads seq prev (line # rest) =
    (case loads line of
       None \<Rightarrow> None
     | Some r \<Rightarrow>
         if \<not> chain_ok c seq prev r \<or> c_jcs c (record_json r) \<noteq> line then None
         else map_option (\<lambda>rs. r # rs) (load_lines c loads (seq + 1) (jr_hash r) rest))"

text \<open>
  \<open>data[:data.rfind(newline) + 1]\<close>, and \<open>bytes.splitlines\<close>: a line ends at a line feed, a carriage return
  or both.
\<close>

abbreviation carriage_return :: char where
  "carriage_return \<equiv> CHR 0x0D"

definition whole_lines :: "string \<Rightarrow> string" where
  "whole_lines data = rev (dropWhile (\<lambda>ch. ch \<noteq> newline) (rev data))"

fun split_lines :: "string \<Rightarrow> string \<Rightarrow> string list" where
  "split_lines acc [] = (if acc = [] then [] else [rev acc])"
| "split_lines acc (ch # s) =
    (if ch = newline then rev acc # split_lines [] s
     else if ch = carriage_return then rev acc # split_lines [] (if take 1 s = [newline] then drop 1 s else s)
     else split_lines (ch # acc) s)"

definition journal_load :: "c1 \<Rightarrow> (string \<Rightarrow> jrecord option) \<Rightarrow> string \<Rightarrow> (jrecord list \<times> nat) option" where
  "journal_load c loads data =
     map_option (\<lambda>rs. (rs, length data - length (whole_lines data)))
       (load_lines c loads 0 ''genesis'' (split_lines [] (whole_lines data)))"

definition record_line :: "c1 \<Rightarrow> jrecord \<Rightarrow> string" where
  "record_line c r = c_jcs c (record_json r) @ [newline]"

subsection \<open>The state store\<close>

record store =
  st_namespace :: string
  st_store_id :: string
  st_generation :: int
  st_kv :: entries
  st_applied :: "applied_row list"

definition store_create :: "string \<Rightarrow> string \<Rightarrow> store" where
  "store_create namespace store_id =
     \<lparr>st_namespace = namespace, st_store_id = store_id, st_generation = 0, st_kv = [], st_applied = []\<rparr>"

definition store_entries :: "store \<Rightarrow> entries" where
  "store_entries st = sort (st_kv st)"

definition store_root :: "c1 \<Rightarrow> store \<Rightarrow> string" where
  "store_root c st = state_root c (st_namespace st) (st_generation st) (store_entries st)"

definition applied :: "string \<Rightarrow> store \<Rightarrow> applied_row option" where
  "applied intent_id st = find (\<lambda>a. ap_intent_id a = intent_id) (st_applied st)"

text \<open>\<open>INSERT \<dots> ON CONFLICT (key) DO UPDATE\<close>.\<close>

definition upsert :: "string \<Rightarrow> string \<Rightarrow> entries \<Rightarrow> entries" where
  "upsert key value kv = filter (\<lambda>e. fst e \<noteq> key) kv @ [(key, value)]"

datatype upsert_result = Precondition_Failed string | Integrity_Error | Ready store

text \<open>
  The transaction up to its \<open>COMMIT\<close>: what it would make durable. Nothing of it is durable before.
\<close>

definition upsert_txn :: "c1 \<Rightarrow> string \<Rightarrow> string \<Rightarrow> string \<Rightarrow> string \<Rightarrow> int \<Rightarrow> string \<Rightarrow> store \<Rightarrow> upsert_result" where
  "upsert_txn c intent_id intent_hash key value expected_generation expected_root st =
    (if st_generation st \<noteq> expected_generation then Precondition_Failed ''E_STALE_GENERATION''
     else if store_root c st \<noteq> expected_root then Precondition_Failed ''E_ROOT_MISMATCH''
     else
       let post = st\<lparr>st_kv := upsert key value (st_kv st), st_generation := st_generation st + 1\<rparr>
       in if applied intent_id st \<noteq> None \<or> list_ex (\<lambda>a. ap_generation a = st_generation post) (st_applied st) then Integrity_Error
          else Ready (post\<lparr>st_applied := st_applied post @ [\<lparr>ap_intent_id = intent_id, ap_intent_hash = intent_hash,
                 ap_generation = st_generation post, ap_post_root = store_root c post\<rparr>]\<rparr>))"

end
