(* ===== verification/Vdb_Coordinator.thy ===== *)
theory Vdb_Coordinator
  imports Vdb_Store
begin

text \<open>
  The coordinator (\<open>vdb_c1/coordinator.py\<close>): submission of a signed intent, confirmation of its commit,
  finality and recovery. Everything it does between two durable writes (a journal append with its
  \<open>fsync\<close>, the storage \<open>COMMIT\<close>) is lost when the process dies, so a run is given the number of durable
  writes after which it dies: every point a crash can be observed at is one such number, among them
  the crash points of \<open>CRASH_POINTS\<close>, and recovery can die too. The exclusive file lock makes runs
  sequential. A submission is typed: anything whose members or their types differ from an intent
  is \<open>Other\<close>, with the identifier and the value the code takes from it.
\<close>

subsection \<open>Runs that may die\<close>

record home =
  hm_store :: store
  hm_journal :: "jrecord list"

datatype 'a outcome = Done 'a | Crashed | Failed string

type_synonym 'a run = "home \<Rightarrow> nat \<Rightarrow> home \<times> nat \<times> 'a outcome"

definition ret :: "'a \<Rightarrow> 'a run" where
  "ret x h n = (h, n, Done x)"

definition fail :: "string \<Rightarrow> 'a run" where
  "fail e h n = (h, n, Failed e)"

definition and_then :: "'a run \<Rightarrow> ('a \<Rightarrow> 'b run) \<Rightarrow> 'b run" where
  "and_then m f h n =
    (case m h n of
       (h', n', Done x) \<Rightarrow> f x h' n'
     | (h', n', Crashed) \<Rightarrow> (h', n', Crashed)
     | (h', n', Failed e) \<Rightarrow> (h', n', Failed e))"

definition durable :: "(home \<Rightarrow> home) \<Rightarrow> unit run" where
  "durable f h n = (case n of 0 \<Rightarrow> (h, 0, Crashed) | Suc n' \<Rightarrow> (f h, n', Done ()))"

subsection \<open>Configuration and submissions\<close>

record coordinator =
  co_codec :: c1
  co_authority_keys :: "string \<rightharpoonup> string"
  co_finalizer_sk :: string
  co_finalizer_kid :: string
  co_clock :: "nat \<Rightarrow> time"

datatype submission_payload = Intent intent | Other "string option" "json option"

record submission =
  sb_signed :: "submission_payload signed"
  sb_exact :: bool

fun payload_json :: "submission_payload \<Rightarrow> json" where
  "payload_json (Intent p) = intent_json p"
| "payload_json (Other iid v) = (case v of None \<Rightarrow> JNull | Some j \<Rightarrow> j)"

fun payload_id :: "submission_payload \<Rightarrow> string option" where
  "payload_id (Intent p) = Some (it_intent_id p)"
| "payload_id (Other iid v) = iid"

fun payload_hash :: "c1 \<Rightarrow> submission_payload \<Rightarrow> string option" where
  "payload_hash c (Intent p) = (if encodable (intent_json p) then Some (canon_digest c (intent_json p)) else None)"
| "payload_hash c (Other iid v) = map_option (canon_digest c) v"

definition INTENT_PROTOCOL :: string where
  "INTENT_PROTOCOL = ''veklom.vdb.c1.intent/v1''"

definition MAX_TTL_S :: int where
  "MAX_TTL_S = 600"

definition CLOCK_SKEW_S :: int where
  "CLOCK_SKEW_S = 5"

definition MAX_KEY :: nat where
  "MAX_KEY = 256"

definition MAX_VALUE :: nat where
  "MAX_VALUE = 65536"

text \<open>
  \<open>uuid.UUID\<close>: prefixes, braces and hyphens dropped, 32 characters left, read by \<open>int(_, 16)\<close>. The
  decimal digits of other scripts, which \<open>int\<close> reads too, are not among the characters here.
\<close>

definition is_hex :: "char \<Rightarrow> bool" where
  "is_hex ch \<longleftrightarrow> CHR ''0'' \<le> ch \<and> ch \<le> CHR ''9'' \<or> CHR ''a'' \<le> ch \<and> ch \<le> CHR ''f'' \<or> CHR ''A'' \<le> ch \<and> ch \<le> CHR ''F''"

fun hex_digits :: "string \<Rightarrow> bool" where
  "hex_digits [] = False"
| "hex_digits [ch] = is_hex ch"
| "hex_digits (ch # d # s) = (is_hex ch \<and> (if d = CHR ''_'' then hex_digits s else hex_digits (d # s)))"

fun drop_text :: "string \<Rightarrow> string \<Rightarrow> string" where
  "drop_text t [] = []"
| "drop_text t (ch # s) =
    (if t \<noteq> [] \<and> take (length t) (ch # s) = t then drop_text t (drop (length t - 1) s) else ch # drop_text t s)"

definition strip_chars :: "(char \<Rightarrow> bool) \<Rightarrow> string \<Rightarrow> string" where
  "strip_chars p s = rev (dropWhile p (rev (dropWhile p s)))"

definition hex_int :: "string \<Rightarrow> bool" where
  "hex_int s =
    (let s1 = strip_chars (\<lambda>ch. (of_char ch :: nat) \<in> {9..13} \<union> {28..32}) s;
         s2 = (if s1 \<noteq> [] \<and> hd s1 \<in> {CHR ''+'', CHR ''-''} then tl s1 else s1);
         s3 = (if take 2 s2 \<in> {''0x'', ''0X''} then (if take 1 (drop 2 s2) = ''_'' then drop 3 s2 else drop 2 s2) else s2)
     in hex_digits s3)"

definition uuid_ok :: "string \<Rightarrow> bool" where
  "uuid_ok s =
    (let hex = filter (\<lambda>ch. ch \<noteq> CHR ''-'') (strip_chars (\<lambda>ch. ch \<in> {CHR ''{'', CHR ''}''}) (drop_text ''uuid:'' (drop_text ''urn:'' s)))
     in length hex = 32 \<and> hex_int hex)"

subsection \<open>Admission\<close>

definition window_refusal :: "time \<Rightarrow> time \<Rightarrow> time \<Rightarrow> string option" where
  "window_refusal now issued expires =
    (if expires - issued > MAX_TTL_S * 1000000 \<or> expires \<le> issued then Some ''E_TTL''
     else if now < issued - CLOCK_SKEW_S * 1000000 then Some ''E_NOT_YET_VALID''
     else if now \<ge> expires then Some ''E_EXPIRED''
     else None)"

definition admission :: "coordinator \<Rightarrow> submission \<Rightarrow> store \<Rightarrow> string option" where
  "admission co sub st =
    (let c = co_codec co; s = sb_signed sub
     in case sg_payload s of
          Other _ _ \<Rightarrow> Some ''E_SCHEMA''
        | Intent p \<Rightarrow>
            if \<not> sb_exact sub then Some ''E_SCHEMA''
            else if it_expected_generation p < 0 \<or> py_len (it_key p) > MAX_KEY \<or> py_len (it_value p) > MAX_VALUE \<or> it_key p = []
              then Some ''E_SCHEMA''
            else if \<not> uuid_ok (it_intent_id p) then Some ''E_SCHEMA''
            else case (canon_parse_time c (it_issued_at p), canon_parse_time c (it_expires_at p)) of
              (Some issued, Some expires) \<Rightarrow>
                if it_protocol p \<noteq> INTENT_PROTOCOL then Some ''E_PROTOCOL''
                else if it_op p \<noteq> ''UPSERT'' then Some ''E_OP''
                else if it_namespace p \<noteq> st_namespace st then Some ''E_NAMESPACE''
                else if sg_kid s \<noteq> it_authority_kid p then Some ''E_KID_MISMATCH''
                else if co_authority_keys co (sg_kid s) = None then Some ''E_UNTRUSTED_KEY''
                else if \<not> verify_signed c payload_json s (co_authority_keys co) then Some ''E_BAD_SIGNATURE''
                else window_refusal (co_clock co 0) issued expires
            | _ \<Rightarrow> Some ''E_SCHEMA'')"

subsection \<open>The journal of the coordinator\<close>

definition intent_binding :: "string \<Rightarrow> jrecord list \<Rightarrow> jrecord list" where
  "intent_binding intent_id rs = filter (\<lambda>r. binding_kind (jr_kind r)) (for_intent intent_id rs)"

definition kinds :: "string \<Rightarrow> jrecord list \<Rightarrow> kind list" where
  "kinds intent_id rs = map jr_kind (intent_binding intent_id rs)"

definition c1_append :: "coordinator \<Rightarrow> kind \<Rightarrow> string \<Rightarrow> body \<Rightarrow> unit run" where
  "c1_append co k intent_id b h n =
    (if binding_kind k \<and> state_after (kinds intent_id (hm_journal h) @ [k]) = None then (h, n, Failed ''IllegalTransition'')
     else durable (\<lambda>h. h\<lparr>hm_journal := hm_journal h @
       [new_record (co_codec co) k intent_id b (format_time (co_clock co (length (hm_journal h) + 2))) (hm_journal h)]\<rparr>) h n)"

record result =
  rs_intent_id :: string
  rs_state :: c1_state
  rs_reason :: "string option"
  rs_certificate :: "certificate signed option"
  rs_replayed :: bool

fun body_reason :: "body \<Rightarrow> string option" where
  "body_reason (Uncertain_Body ih reason) = Some reason"
| "body_reason (Aborted_Body ih reason) = Some reason"
| "body_reason (Admission_Body ih reason) = Some reason"
| "body_reason (Precondition_Body ih reason si gen root) = Some reason"
| "body_reason _ = None"

fun body_certificate :: "body \<Rightarrow> certificate signed option" where
  "body_certificate (Finalized_Body ih cert) = Some cert"
| "body_certificate _ = None"

definition result_of :: "string \<Rightarrow> bool \<Rightarrow> result run" where
  "result_of intent_id replayed h n =
    (let recs = intent_binding intent_id (hm_journal h)
     in case state_after (kinds intent_id (hm_journal h)) of
          None \<Rightarrow> (h, n, Failed ''IllegalTransition'')
        | Some state \<Rightarrow>
            if recs = [] then (h, n, Failed ''IndexError'')
            else (h, n, Done \<lparr>rs_intent_id = intent_id, rs_state = state,
              rs_reason = (if state = FINALIZED then None else body_reason (jr_body (last recs))),
              rs_certificate = (if state = FINALIZED then body_certificate (jr_body (last recs)) else None), rs_replayed = replayed\<rparr>))"

definition reject :: "coordinator \<Rightarrow> string \<Rightarrow> string option \<Rightarrow> string \<Rightarrow> result run" where
  "reject co intent_id intent_hash reason =
     and_then (c1_append co (Kind ADMISSION_REJECTED) intent_id (Admission_Body intent_hash reason))
       (\<lambda>_. ret \<lparr>rs_intent_id = intent_id, rs_state = ADMISSION_REJECTED, rs_reason = Some reason, rs_certificate = None,
          rs_replayed = False\<rparr>)"

subsection \<open>Commit confirmation and finality\<close>

fun prepared_body :: "body \<Rightarrow> prepared option" where
  "prepared_body (Prepared_Body b) = Some b"
| "prepared_body _ = None"

fun committed_body :: "body \<Rightarrow> committed option" where
  "committed_body (Committed_Body b) = Some b"
| "committed_body _ = None"

definition certificate_of :: "string \<Rightarrow> string \<Rightarrow> jrecord \<Rightarrow> prepared \<Rightarrow> jrecord \<Rightarrow> committed \<Rightarrow> certificate" where
  "certificate_of intent_id finalizer_kid prepared pb committed cb =
    (let p = sg_payload (pb_signed_intent pb)
     in \<lparr>cf_protocol = FINALITY_PROTOCOL, cf_intent_id = intent_id, cf_intent_hash = pb_intent_hash pb, cf_namespace = it_namespace p,
         cf_authority_kid = it_authority_kid p, cf_expected_generation = it_expected_generation p, cf_pre_root = pb_pre_root pb,
         cf_payload_commitment = pb_payload_commitment pb, cf_post_generation = cb_post_generation cb, cf_post_root = cb_post_root cb,
         cf_physical = cb_physical cb, cf_applied_row = cb_applied_row cb,
         cf_prepared_seq = jr_seq prepared, cf_prepared_hash = jr_hash prepared,
         cf_committed_seq = jr_seq committed, cf_committed_hash = jr_hash committed,
         cf_finalized_at = jr_at committed, cf_finalizer_kid = finalizer_kid\<rparr>)"

definition final_certificate :: "coordinator \<Rightarrow> string \<Rightarrow> jrecord list \<Rightarrow> certificate signed option" where
  "final_certificate co intent_id rs =
    (case intent_binding intent_id rs of
       [] \<Rightarrow> None
     | prepared # rest \<Rightarrow>
         (case (prepared_body (jr_body prepared), find (\<lambda>r. jr_kind r = COMMITTED_RECORD) (prepared # rest)) of
            (Some pb, Some committed) \<Rightarrow>
              map_option (\<lambda>cb. canon_sign (co_codec co) certificate_json
                 (certificate_of intent_id (co_finalizer_kid co) prepared pb committed cb) (co_finalizer_sk co) (co_finalizer_kid co))
                (committed_body (jr_body committed))
          | _ \<Rightarrow> None))"

definition finalize :: "coordinator \<Rightarrow> string \<Rightarrow> unit run" where
  "finalize co intent_id h n =
    (case final_certificate co intent_id (hm_journal h) of
       None \<Rightarrow> (h, n, Failed ''KeyError'')
     | Some cert \<Rightarrow>
         c1_append co (Kind FINALIZED) intent_id (Finalized_Body (cf_intent_hash (sg_payload cert)) cert) h n)"

definition read_problems :: "c1 \<Rightarrow> prepared \<Rightarrow> applied_row option \<Rightarrow> store \<Rightarrow> string list" where
  "read_problems c pb row fresh =
    (let p = sg_payload (pb_signed_intent pb);
         expected_entries = sort (filter (\<lambda>e. fst e \<noteq> it_key p) (pb_pre_entries pb) @ [(it_key p, it_value p)])
     in (case row of None \<Rightarrow> [''applied_row''] | Some a \<Rightarrow> if ap_intent_hash a \<noteq> pb_intent_hash pb then [''applied_row''] else []) @
        (if st_store_id fresh \<noteq> pb_store_id pb then [''store_id''] else []) @
        (case row of None \<Rightarrow> [] | Some a \<Rightarrow>
           if \<not> (st_generation fresh = ap_generation a \<and> ap_generation a = pb_pre_generation pb + 1) then [''generation''] else []) @
        (case row of None \<Rightarrow> [] | Some a \<Rightarrow> if store_root c fresh \<noteq> ap_post_root a then [''post_root''] else []) @
        (if store_entries fresh \<noteq> expected_entries then [''entries''] else []))"

fun join_with :: "string \<Rightarrow> string list \<Rightarrow> string" where
  "join_with sep [] = []"
| "join_with sep [x] = x"
| "join_with sep (x # y # zs) = x @ sep @ join_with sep (y # zs)"

definition confirm_commit :: "coordinator \<Rightarrow> string \<Rightarrow> bool \<Rightarrow> bool run" where
  "confirm_commit co intent_id recovered h n =
    (let recs = intent_binding intent_id (hm_journal h); fresh = hm_store h; row = applied intent_id fresh
     in case recs of
          [] \<Rightarrow> (h, n, Failed ''IndexError'')
        | prepared # _ \<Rightarrow>
            (case prepared_body (jr_body prepared) of
               None \<Rightarrow> (h, n, Failed ''KeyError'')
             | Some pb \<Rightarrow>
                 let problems = read_problems (co_codec co) pb row fresh
                 in if problems \<noteq> [] then
                      (if jr_kind (last recs) \<noteq> Kind COMMIT_UNCERTAIN then
                         and_then (c1_append co (Kind COMMIT_UNCERTAIN) intent_id
                           (Uncertain_Body (pb_intent_hash pb) (''E_FRESH_READ_MISMATCH:'' @ join_with '','' problems))) (\<lambda>_. ret False)
                       else ret False) h n
                    else
                      and_then (c1_append co COMMITTED_RECORD intent_id (Committed_Body
                         \<lparr>cb_intent_hash = pb_intent_hash pb, cb_post_generation = st_generation fresh,
                          cb_post_root = store_root (co_codec co) fresh, cb_post_entries = store_entries fresh,
                          cb_applied_row = the row, cb_physical = durability (st_store_id fresh), cb_recovered = recovered\<rparr>))
                        (\<lambda>_. and_then (finalize co intent_id) (\<lambda>_. ret True)) h n))"

subsection \<open>Recovery\<close>

definition recover_one :: "coordinator \<Rightarrow> string \<Rightarrow> unit run" where
  "recover_one co iid h n =
    (let recs = intent_binding iid (hm_journal h); row = applied iid (hm_store h)
     in case recs of
          [] \<Rightarrow> (h, n, Failed ''IndexError'')
        | first # _ \<Rightarrow>
            let ih = the (body_intent_hash (jr_body first)); lastk = jr_kind (last recs);
                resolve = (if row = None
                  then c1_append co (Kind ABORTED) iid (Aborted_Body ih ''E_STORAGE_COMMIT_NOT_DURABLE'')
                  else and_then (confirm_commit co iid True) (\<lambda>_. ret ()))
            in if lastk = Kind PREPARED then
                 (if row \<noteq> None then fail ''RecoveryError''
                  else c1_append co (Kind ABORTED) iid (Aborted_Body ih ''E_CRASH_BEFORE_STORAGE_TRANSACTION'')) h n
               else if lastk = COMMITTED_RECORD then finalize co iid h n
               else if lastk = Kind COMMITTING then
                 and_then (c1_append co (Kind COMMIT_UNCERTAIN) iid (Uncertain_Body ih ''E_OUTCOME_UNKNOWN_AFTER_CRASH'')) (\<lambda>_. resolve) h n
               else resolve h n)"

fun recover_each :: "coordinator \<Rightarrow> string list \<Rightarrow> (string \<times> c1_state \<times> c1_state) list run" where
  "recover_each co [] = ret []"
| "recover_each co (iid # iids) = (\<lambda>h n.
    case state_after (kinds iid (hm_journal h)) of
      None \<Rightarrow> (h, n, Failed ''IllegalTransition'')
    | Some before \<Rightarrow>
        if terminal before then recover_each co iids h n
        else and_then (recover_one co iid) (\<lambda>_ h1 n1.
          case state_after (kinds iid (hm_journal h1)) of
            None \<Rightarrow> (h1, n1, Failed ''IllegalTransition'')
          | Some after \<Rightarrow> and_then (recover_each co iids) (\<lambda>rep. ret ((iid, before, after) # rep)) h1 n1) h n)"

definition prepared_ids :: "jrecord list \<Rightarrow> string list" where
  "prepared_ids rs = rev (remdups (rev (map jr_intent_id (filter (\<lambda>r. jr_kind r = Kind PREPARED) rs))))"

definition recover :: "coordinator \<Rightarrow> (string \<times> c1_state \<times> c1_state) list run" where
  "recover co h n = recover_each co (prepared_ids (hm_journal h)) h n"

subsection \<open>Submission\<close>

definition execute :: "coordinator \<Rightarrow> intent signed \<Rightarrow> string \<Rightarrow> result run" where
  "execute co s intent_hash h n =
    (let c = co_codec co; p = sg_payload s; iid = it_intent_id p; pre = hm_store h
     in and_then (c1_append co (Kind PREPARED) iid (Prepared_Body
          \<lparr>pb_intent_hash = intent_hash, pb_signed_intent = s, pb_authority_kid = it_authority_kid p,
           pb_admitted_at = format_time (co_clock co 1), pb_store_id = st_store_id pre, pb_pre_generation = st_generation pre,
           pb_pre_root = store_root c pre, pb_pre_entries = store_entries pre,
           pb_payload_commitment = payload_commitment c (it_op p) (it_key p) (it_value p)\<rparr>))
        (\<lambda>_ h n. case upsert_txn c iid intent_hash (it_key p) (it_value p) (it_expected_generation p) (it_expected_root p) (hm_store h) of
            Precondition_Failed reason \<Rightarrow>
              and_then (c1_append co (Kind ABORTED) iid (Aborted_Body intent_hash reason)) (\<lambda>_. result_of iid False) h n
          | Integrity_Error \<Rightarrow> (h, n, Failed ''IntegrityError'')
          | Ready post \<Rightarrow>
              and_then (c1_append co (Kind COMMITTING) iid (Committing_Body intent_hash))
                (\<lambda>_. and_then (durable (\<lambda>h. h\<lparr>hm_store := post\<rparr>))
                  (\<lambda>_. and_then (confirm_commit co iid False) (\<lambda>_. result_of iid False))) h n) h n)"

definition precondition_refusal :: "c1 \<Rightarrow> intent \<Rightarrow> store \<Rightarrow> string option" where
  "precondition_refusal c p pre =
    (if st_generation pre \<noteq> it_expected_generation p then Some ''E_STALE_GENERATION''
     else if store_root c pre \<noteq> it_expected_root p then Some ''E_ROOT_MISMATCH''
     else None)"

fun intent_of :: "submission_payload signed \<Rightarrow> intent signed option" where
  "intent_of s = (case sg_payload s of
     Intent p \<Rightarrow> Some \<lparr>sg_alg = sg_alg s, sg_kid = sg_kid s, sg_payload = p, sg_sig = sg_sig s\<rparr> | Other _ _ \<Rightarrow> None)"

definition submit_locked :: "coordinator \<Rightarrow> submission \<Rightarrow> result run" where
  "submit_locked co sub h n =
    (let c = co_codec co; s = sb_signed sub; iid = (case payload_id (sg_payload s) of None \<Rightarrow> ''unknown'' | Some i \<Rightarrow> i);
         ih = payload_hash c (sg_payload s); bound = (if iid = ''unknown'' then [] else intent_binding iid (hm_journal h))
     in case bound of
          first # _ \<Rightarrow>
            if body_intent_hash (jr_body first) \<noteq> ih then reject co iid ih ''E_INTENT_CONFLICT'' h n
            else if \<not> verify_signed c payload_json s (co_authority_keys co) then reject co iid ih ''E_BAD_SIGNATURE'' h n
            else result_of iid True h n
        | [] \<Rightarrow>
            (case (admission co sub (hm_store h), intent_of s) of
               (Some reason, _) \<Rightarrow> reject co iid ih reason h n
             | (None, None) \<Rightarrow> (h, n, Failed ''TypeError'')
             | (None, Some si) \<Rightarrow>
                 (case precondition_refusal c (sg_payload si) (hm_store h) of
                    Some reason \<Rightarrow>
                      and_then (c1_append co (Kind PRECONDITION_REJECTED) iid (Precondition_Body (the ih) reason si
                         (st_generation (hm_store h)) (store_root c (hm_store h))))
                        (\<lambda>_. ret \<lparr>rs_intent_id = iid, rs_state = PRECONDITION_REJECTED, rs_reason = Some reason,
                           rs_certificate = None, rs_replayed = False\<rparr>) h n
                  | None \<Rightarrow> execute co si (the ih) h n)))"

definition submit :: "coordinator \<Rightarrow> submission \<Rightarrow> result run" where
  "submit co sub = and_then (recover co) (\<lambda>_. submit_locked co sub)"

subsection \<open>Setup and export\<close>

record trust_store =
  tr_authority_keys :: "string \<rightharpoonup> string"
  tr_finalizer_keys :: "string \<rightharpoonup> string"
  tr_witness_keys :: "string \<rightharpoonup> string"
  tr_eee_issuer_keys :: "string \<rightharpoonup> string"

definition init_home :: "c1 \<Rightarrow> string \<Rightarrow> string \<Rightarrow> string \<Rightarrow> (string \<times> string) list \<Rightarrow> (home \<times> trust_store) option" where
  "init_home c namespace store_id sk authority_keys =
    (if list_all (\<lambda>(kid, pub). map_option (key_id c) (unb64u pub) = Some kid) authority_keys
     then Some (\<lparr>hm_store = store_create namespace store_id, hm_journal = []\<rparr>,
       \<lparr>tr_authority_keys = map_of authority_keys,
        tr_finalizer_keys = [key_id c (c_public c sk) \<mapsto> b64encode (c_public c sk)], tr_witness_keys = Map.empty,
        tr_eee_issuer_keys = Map.empty\<rparr>)
     else None)"

definition coordinator_open :: "c1 \<Rightarrow> trust_store \<Rightarrow> string \<Rightarrow> (nat \<Rightarrow> time) \<Rightarrow> coordinator" where
  "coordinator_open c trust sk clock =
     \<lparr>co_codec = c, co_authority_keys = tr_authority_keys trust, co_finalizer_sk = sk,
      co_finalizer_kid = key_id c (c_public c sk), co_clock = clock\<rparr>"

definition make_intent :: "c1 \<Rightarrow> string \<Rightarrow> string \<Rightarrow> string \<Rightarrow> string \<Rightarrow> string \<Rightarrow> int \<Rightarrow> string \<Rightarrow> int \<Rightarrow> time \<Rightarrow> string \<Rightarrow> intent signed" where
  "make_intent c sk kid namespace key value expected_generation expected_root ttl_s now intent_id =
     canon_sign c intent_json
       \<lparr>it_protocol = INTENT_PROTOCOL, it_intent_id = intent_id, it_namespace = namespace, it_op = ''UPSERT'', it_key = key,
        it_value = value, it_expected_generation = expected_generation, it_expected_root = expected_root,
        it_issued_at = format_time now, it_expires_at = format_time (now + ttl_s * 1000000), it_authority_kid = kid\<rparr> sk kid"

text \<open>A checkpoint of the witness and the exported bundle.\<close>

record checkpoint =
  cp_protocol :: string
  cp_genesis_hash :: string
  cp_seq :: int
  cp_head_hash :: string
  cp_witnessed_at :: string
  cp_witness_kid :: string

record c1_bundle =
  bu_protocol :: string
  bu_intent_id :: string
  bu_journal :: "jrecord list"
  bu_certificate :: "certificate signed"
  bu_certificate_digest :: string
  bu_witness :: "(checkpoint signed \<times> jrecord list) option"

definition BUNDLE_PROTOCOL :: string where
  "BUNDLE_PROTOCOL = ''veklom.vdb.c1.bundle/v1''"

definition bundle_of :: "c1 \<Rightarrow> string \<Rightarrow> jrecord list \<Rightarrow> certificate signed \<Rightarrow> (checkpoint signed \<times> jrecord list) option \<Rightarrow> c1_bundle" where
  "bundle_of c intent_id journal cert w =
     \<lparr>bu_protocol = BUNDLE_PROTOCOL, bu_intent_id = intent_id, bu_journal = journal, bu_certificate = cert,
      bu_certificate_digest = canon_digest c (signed_json certificate_json cert), bu_witness = w\<rparr>"

definition export_bundle :: "c1 \<Rightarrow> string \<Rightarrow> checkpoint signed option \<Rightarrow> jrecord list \<Rightarrow> c1_bundle option" where
  "export_bundle c intent_id checkpoint rs =
    (case filter (\<lambda>r. jr_kind r = Kind FINALIZED) (for_intent intent_id rs) of
       [fin] \<Rightarrow>
         (case body_certificate (jr_body fin) of
            None \<Rightarrow> None
          | Some cert \<Rightarrow>
              (case checkpoint of
                 None \<Rightarrow> Some (bundle_of c intent_id (take (nat (jr_seq fin) + 1) rs) cert None)
               | Some cp \<Rightarrow>
                   let cp_seq = cp_seq (sg_payload cp)
                   in if \<not> (jr_seq fin \<le> cp_seq \<and> cp_seq < int (length rs)) then None
                      else Some (bundle_of c intent_id (take (nat (jr_seq fin) + 1) rs) cert
                        (Some (cp, drop (nat (jr_seq fin) + 1) (take (nat cp_seq + 1) rs))))))
     | _ \<Rightarrow> None)"

end
