(* ===== verification/Vdb_Recovery.thy ===== *)
theory Vdb_Recovery
  imports Vdb_Coordinator "HOL-Library.Multiset"
begin

text \<open>
  Crash safety of the coordinator. The specification is a ledger of authorized updates: the store of a
  home is what a list of admitted intents leaves when each is applied once to the empty store
  (\<open>store_of\<close>), and the journal tells of every intent how far it is (\<open>home_inv\<close>). The lemmas follow the
  code: a journal append, finality, commit confirmation, recovery and submission keep the invariant
  whichever durable write is the last one, never raise, and return within a number of writes
  (\<open>safe\<close>, in the style of weakest preconditions).
\<close>

subsection \<open>The specification\<close>

definition apply_intent :: "c1 \<Rightarrow> intent signed \<Rightarrow> store \<Rightarrow> store" where
  "apply_intent c s st =
    (let p = sg_payload s;
         post = st\<lparr>st_kv := upsert (it_key p) (it_value p) (st_kv st), st_generation := st_generation st + 1\<rparr>
     in post\<lparr>st_applied := st_applied post @ [\<lparr>ap_intent_id = it_intent_id p, ap_intent_hash = canon_digest c (intent_json p),
          ap_generation = st_generation post, ap_post_root = store_root c post\<rparr>]\<rparr>)"

definition store_of :: "c1 \<Rightarrow> string \<Rightarrow> string \<Rightarrow> intent signed list \<Rightarrow> store" where
  "store_of c ns sid hist = fold (apply_intent c) hist (store_create ns sid)"

abbreviation sid_of :: "intent signed \<Rightarrow> string" where
  "sid_of s \<equiv> it_intent_id (sg_payload s)"

definition ids :: "intent signed list \<Rightarrow> string set" where
  "ids hist = sid_of ` set hist"

definition admitted :: "coordinator \<Rightarrow> store \<Rightarrow> intent signed \<Rightarrow> bool" where
  "admitted co st s \<longleftrightarrow>
     verify_signed (co_codec co) intent_json s (co_authority_keys co) \<and> sg_kid s = it_authority_kid (sg_payload s) \<and>
     it_protocol (sg_payload s) = INTENT_PROTOCOL \<and> it_op (sg_payload s) = ''UPSERT'' \<and>
     it_namespace (sg_payload s) = st_namespace st \<and> it_expected_generation (sg_payload s) = st_generation st \<and>
     it_expected_root (sg_payload s) = store_root (co_codec co) st"

definition prepared_for :: "c1 \<Rightarrow> intent signed \<Rightarrow> store \<Rightarrow> string \<Rightarrow> prepared" where
  "prepared_for c s st at =
    (let p = sg_payload s
     in \<lparr>pb_intent_hash = canon_digest c (intent_json p), pb_signed_intent = s, pb_authority_kid = it_authority_kid p,
         pb_admitted_at = at, pb_store_id = st_store_id st, pb_pre_generation = st_generation st,
         pb_pre_root = store_root c st, pb_pre_entries = store_entries st,
         pb_payload_commitment = payload_commitment c (it_op p) (it_key p) (it_value p)\<rparr>)"

definition committed_for :: "c1 \<Rightarrow> intent signed \<Rightarrow> store \<Rightarrow> bool \<Rightarrow> committed" where
  "committed_for c s post r =
     \<lparr>cb_intent_hash = canon_digest c (intent_json (sg_payload s)), cb_post_generation = st_generation post,
      cb_post_root = store_root c post, cb_post_entries = store_entries post, cb_applied_row = last (st_applied post),
      cb_physical = durability (st_store_id post), cb_recovered = r\<rparr>"

fun legal_kinds :: "bool \<Rightarrow> bool \<Rightarrow> kind list set" where
  "legal_kinds False False = {[Kind PREPARED, Kind ABORTED], [Kind PREPARED, Kind COMMITTING, Kind COMMIT_UNCERTAIN, Kind ABORTED]}"
| "legal_kinds False True = {[Kind PREPARED], [Kind PREPARED, Kind COMMITTING], [Kind PREPARED, Kind COMMITTING, Kind COMMIT_UNCERTAIN]}"
| "legal_kinds True False = {[Kind PREPARED, Kind COMMITTING, COMMITTED_RECORD, Kind FINALIZED],
     [Kind PREPARED, Kind COMMITTING, Kind COMMIT_UNCERTAIN, COMMITTED_RECORD, Kind FINALIZED]}"
| "legal_kinds True True = {[Kind PREPARED, Kind COMMITTING], [Kind PREPARED, Kind COMMITTING, Kind COMMIT_UNCERTAIN],
     [Kind PREPARED, Kind COMMITTING, COMMITTED_RECORD], [Kind PREPARED, Kind COMMITTING, Kind COMMIT_UNCERTAIN, COMMITTED_RECORD]}"

definition bodies_ok :: "coordinator \<Rightarrow> string \<Rightarrow> intent signed \<Rightarrow> store \<Rightarrow> jrecord list \<Rightarrow> bool" where
  "bodies_ok co iid s st rs \<longleftrightarrow>
     (\<exists>at. jr_body (hd rs) = Prepared_Body (prepared_for (co_codec co) s st at)) \<and>
     (\<forall>r \<in> set rs. body_intent_hash (jr_body r) = Some (canon_digest (co_codec co) (intent_json (sg_payload s)))) \<and>
     (\<forall>r \<in> set rs. jr_kind r = COMMITTED_RECORD \<longrightarrow>
        (\<exists>b. jr_body r = Committed_Body (committed_for (co_codec co) s (apply_intent (co_codec co) s st) b))) \<and>
     (\<forall>r \<in> set rs. jr_kind r = Kind FINALIZED \<longrightarrow>
        (\<exists>cert. final_certificate co iid rs = Some cert \<and>
           jr_body r = Finalized_Body (canon_digest (co_codec co) (intent_json (sg_payload s))) cert))"

definition intent_ok :: "coordinator \<Rightarrow> string \<Rightarrow> string \<Rightarrow> intent signed list \<Rightarrow> string option \<Rightarrow> string \<Rightarrow> jrecord list \<Rightarrow> bool" where
  "intent_ok co ns sid hist cur iid rs \<longleftrightarrow>
    (if rs = [] then iid \<notin> ids hist \<and> cur \<noteq> Some iid
     else \<exists>h1 s h2. hist = h1 @ (if iid \<in> ids hist then [s] else []) @ h2 \<and> (cur = Some iid \<longrightarrow> h2 = []) \<and> sid_of s = iid \<and>
       map jr_kind rs \<in> legal_kinds (iid \<in> ids hist) (cur = Some iid) \<and>
       admitted co (store_of (co_codec co) ns sid h1) s \<and> bodies_ok co iid s (store_of (co_codec co) ns sid h1) rs)"

definition home_inv :: "coordinator \<Rightarrow> string \<Rightarrow> string \<Rightarrow> intent signed list \<Rightarrow> string option \<Rightarrow> home \<Rightarrow> bool" where
  "home_inv co ns sid hist cur h \<longleftrightarrow>
     hm_store h = store_of (co_codec co) ns sid hist \<and> distinct (map sid_of hist) \<and>
     (\<forall>iid. intent_ok co ns sid hist cur iid (intent_binding iid (hm_journal h)))"

subsection \<open>The store of a history\<close>

lemma store_of_Nil [simp]: "store_of c ns sid [] = store_create ns sid"
  by (simp add: store_of_def)

lemma store_of_snoc [simp]: "store_of c ns sid (hist @ [s]) = apply_intent c s (store_of c ns sid hist)"
  by (simp add: store_of_def)

lemma ids_simps [simp]: "ids [] = {}" "ids (xs @ ys) = ids xs \<union> ids ys" "ids (s # xs) = insert (sid_of s) (ids xs)"
  by (auto simp: ids_def)

lemma apply_intent_simps [simp]:
  "st_namespace (apply_intent c s st) = st_namespace st"
  "st_store_id (apply_intent c s st) = st_store_id st"
  "st_generation (apply_intent c s st) = st_generation st + 1"
  "st_kv (apply_intent c s st) = upsert (it_key (sg_payload s)) (it_value (sg_payload s)) (st_kv st)"
  by (simp_all add: apply_intent_def Let_def)

lemma store_root_applied [simp]: "store_root c (st\<lparr>st_applied := xs\<rparr>) = store_root c st"
  by (simp add: store_root_def store_entries_def)

lemma apply_intent_applied:
  "st_applied (apply_intent c s st) = st_applied st @ [\<lparr>ap_intent_id = sid_of s,
     ap_intent_hash = canon_digest c (intent_json (sg_payload s)), ap_generation = st_generation st + 1,
     ap_post_root = store_root c (apply_intent c s st)\<rparr>]"
  by (simp add: apply_intent_def Let_def)

lemma store_of_fixed [simp]:
  "st_namespace (store_of c ns sid hist) = ns" "st_store_id (store_of c ns sid hist) = sid"
  "st_generation (store_of c ns sid hist) = int (length hist)"
  by (induction hist rule: rev_induct) (simp_all add: store_create_def)

lemma store_of_ids: "ap_intent_id ` set (st_applied (store_of c ns sid hist)) = ids hist"
  by (induction hist rule: rev_induct) (auto simp: store_create_def apply_intent_applied)

lemma store_of_generations: "a \<in> set (st_applied (store_of c ns sid hist)) \<Longrightarrow> ap_generation a \<le> int (length hist)"
  by (induction hist rule: rev_induct) (auto simp: store_create_def apply_intent_applied)

lemma applied_None: "applied iid st = None \<longleftrightarrow> iid \<notin> ap_intent_id ` set (st_applied st)"
  by (auto simp: applied_def find_None_iff)

lemma applied_store_of: "applied iid (store_of c ns sid hist) = None \<longleftrightarrow> iid \<notin> ids hist"
  by (simp add: applied_None store_of_ids)

lemma find_append: "find P (xs @ ys) = (case find P xs of None \<Rightarrow> find P ys | Some x \<Rightarrow> Some x)"
  by (induction xs) auto

lemma applied_last:
  assumes "sid_of s \<notin> ids hist"
  shows "applied (sid_of s) (apply_intent c s (store_of c ns sid hist)) =
    Some (last (st_applied (apply_intent c s (store_of c ns sid hist))))"
proof -
  have "find (\<lambda>a. ap_intent_id a = sid_of s) (st_applied (store_of c ns sid hist)) = None"
    using assms applied_store_of [of "sid_of s"] by (simp add: applied_def)
  then show ?thesis by (simp add: applied_def apply_intent_applied find_append)
qed

lemma upsert_ready:
  assumes "sid_of s \<notin> ids hist" "admitted co (store_of (co_codec co) ns sid hist) s"
  shows "upsert_txn (co_codec co) (sid_of s) (canon_digest (co_codec co) (intent_json (sg_payload s))) (it_key (sg_payload s))
    (it_value (sg_payload s)) (it_expected_generation (sg_payload s)) (it_expected_root (sg_payload s))
    (store_of (co_codec co) ns sid hist) = Ready (apply_intent (co_codec co) s (store_of (co_codec co) ns sid hist))"
proof -
  let ?st = "store_of (co_codec co) ns sid hist"
  have a: "applied (sid_of s) ?st = None" using assms(1) by (simp add: applied_store_of)
  have g: "\<not> list_ex (\<lambda>a. ap_generation a = st_generation ?st + 1) (st_applied ?st)"
    using store_of_generations [of _ "co_codec co" ns sid hist] by (fastforce simp: list_ex_iff)
  show ?thesis using assms(2) a g by (simp add: upsert_txn_def admitted_def apply_intent_def Let_def)
qed

lemma sort_filter_sort: "sort (filter P (sort xs) @ ys) = sort (filter P xs @ ys)" for xs :: "'a::linorder list"
  by (rule properties_for_sort) simp_all

lemma no_problems:
  assumes "sid_of s \<notin> ids hist" and st: "st = store_of c ns sid hist"
  shows "read_problems c (prepared_for c s st at) (applied (sid_of s) (apply_intent c s st)) (apply_intent c s st) = []"
  unfolding st applied_last [OF assms(1)]
  by (simp add: read_problems_def prepared_for_def Let_def apply_intent_applied store_entries_def upsert_def sort_filter_sort)

subsection \<open>Replay of the kinds\<close>

lemma state_of_legal:
  "ks \<in> legal_kinds False False \<Longrightarrow> state_after ks = Some ABORTED"
  "ks \<in> legal_kinds True False \<Longrightarrow> state_after ks = Some FINALIZED"
  by (auto simp: state_after_def Let_def)

lemma state_of_open:
  "ks \<in> legal_kinds b True \<Longrightarrow> \<exists>s. state_after ks = Some s \<and> \<not> terminal s"
  by (cases b) (auto simp: state_after_def Let_def terminal_def)

lemma terminal_ends [simp]: "terminal FINALIZED" "terminal ABORTED"
  by (simp_all add: terminal_def)

subsection \<open>Runs that stay safe\<close>

text \<open>
  From \<open>h\<close> the run never raises; it returns with \<open>Q\<close>, or dies in a home where \<open>I\<close> holds; and it does not
  die when it may make \<open>k\<close> durable writes.
\<close>

definition safe :: "(home \<Rightarrow> bool) \<Rightarrow> nat \<Rightarrow> 'a run \<Rightarrow> home \<Rightarrow> ('a \<Rightarrow> home \<Rightarrow> bool) \<Rightarrow> bool" where
  "safe I k m h Q \<longleftrightarrow> (\<forall>n. case m h n of
     (h', n', Done x) \<Rightarrow> Q x h' \<and> n \<le> n' + k
   | (h', n', Crashed) \<Rightarrow> I h' \<and> n < k
   | (h', n', Failed e) \<Rightarrow> False)"

lemma safe_cong: "(\<And>n. m h n = m' h n) \<Longrightarrow> safe I k m h Q = safe I k m' h Q"
  by (simp add: safe_def)

lemma safeD: "safe I k m h Q \<Longrightarrow> case m h n of (h', n', Done x) \<Rightarrow> Q x h' \<and> n \<le> n' + k | (h', n', Crashed) \<Rightarrow> I h' \<and> n < k
   | (h', n', Failed e) \<Rightarrow> False"
  by (simp add: safe_def)

lemma safe_ret [intro]: "Q x h \<Longrightarrow> safe I k (ret x) h Q"
  by (simp add: safe_def ret_def)

lemma safe_mono:
  assumes "safe I k m h Q" "k \<le> k'" "\<And>h. I h \<Longrightarrow> I' h" "\<And>x h. Q x h \<Longrightarrow> Q' x h"
  shows "safe I' k' m h Q'"
  unfolding safe_def
proof
  fix n
  obtain h' n' r where m: "m h n = (h', n', r)" using prod_cases3 by blast
  have "case m h n of (h', n', Done x) \<Rightarrow> Q x h' \<and> n \<le> n' + k | (h', n', Crashed) \<Rightarrow> I h' \<and> n < k | (h', n', Failed e) \<Rightarrow> False"
    using assms(1) by (simp add: safe_def)
  then show "case m h n of (h', n', Done x) \<Rightarrow> Q' x h' \<and> n \<le> n' + k' | (h', n', Crashed) \<Rightarrow> I' h' \<and> n < k' | (h', n', Failed e) \<Rightarrow> False"
    using assms(2-4) by (cases r) (auto simp: m)
qed

lemma safe_le: "safe I k m h Q \<Longrightarrow> k \<le> k' \<Longrightarrow> safe I k' m h Q"
  by (rule safe_mono)

lemma safe_and_then:
  assumes "safe I k1 m h (\<lambda>x h'. safe I k2 (f x) h' Q)"
  shows "safe I (k1 + k2) (and_then m f) h Q"
  unfolding safe_def
proof
  fix n
  obtain h1 n1 r where m: "m h n = (h1, n1, r)" using prod_cases3 by blast
  have a: "case m h n of (h', n', Done x) \<Rightarrow> safe I k2 (f x) h' Q \<and> n \<le> n' + k1 | (h', n', Crashed) \<Rightarrow> I h' \<and> n < k1
      | (h', n', Failed e) \<Rightarrow> False"
    by (rule safeD [OF assms])
  show "case and_then m f h n of (h', n', Done x) \<Rightarrow> Q x h' \<and> n \<le> n' + (k1 + k2) | (h', n', Crashed) \<Rightarrow> I h' \<and> n < k1 + k2
      | (h', n', Failed e) \<Rightarrow> False"
  proof (cases r)
    case (Done x)
    obtain h2 n2 r2 where f: "f x h1 n1 = (h2, n2, r2)" using prod_cases3 by blast
    have "case f x h1 n1 of (h', n', Done x) \<Rightarrow> Q x h' \<and> n1 \<le> n' + k2 | (h', n', Crashed) \<Rightarrow> I h' \<and> n1 < k2 | (h', n', Failed e) \<Rightarrow> False"
      using a by (simp add: m Done safe_def)
    then show ?thesis using a by (cases r2) (auto simp: and_then_def m Done f)
  qed (use a in \<open>auto simp: and_then_def m\<close>)
qed

lemma safe_durable: "I h \<Longrightarrow> Q () (f h) \<Longrightarrow> safe I 1 (durable f) h Q"
  by (auto simp: safe_def durable_def split: nat.split)

lemma safe_Done: "safe I k m h Q \<Longrightarrow> k \<le> n \<Longrightarrow> \<exists>h' n' x. m h n = (h', n', Done x) \<and> Q x h'"
  unfolding safe_def by (drule spec [of _ n]) (auto split: prod.splits outcome.splits)

lemma safe_run:
  assumes "safe I k m h Q" "m h n = (h', n', r)" "\<And>x. Q x h' \<Longrightarrow> r = Done x \<Longrightarrow> I h'"
  shows "I h' \<and> (\<forall>e. r \<noteq> Failed e)"
  using assms(1)[unfolded safe_def, rule_format, of n] assms(2,3) by (cases r) auto

subsection \<open>The journal\<close>

definition jput :: "coordinator \<Rightarrow> kind \<Rightarrow> string \<Rightarrow> body \<Rightarrow> home \<Rightarrow> home" where
  "jput co k iid b h = h\<lparr>hm_journal := hm_journal h @
     [new_record (co_codec co) k iid b (format_time (co_clock co (length (hm_journal h) + 2))) (hm_journal h)]\<rparr>"

lemma safe_append:
  assumes "I h" "Q () (jput co k iid b h)" "binding_kind k \<Longrightarrow> state_after (kinds iid (hm_journal h) @ [k]) \<noteq> None"
  shows "safe I 1 (c1_append co k iid b) h Q"
proof -
  have "c1_append co k iid b h n = durable (jput co k iid b) h n" for n
    using assms(3) by (auto simp: c1_append_def durable_def jput_def split: nat.split)
  then have "safe I 1 (c1_append co k iid b) h Q = safe I 1 (durable (jput co k iid b)) h Q" by (rule safe_cong)
  then show ?thesis using safe_durable [of I h Q "jput co k iid b"] assms(1,2) by blast
qed

lemma new_record_simps [simp]:
  "jr_kind (new_record c k iid b at rs) = k" "jr_intent_id (new_record c k iid b at rs) = iid"
  "jr_body (new_record c k iid b at rs) = b" "jr_seq (new_record c k iid b at rs) = int (length rs)"
  by (simp_all add: new_record_def Let_def)

lemma jput_store [simp]: "hm_store (jput co k iid b h) = hm_store h"
  by (simp add: jput_def)

lemma jput_other: "\<not> (iid' = iid \<and> binding_kind k) \<Longrightarrow>
  intent_binding iid' (hm_journal (jput co k iid b h)) = intent_binding iid' (hm_journal h)"
  by (auto simp: jput_def intent_binding_def for_intent_def)

lemma jput_same:
  assumes "binding_kind k"
  obtains r where "intent_binding iid (hm_journal (jput co k iid b h)) = intent_binding iid (hm_journal h) @ [r]"
    "jr_kind r = k" "jr_body r = b" "intent_binding iid [r] = [r]"
  using assms by (auto simp: jput_def intent_binding_def for_intent_def)

lemma binding_again [simp]: "intent_binding iid (intent_binding iid rs) = intent_binding iid rs"
  by (auto simp: intent_binding_def for_intent_def intro!: filter_cong)

lemma final_certificate_binding: "final_certificate co iid (intent_binding iid rs) = final_certificate co iid rs"
  by (simp add: final_certificate_def)

lemma kinds_binding: "kinds iid rs = map jr_kind (intent_binding iid rs)"
  by (simp add: kinds_def)

lemma binding_kind_simps [simp]:
  "binding_kind (Kind PREPARED)" "binding_kind (Kind COMMITTING)" "binding_kind (Kind COMMIT_UNCERTAIN)"
  "binding_kind COMMITTED_RECORD" "binding_kind (Kind FINALIZED)" "binding_kind (Kind ABORTED)"
  "\<not> binding_kind (Kind ADMISSION_REJECTED)" "\<not> binding_kind (Kind PRECONDITION_REJECTED)"
  by (simp_all add: binding_kind_def)

lemma binding_append: "intent_binding iid (rs @ rs') = intent_binding iid rs @ intent_binding iid rs'"
  by (simp add: intent_binding_def for_intent_def)

lemma cert_ready:
  assumes rs: "rs = intent_binding iid js" and b: "bodies_ok co iid s st rs" and m: "COMMITTED_RECORD \<in> jr_kind ` set rs"
  obtains prep pb cm cb where "rs \<noteq> []" "prep = hd rs" "jr_body prep = Prepared_Body pb" "cm \<in> set rs" "jr_kind cm = COMMITTED_RECORD"
    "jr_body cm = Committed_Body cb"
    "\<And>rs'. intent_binding iid rs' = rs' \<Longrightarrow> final_certificate co iid (rs @ rs') =
       Some (canon_sign (co_codec co) certificate_json (certificate_of iid (co_finalizer_kid co) prep pb cm cb)
         (co_finalizer_sk co) (co_finalizer_kid co))"
proof -
  obtain prep rest where r: "rs = prep # rest" using m by (cases rs) auto
  obtain pb where pb: "jr_body prep = Prepared_Body pb" using b by (auto simp: bodies_ok_def r)
  obtain cm where f: "find (\<lambda>r. jr_kind r = COMMITTED_RECORD) rs = Some cm"
    using m by (cases "find (\<lambda>r. jr_kind r = COMMITTED_RECORD) rs") (auto simp: find_None_iff)
  then have cm: "cm \<in> set rs" "jr_kind cm = COMMITTED_RECORD" by (auto simp: find_Some_iff)
  then obtain cb where cb: "jr_body cm = Committed_Body cb" using b by (auto simp: bodies_ok_def)
  have fc: "final_certificate co iid (rs @ rs') =
     Some (canon_sign (co_codec co) certificate_json (certificate_of iid (co_finalizer_kid co) prep pb cm cb)
       (co_finalizer_sk co) (co_finalizer_kid co))" if "intent_binding iid rs' = rs'" for rs'
  proof -
    have br: "intent_binding iid (rs @ rs') = prep # rest @ rs'" using that binding_append [of iid rs rs'] rs r by simp
    have "find (\<lambda>r. jr_kind r = COMMITTED_RECORD) (prep # rest @ rs') = Some cm"
      using f find_append [of "\<lambda>r. jr_kind r = COMMITTED_RECORD" rs rs'] by (simp add: r)
    then show ?thesis by (simp add: final_certificate_def br pb cb)
  qed
  show thesis by (rule that [OF _ _ pb cm cb fc]) (simp_all add: r)
qed

text \<open>Whatever a run does, the journal only grows, and its records stay chained and well typed.\<close>

definition chained :: "c1 \<Rightarrow> jrecord list \<Rightarrow> bool" where
  "chained c rs \<longleftrightarrow> (\<forall>i < length rs. chain_ok c (int i) (last_hash (take i rs)) (rs ! i))"

lemma chained_snoc: "chained c (rs @ [r]) \<longleftrightarrow> chained c rs \<and> chain_ok c (int (length rs)) (last_hash rs) r"
  by (auto simp: chained_def nth_append less_Suc_eq)

lemma new_record_chain: "chain_ok c (int (length rs)) (last_hash rs) (new_record c k iid b at rs)"
  by (simp add: chain_ok_def new_record_def Let_def record_hash_def record_members_def)

fun body_typed :: "kind \<Rightarrow> body \<Rightarrow> bool" where
  "body_typed (Kind ADMISSION_REJECTED) (Admission_Body _ _) = True"
| "body_typed (Kind PRECONDITION_REJECTED) (Precondition_Body _ _ _ _ _) = True"
| "body_typed (Kind PREPARED) (Prepared_Body _) = True"
| "body_typed (Kind COMMITTING) (Committing_Body _) = True"
| "body_typed (Kind COMMIT_UNCERTAIN) (Uncertain_Body _ _) = True"
| "body_typed COMMITTED_RECORD (Committed_Body _) = True"
| "body_typed (Kind FINALIZED) (Finalized_Body _ _) = True"
| "body_typed (Kind ABORTED) (Aborted_Body _ _) = True"
| "body_typed _ _ = False"

definition well_typed :: "jrecord list \<Rightarrow> bool" where
  "well_typed rs \<longleftrightarrow> list_all (\<lambda>r. body_typed (jr_kind r) (jr_body r)) rs"

definition extends :: "c1 \<Rightarrow> home \<Rightarrow> home \<Rightarrow> bool" where
  "extends c h h' \<longleftrightarrow> (\<exists>rs. hm_journal h' = hm_journal h @ rs) \<and> (chained c (hm_journal h) \<longrightarrow> chained c (hm_journal h')) \<and>
     (well_typed (hm_journal h) \<longrightarrow> well_typed (hm_journal h'))"

definition grows :: "coordinator \<Rightarrow> 'a run \<Rightarrow> bool" where
  "grows co m \<longleftrightarrow> (\<forall>h n. extends (co_codec co) h (fst (m h n)))"

named_theorems growing
named_theorems extending

lemma extends_refl [simp]: "extends c h h"
  by (simp add: extends_def)

lemma extends_trans: "extends c h h' \<Longrightarrow> extends c h' h'' \<Longrightarrow> extends c h h''"
  by (auto simp: extends_def)

lemma extends_jput: "body_typed k b \<Longrightarrow> extends (co_codec co) h (jput co k iid b h)"
  by (simp add: extends_def jput_def chained_snoc new_record_chain well_typed_def)

lemma extends_store [simp]: "extends c h (h\<lparr>hm_store := st\<rparr>)"
  by (simp add: extends_def)

lemma growsD: "grows co m \<Longrightarrow> extends (co_codec co) h (fst (m h n))"
  by (simp add: grows_def)

lemma grows_id [growing]: "grows co (ret x)" "grows co (fail e)"
  by (simp_all add: grows_def ret_def fail_def)

lemma grows_and_then [growing]:
  assumes "grows co m" "\<And>x. grows co (f x)"
  shows "grows co (and_then m f)"
  unfolding grows_def
proof (intro allI)
  fix h n
  obtain h1 n1 r where m: "m h n = (h1, n1, r)" using prod_cases3 by blast
  have 1: "extends (co_codec co) h h1" using growsD [OF assms(1), of h n] m by simp
  show "extends (co_codec co) h (fst (and_then m f h n))"
  proof (cases r)
    case (Done x)
    then show ?thesis using extends_trans [OF 1 growsD [OF assms(2)]] by (simp add: and_then_def m)
  qed (use 1 in \<open>simp_all add: and_then_def m\<close>)
qed

lemma grows_record [growing]: "body_typed k b \<Longrightarrow> grows co (c1_append co k iid b)"
  using extends_jput [of k b co _ iid]
  by (auto simp: grows_def c1_append_def durable_def jput_def split: nat.split)

lemma grows_commit [growing]: "grows co (durable (\<lambda>h. h\<lparr>hm_store := post\<rparr>))"
  by (simp add: grows_def durable_def split: nat.split)

lemmas extends_basic [extending] = growsD [OF grows_id(1)] growsD [OF grows_id(2)] growsD [OF grows_and_then]
  growsD [OF grows_record] growsD [OF grows_commit]

lemma grows_finalize [growing]: "grows co (finalize co iid)"
  unfolding grows_def finalize_def by (auto split: option.split intro!: extending growing)

lemma grows_result_of [growing]: "grows co (result_of iid r)"
  unfolding grows_def result_of_def by (auto simp: Let_def split: option.split)

lemma grows_reject [growing]: "grows co (reject co iid ih reason)"
  unfolding reject_def by (intro growing) simp

lemma grows_confirm [growing]: "grows co (confirm_commit co iid r)"
  unfolding grows_def confirm_commit_def by (auto simp: Let_def split: list.split option.split intro!: extending growing)

lemmas extends_calls [extending] = growsD [OF grows_finalize] growsD [OF grows_result_of] growsD [OF grows_reject] growsD [OF grows_confirm]

lemma grows_recover_one [growing]: "grows co (recover_one co iid)"
  unfolding grows_def recover_one_def by (auto simp: Let_def split: list.split intro!: extending growing)

lemma grows_recover_each [growing]: "grows co (recover_each co iids)"
proof (induction iids)
  case (Cons iid iids)
  have "grows co (\<lambda>h1 n1. case state_after (kinds iid (hm_journal h1)) of None \<Rightarrow> (h1, n1, Failed ''IllegalTransition'')
      | Some after \<Rightarrow> and_then (recover_each co iids) (\<lambda>rep. ret ((iid, before, after) # rep)) h1 n1)" for before
    unfolding grows_def using Cons by (auto split: option.split intro!: extending growing Cons)
  then have "grows co (and_then (recover_one co iid) (\<lambda>_ h1 n1. case state_after (kinds iid (hm_journal h1)) of
      None \<Rightarrow> (h1, n1, Failed ''IllegalTransition'')
    | Some after \<Rightarrow> and_then (recover_each co iids) (\<lambda>rep. ret ((iid, before, after) # rep)) h1 n1))" for before
    by (intro grows_and_then grows_recover_one)
  then show ?case using Cons unfolding grows_def by (auto split: option.split)
qed (simp add: growing)

lemma grows_recover [growing]: "grows co (recover co)"
  unfolding grows_def recover_def by (simp add: growsD [OF grows_recover_each])

lemma grows_execute [growing]: "grows co (execute co s ih)"
proof -
  have k: "grows co (\<lambda>h n. case upsert_txn c iid ih' k v g r (hm_store h) of
      Precondition_Failed reason \<Rightarrow> and_then (c1_append co (Kind ABORTED) iid (Aborted_Body ih reason)) (\<lambda>_. result_of iid False) h n
    | Integrity_Error \<Rightarrow> (h, n, Failed ''IntegrityError'')
    | Ready post \<Rightarrow> and_then (c1_append co (Kind COMMITTING) iid (Committing_Body ih))
        (\<lambda>_. and_then (durable (\<lambda>h. h\<lparr>hm_store := post\<rparr>))
          (\<lambda>_. and_then (confirm_commit co iid False) (\<lambda>_. result_of iid False))) h n)" for c iid ih' k v g r
    unfolding grows_def by (auto split: upsert_result.split intro!: extending growing)
  show ?thesis unfolding grows_def execute_def Let_def
    by (intro allI growsD [where co = co] grows_and_then grows_record k) simp
qed

lemma grows_submit [growing]: "grows co (submit co sub)"
proof -
  have "grows co (submit_locked co sub)"
    unfolding grows_def submit_locked_def Let_def
    by (auto split: list.split option.split intro!: extending growing growsD [OF grows_execute])
  then show ?thesis unfolding submit_def by (intro growing)
qed

subsection \<open>Steps of the invariant\<close>

lemma intent_okI:
  assumes "rs \<noteq> []" "hist = h1 @ (if iid \<in> ids hist then [s] else [])" "sid_of s = iid"
    "map jr_kind rs \<in> legal_kinds (iid \<in> ids hist) (cur = Some iid)"
    "admitted co (store_of (co_codec co) ns sid h1) s" "bodies_ok co iid s (store_of (co_codec co) ns sid h1) rs"
  shows "intent_ok co ns sid hist cur iid rs"
proof -
  have "\<exists>h1 s h2. hist = h1 @ (if iid \<in> ids hist then [s] else []) @ h2 \<and> (cur = Some iid \<longrightarrow> h2 = []) \<and> sid_of s = iid \<and>
       map jr_kind rs \<in> legal_kinds (iid \<in> ids hist) (cur = Some iid) \<and>
       admitted co (store_of (co_codec co) ns sid h1) s \<and> bodies_ok co iid s (store_of (co_codec co) ns sid h1) rs"
    by (rule exI [of _ h1], rule exI [of _ s], rule exI [of _ "[]"]) (use assms(2-) in simp)
  then show ?thesis using assms(1) by (simp add: intent_ok_def)
qed

lemma intent_ok_other: "iid' \<noteq> iid \<Longrightarrow> cur \<in> {None, Some iid} \<Longrightarrow> cur' \<in> {None, Some iid} \<Longrightarrow>
  intent_ok co ns sid hist cur iid' rs = intent_ok co ns sid hist cur' iid' rs"
proof -
  assume a: "iid' \<noteq> iid" "cur \<in> {None, Some iid}" "cur' \<in> {None, Some iid}"
  then have "(cur = Some iid') = False" "(cur' = Some iid') = False" by auto
  then show ?thesis unfolding intent_ok_def by (simp only:)
qed

lemma inv_put:
  assumes "home_inv co ns sid hist cur h" "cur \<in> {None, Some iid}" "cur' \<in> {None, Some iid}" "binding_kind k"
    and "\<And>r. jr_kind r = k \<Longrightarrow> jr_body r = b \<Longrightarrow> intent_binding iid [r] = [r] \<Longrightarrow>
      intent_ok co ns sid hist cur' iid (intent_binding iid (hm_journal h) @ [r])"
  shows "home_inv co ns sid hist cur' (jput co k iid b h)"
proof -
  obtain r where r: "intent_binding iid (hm_journal (jput co k iid b h)) = intent_binding iid (hm_journal h) @ [r]"
    "jr_kind r = k" "jr_body r = b" "intent_binding iid [r] = [r]" using jput_same [OF assms(4)] by metis
  have "intent_ok co ns sid hist cur' iid' (intent_binding iid' (hm_journal (jput co k iid b h)))" for iid'
  proof (cases "iid' = iid")
    case False
    have "intent_ok co ns sid hist cur iid' (intent_binding iid' (hm_journal h))" using assms(1) by (simp add: home_inv_def)
    then show ?thesis using intent_ok_other [OF False assms(2,3)] jput_other [of iid' iid k co b h] False by simp
  qed (simp add: r(1) assms(5) [OF r(2-4)])
  then show ?thesis using assms(1) by (simp add: home_inv_def)
qed

lemma inv_put_plain:
  "home_inv co ns sid hist cur h \<Longrightarrow> \<not> binding_kind k \<Longrightarrow> home_inv co ns sid hist cur (jput co k iid b h)"
  by (simp add: home_inv_def jput_other)

lemma open_intent:
  assumes "home_inv co ns sid hist (Some iid) h"
  obtains h1 s at rs where "rs = intent_binding iid (hm_journal h)" "rs \<noteq> []" "hist = h1 @ (if iid \<in> ids hist then [s] else [])"
    "sid_of s = iid" "map jr_kind rs \<in> legal_kinds (iid \<in> ids hist) True"
    "admitted co (store_of (co_codec co) ns sid h1) s" "bodies_ok co iid s (store_of (co_codec co) ns sid h1) rs"
    "jr_body (hd rs) = Prepared_Body (prepared_for (co_codec co) s (store_of (co_codec co) ns sid h1) at)"
    "hm_store h = store_of (co_codec co) ns sid hist" "iid \<notin> ids h1"
proof -
  define rs where "rs = intent_binding iid (hm_journal h)"
  have ok: "intent_ok co ns sid hist (Some iid) iid rs" and st: "hm_store h = store_of (co_codec co) ns sid hist"
    and d: "distinct (map sid_of hist)" using assms by (auto simp: home_inv_def rs_def)
  then have ne: "rs \<noteq> []" by (auto simp: intent_ok_def)
  obtain h1 s where h: "hist = h1 @ (if iid \<in> ids hist then [s] else [])" "sid_of s = iid"
    "map jr_kind rs \<in> legal_kinds (iid \<in> ids hist) True"
    "admitted co (store_of (co_codec co) ns sid h1) s" "bodies_ok co iid s (store_of (co_codec co) ns sid h1) rs"
    using ok ne unfolding intent_ok_def by auto
  obtain at where at: "jr_body (hd rs) = Prepared_Body (prepared_for (co_codec co) s (store_of (co_codec co) ns sid h1) at)"
    using h(5) by (auto simp: bodies_ok_def)
  have n: "iid \<notin> ids h1"
  proof (cases "iid \<in> ids hist")
    case True
    then have "distinct (map sid_of (h1 @ [s]))" using h(1) d by simp
    then show ?thesis using h(2) by (auto simp: ids_def)
  qed (use h(1) in auto)
  show thesis by (rule that [OF rs_def ne h at st n])
qed

lemma bodies_snoc:
  assumes "bodies_ok co iid s st rs" "rs \<noteq> []" "Kind FINALIZED \<notin> jr_kind ` set rs"
    "body_intent_hash (jr_body r) = Some (canon_digest (co_codec co) (intent_json (sg_payload s)))"
    "jr_kind r = COMMITTED_RECORD \<Longrightarrow> \<exists>b. jr_body r = Committed_Body (committed_for (co_codec co) s (apply_intent (co_codec co) s st) b)"
    "jr_kind r = Kind FINALIZED \<Longrightarrow> \<exists>cert. final_certificate co iid (rs @ [r]) = Some cert \<and>
       jr_body r = Finalized_Body (canon_digest (co_codec co) (intent_json (sg_payload s))) cert"
  shows "bodies_ok co iid s st (rs @ [r])"
  using assms unfolding bodies_ok_def by (auto simp: image_iff)

lemma open_not_final: "map jr_kind rs \<in> legal_kinds b True \<Longrightarrow> Kind FINALIZED \<notin> jr_kind ` set rs"
proof
  assume a: "map jr_kind rs \<in> legal_kinds b True" and "Kind FINALIZED \<in> jr_kind ` set rs"
  then have "Kind FINALIZED \<in> set (map jr_kind rs)" by simp
  with a show False by (cases b) auto
qed

lemma inv_advance:
  assumes inv: "home_inv co ns sid hist (Some iid) h" and k: "binding_kind k" "k \<noteq> Kind FINALIZED" and cur: "cur' \<in> {None, Some iid}"
    and legal: "kinds iid (hm_journal h) @ [k] \<in> legal_kinds (iid \<in> ids hist) (cur' = Some iid)"
    and hash: "body_intent_hash b = body_intent_hash (jr_body (hd (intent_binding iid (hm_journal h))))"
    and comm: "k = COMMITTED_RECORD \<Longrightarrow> iid \<in> ids hist \<and> (\<exists>r. b = Committed_Body (committed_for (co_codec co) (last hist) (hm_store h) r))"
  shows "home_inv co ns sid hist cur' (jput co k iid b h)"
proof -
  obtain h1 s at rs where o: "rs = intent_binding iid (hm_journal h)" "rs \<noteq> []" "hist = h1 @ (if iid \<in> ids hist then [s] else [])"
    "sid_of s = iid" "map jr_kind rs \<in> legal_kinds (iid \<in> ids hist) True"
    "admitted co (store_of (co_codec co) ns sid h1) s" "bodies_ok co iid s (store_of (co_codec co) ns sid h1) rs"
    "jr_body (hd rs) = Prepared_Body (prepared_for (co_codec co) s (store_of (co_codec co) ns sid h1) at)"
    "hm_store h = store_of (co_codec co) ns sid hist"
    by (rule open_intent [OF inv])
  show ?thesis
  proof (rule inv_put [OF inv _ cur k(1)])
    fix r :: jrecord assume r: "jr_kind r = k" "jr_body r = b"
    have "bodies_ok co iid s (store_of (co_codec co) ns sid h1) (rs @ [r])"
    proof (rule bodies_snoc [OF o(7,2) open_not_final [OF o(5)]])
      show "body_intent_hash (jr_body r) = Some (canon_digest (co_codec co) (intent_json (sg_payload s)))"
        using hash o(1,8) r(2) by (simp add: prepared_for_def Let_def)
      assume "jr_kind r = COMMITTED_RECORD"
      then obtain r' where c: "iid \<in> ids hist" "b = Committed_Body (committed_for (co_codec co) (last hist) (hm_store h) r')"
        using comm r(1) by blast
      have h: "hist = h1 @ [s]" using o(3) c(1) by simp
      show "\<exists>b. jr_body r = Committed_Body (committed_for (co_codec co) s (apply_intent (co_codec co) s (store_of (co_codec co) ns sid h1)) b)"
        using c(2) r(2) unfolding o(9) h by auto
    qed (use k r in simp)
    moreover have "map jr_kind (rs @ [r]) \<in> legal_kinds (iid \<in> ids hist) (cur' = Some iid)"
      using legal r(1) o(1) by (simp add: kinds_binding)
    ultimately show "intent_ok co ns sid hist cur' iid (intent_binding iid (hm_journal h) @ [r])"
      using o(1) by (intro intent_okI [OF _ o(3,4) _ o(6)]) simp_all
  qed simp
qed

subsection \<open>Finality and recovery\<close>

lemma finalize_safe:
  assumes inv: "home_inv co ns sid hist (Some iid) h" and I: "I h"
    and m: "COMMITTED_RECORD \<in> jr_kind ` set (intent_binding iid (hm_journal h))"
  shows "safe I 1 (finalize co iid) h (\<lambda>_ h'. home_inv co ns sid hist None h')"
proof -
  obtain h1 s at rs where o: "rs = intent_binding iid (hm_journal h)" "rs \<noteq> []" "hist = h1 @ (if iid \<in> ids hist then [s] else [])"
    "sid_of s = iid" "map jr_kind rs \<in> legal_kinds (iid \<in> ids hist) True"
    "admitted co (store_of (co_codec co) ns sid h1) s" "bodies_ok co iid s (store_of (co_codec co) ns sid h1) rs"
    "jr_body (hd rs) = Prepared_Body (prepared_for (co_codec co) s (store_of (co_codec co) ns sid h1) at)"
    by (rule open_intent [OF inv])
  have "COMMITTED_RECORD \<in> set (map jr_kind rs)" using m o(1) by simp
  then have a: "iid \<in> ids hist" and ks: "map jr_kind rs \<in> {[Kind PREPARED, Kind COMMITTING, COMMITTED_RECORD],
      [Kind PREPARED, Kind COMMITTING, Kind COMMIT_UNCERTAIN, COMMITTED_RECORD]}"
    using o(5) by (cases "iid \<in> ids hist"; auto)+
  have nf: "Kind FINALIZED \<notin> jr_kind ` set rs" by (rule open_not_final [OF o(5)])
  define ih where "ih = canon_digest (co_codec co) (intent_json (sg_payload s))"
  obtain prep pb cm cb where c: "prep = hd rs" "jr_body prep = Prepared_Body pb" and
    cert: "\<And>rs'. intent_binding iid rs' = rs' \<Longrightarrow> final_certificate co iid (rs @ rs') =
       Some (canon_sign (co_codec co) certificate_json (certificate_of iid (co_finalizer_kid co) prep pb cm cb)
         (co_finalizer_sk co) (co_finalizer_kid co))"
    using cert_ready [OF o(1,7), OF m [folded o(1)]] by metis
  let ?cert = "canon_sign (co_codec co) certificate_json (certificate_of iid (co_finalizer_kid co) prep pb cm cb)
    (co_finalizer_sk co) (co_finalizer_kid co)"
  have "pb_intent_hash pb = ih" using c o(8) by (auto simp: prepared_for_def Let_def ih_def)
  then have hash: "cf_intent_hash (sg_payload ?cert) = ih" by (simp add: canon_sign_def certificate_of_def Let_def)
  have fc: "final_certificate co iid (hm_journal h) = Some ?cert"
    using cert [of "[]"] o(1) final_certificate_binding [of co iid "hm_journal h"] by (simp add: intent_binding_def for_intent_def)
  have "safe I 1 (finalize co iid) h (\<lambda>_ h'. home_inv co ns sid hist None h') =
      safe I 1 (c1_append co (Kind FINALIZED) iid (Finalized_Body ih ?cert)) h (\<lambda>_ h'. home_inv co ns sid hist None h')"
    by (rule safe_cong) (simp only: finalize_def fc option.case hash)
  moreover have "safe I 1 (c1_append co (Kind FINALIZED) iid (Finalized_Body ih ?cert)) h (\<lambda>_ h'. home_inv co ns sid hist None h')"
  proof (rule safe_append)
    show "state_after (kinds iid (hm_journal h) @ [Kind FINALIZED]) \<noteq> None"
      using ks o(1) by (auto simp: kinds_binding state_after_def Let_def)
    show "home_inv co ns sid hist None (jput co (Kind FINALIZED) iid (Finalized_Body ih ?cert) h)"
    proof (rule inv_put [OF inv])
      fix r assume r: "jr_kind r = Kind FINALIZED" "jr_body r = Finalized_Body ih ?cert" "intent_binding iid [r] = [r]"
      have "bodies_ok co iid s (store_of (co_codec co) ns sid h1) (rs @ [r])"
        by (rule bodies_snoc [OF o(7,2) nf]) (simp_all add: r cert ih_def)
      moreover have "map jr_kind (rs @ [r]) \<in> legal_kinds (iid \<in> ids hist) (None = Some iid)" using ks a r(1) by auto
      ultimately show "intent_ok co ns sid hist None iid (intent_binding iid (hm_journal h) @ [r])"
        using o(1) by (intro intent_okI [OF _ o(3,4) _ o(6)]) simp_all
    qed simp_all
  qed (rule I)
  ultimately show ?thesis by simp
qed

lemma kinds_jput: "binding_kind k \<Longrightarrow> kinds iid (hm_journal (jput co k iid b h)) = kinds iid (hm_journal h) @ [k]"
  using jput_same [of k iid co b h] by (metis kinds_binding list.simps(8,9) map_append)

lemma hd_jput: "intent_binding iid (hm_journal h) \<noteq> [] \<Longrightarrow>
  hd (intent_binding iid (hm_journal (jput co k iid b h))) = hd (intent_binding iid (hm_journal h))"
  by (cases "binding_kind k") (metis hd_append2 jput_same, simp add: jput_other)

lemma confirm_safe:
  assumes inv: "home_inv co ns sid hist (Some iid) h" and a: "iid \<in> ids hist"
    and ks: "kinds iid (hm_journal h) \<in> {[Kind PREPARED, Kind COMMITTING], [Kind PREPARED, Kind COMMITTING, Kind COMMIT_UNCERTAIN]}"
    and I: "\<And>h' cur. home_inv co ns sid hist cur h' \<Longrightarrow> I h'"
  shows "safe I 2 (confirm_commit co iid r) h (\<lambda>_ h'. home_inv co ns sid hist None h')"
proof -
  obtain h1 s at rs where o: "rs = intent_binding iid (hm_journal h)" "rs \<noteq> []" "hist = h1 @ (if iid \<in> ids hist then [s] else [])"
    "sid_of s = iid" "map jr_kind rs \<in> legal_kinds (iid \<in> ids hist) True"
    "admitted co (store_of (co_codec co) ns sid h1) s" "bodies_ok co iid s (store_of (co_codec co) ns sid h1) rs"
    "jr_body (hd rs) = Prepared_Body (prepared_for (co_codec co) s (store_of (co_codec co) ns sid h1) at)"
    "hm_store h = store_of (co_codec co) ns sid hist" "iid \<notin> ids h1"
    by (rule open_intent [OF inv])
  let ?c = "co_codec co" and ?st = "store_of (co_codec co) ns sid h1"
  have hist: "hist = h1 @ [s]" using o(3) a by simp
  then have st: "hm_store h = apply_intent ?c s ?st" using o(9) by simp
  have np: "read_problems ?c (prepared_for ?c s ?st at) (applied iid (hm_store h)) (hm_store h) = []"
    using no_problems [of s h1 ?st ?c ns sid at] o(4,10) st by simp
  have row: "applied iid (hm_store h) = Some (last (st_applied (hm_store h)))"
    using applied_last [of s h1 ?c ns sid] o(4,10) st by simp
  let ?b = "Committed_Body (committed_for ?c s (hm_store h) r)"
  obtain prep rest where rs: "intent_binding iid (hm_journal h) = prep # rest" using o(1,2) by (cases "intent_binding iid (hm_journal h)") auto
  have "safe I 2 (confirm_commit co iid r) h (\<lambda>_ h'. home_inv co ns sid hist None h') =
      safe I 2 (and_then (c1_append co COMMITTED_RECORD iid ?b) (\<lambda>_. and_then (finalize co iid) (\<lambda>_. ret True))) h
        (\<lambda>_ h'. home_inv co ns sid hist None h')"
    by (rule safe_cong) (use o(1,8) rs np row in \<open>simp add: confirm_commit_def Let_def committed_for_def prepared_for_def\<close>)
  moreover have "safe I (1 + (1 + 0)) (and_then (c1_append co COMMITTED_RECORD iid ?b) (\<lambda>_. and_then (finalize co iid) (\<lambda>_. ret True))) h
        (\<lambda>_ h'. home_inv co ns sid hist None h')"
  proof (intro safe_and_then safe_append)
    show "I h" by (rule I [OF inv])
    show "state_after (kinds iid (hm_journal h) @ [COMMITTED_RECORD]) \<noteq> None" using ks by (auto simp: state_after_def Let_def)
    have inv': "home_inv co ns sid hist (Some iid) (jput co COMMITTED_RECORD iid ?b h)"
      by (rule inv_advance [OF inv])
        (use ks a hist rs o(1,8) in \<open>auto simp: committed_for_def prepared_for_def Let_def\<close>)
    have "COMMITTED_RECORD \<in> set (kinds iid (hm_journal (jput co COMMITTED_RECORD iid ?b h)))" by (simp add: kinds_jput)
    then have "safe I 1 (finalize co iid) (jput co COMMITTED_RECORD iid ?b h) (\<lambda>_ h'. home_inv co ns sid hist None h')"
      by (intro finalize_safe [of co ns sid hist iid _ I, OF inv' I [OF inv']]) (simp add: kinds_binding)
    then show "safe I 1 (finalize co iid) (jput co COMMITTED_RECORD iid ?b h)
        (\<lambda>x h'. safe I 0 (ret True) h' (\<lambda>_ h'. home_inv co ns sid hist None h'))"
      by (rule safe_mono) auto
  qed
  ultimately show ?thesis by (simp add: numeral_2_eq_2)
qed

lemma safe_uncertain:
  assumes inv: "home_inv co ns sid hist (Some iid) h" and I: "I h"
    and ks: "kinds iid (hm_journal h) = [Kind PREPARED, Kind COMMITTING]"
    and ih: "body_intent_hash (jr_body (hd (intent_binding iid (hm_journal h)))) = Some ih"
  shows "safe I 1 (c1_append co (Kind COMMIT_UNCERTAIN) iid (Uncertain_Body ih reason)) h
    (\<lambda>_ h'. home_inv co ns sid hist (Some iid) h' \<and> hm_store h' = hm_store h \<and>
       kinds iid (hm_journal h') = [Kind PREPARED, Kind COMMITTING, Kind COMMIT_UNCERTAIN] \<and>
       body_intent_hash (jr_body (hd (intent_binding iid (hm_journal h')))) = Some ih)"
proof (rule safe_append)
  have "intent_binding iid (hm_journal h) \<noteq> []" using ks by (auto simp: kinds_binding)
  moreover have "home_inv co ns sid hist (Some iid) (jput co (Kind COMMIT_UNCERTAIN) iid (Uncertain_Body ih reason) h)"
    by (rule inv_advance [OF inv]) (use ks ih in \<open>cases "iid \<in> ids hist"; simp\<close>)+
  ultimately show "home_inv co ns sid hist (Some iid) (jput co (Kind COMMIT_UNCERTAIN) iid (Uncertain_Body ih reason) h) \<and>
      hm_store (jput co (Kind COMMIT_UNCERTAIN) iid (Uncertain_Body ih reason) h) = hm_store h \<and>
      kinds iid (hm_journal (jput co (Kind COMMIT_UNCERTAIN) iid (Uncertain_Body ih reason) h)) =
        [Kind PREPARED, Kind COMMITTING, Kind COMMIT_UNCERTAIN] \<and>
      body_intent_hash (jr_body (hd (intent_binding iid (hm_journal (jput co (Kind COMMIT_UNCERTAIN) iid (Uncertain_Body ih reason) h))))) = Some ih"
    using ks ih by (simp add: kinds_jput hd_jput)
qed (use ks I in \<open>simp_all add: state_after_def Let_def\<close>)

lemma safe_abort:
  assumes inv: "home_inv co ns sid hist (Some iid) h" and I: "I h" and a: "iid \<notin> ids hist"
    and ks: "kinds iid (hm_journal h) \<in> {[Kind PREPARED], [Kind PREPARED, Kind COMMITTING, Kind COMMIT_UNCERTAIN]}"
    and ih: "body_intent_hash (jr_body (hd (intent_binding iid (hm_journal h)))) = Some ih"
  shows "safe I 1 (c1_append co (Kind ABORTED) iid (Aborted_Body ih reason)) h (\<lambda>_ h'. home_inv co ns sid hist None h')"
proof (rule safe_append)
  show "home_inv co ns sid hist None (jput co (Kind ABORTED) iid (Aborted_Body ih reason) h)"
    by (rule inv_advance [OF inv]) (use ks ih a in auto)
qed (use ks I in \<open>auto simp: state_after_def Let_def\<close>)

lemma resolve_safe:
  assumes inv: "home_inv co ns sid hist (Some iid) h" and I: "\<And>h' cur. home_inv co ns sid hist cur h' \<Longrightarrow> I h'"
    and ks: "kinds iid (hm_journal h) = [Kind PREPARED, Kind COMMITTING, Kind COMMIT_UNCERTAIN]"
    and ih: "body_intent_hash (jr_body (hd (intent_binding iid (hm_journal h)))) = Some ih"
    and row: "row = applied iid (hm_store h)"
  shows "safe I 2 (if row = None then c1_append co (Kind ABORTED) iid (Aborted_Body ih ''E_STORAGE_COMMIT_NOT_DURABLE'')
     else and_then (confirm_commit co iid True) (\<lambda>_. ret ())) h (\<lambda>_ h'. home_inv co ns sid hist None h')"
proof -
  have st: "hm_store h = store_of (co_codec co) ns sid hist" using inv by (simp add: home_inv_def)
  show ?thesis
  proof (cases "row = None")
    case True
    then have "iid \<notin> ids hist" using row st by (simp add: applied_store_of)
    then have "safe I 1 (c1_append co (Kind ABORTED) iid (Aborted_Body ih ''E_STORAGE_COMMIT_NOT_DURABLE'')) h
        (\<lambda>_ h'. home_inv co ns sid hist None h')"
      by (intro safe_abort [of co ns sid hist iid h I, OF inv I [OF inv] _ _ ih]) (use ks in auto)
    then show ?thesis using True by (simp add: safe_le)
  next
    case False
    then have a: "iid \<in> ids hist" using row st by (metis applied_store_of)
    have "safe I (2 + 0) (and_then (confirm_commit co iid True) (\<lambda>_. ret ())) h (\<lambda>_ h'. home_inv co ns sid hist None h')"
      by (rule safe_and_then, rule safe_mono [OF confirm_safe [of co ns sid hist iid h I, OF inv a _ I]]) (use ks in \<open>simp_all add: safe_ret\<close>)
    then show ?thesis using False by auto
  qed
qed

lemma recover_one_safe:
  assumes inv: "home_inv co ns sid hist (Some iid) h" and I: "\<And>h' cur. home_inv co ns sid hist cur h' \<Longrightarrow> I h'"
  shows "safe I 3 (recover_one co iid) h (\<lambda>_ h'. home_inv co ns sid hist None h')"
proof -
  obtain h1 s at rs where o: "rs = intent_binding iid (hm_journal h)" "rs \<noteq> []" "hist = h1 @ (if iid \<in> ids hist then [s] else [])"
    "sid_of s = iid" "map jr_kind rs \<in> legal_kinds (iid \<in> ids hist) True"
    "admitted co (store_of (co_codec co) ns sid h1) s" "bodies_ok co iid s (store_of (co_codec co) ns sid h1) rs"
    "jr_body (hd rs) = Prepared_Body (prepared_for (co_codec co) s (store_of (co_codec co) ns sid h1) at)"
    "hm_store h = store_of (co_codec co) ns sid hist" "iid \<notin> ids h1"
    by (rule open_intent [OF inv])
  obtain first rest where rs: "intent_binding iid (hm_journal h) = first # rest"
    using o(1,2) by (cases "intent_binding iid (hm_journal h)") auto
  define ih where "ih = canon_digest (co_codec co) (intent_json (sg_payload s))"
  have ih: "body_intent_hash (jr_body first) = Some ih"
    using o(1,8) rs by (simp add: prepared_for_def Let_def ih_def)
  have ks: "kinds iid (hm_journal h) \<in> legal_kinds (iid \<in> ids hist) True" using o(1,5) by (simp add: kinds_binding)
  have lk: "jr_kind (last (first # rest)) = last (kinds iid (hm_journal h))" by (simp add: kinds_binding rs last_map)
  define row where "row = applied iid (hm_store h)"
  have app: "row = None \<longleftrightarrow> iid \<notin> ids hist" by (simp add: row_def o(9) applied_store_of)
  define resolve where "resolve = (if row = None then c1_append co (Kind ABORTED) iid (Aborted_Body ih ''E_STORAGE_COMMIT_NOT_DURABLE'')
     else and_then (confirm_commit co iid True) (\<lambda>_. ret ()))"
  define M where "M = (if last (kinds iid (hm_journal h)) = Kind PREPARED then
        (if row \<noteq> None then fail ''RecoveryError''
         else c1_append co (Kind ABORTED) iid (Aborted_Body ih ''E_CRASH_BEFORE_STORAGE_TRANSACTION''))
      else if last (kinds iid (hm_journal h)) = COMMITTED_RECORD then finalize co iid
      else if last (kinds iid (hm_journal h)) = Kind COMMITTING then
        and_then (c1_append co (Kind COMMIT_UNCERTAIN) iid (Uncertain_Body ih ''E_OUTCOME_UNKNOWN_AFTER_CRASH'')) (\<lambda>_. resolve)
      else resolve)"
  have unf: "recover_one co iid h n = M h n" for n
    by (simp only: recover_one_def Let_def rs list.case lk ih option.sel row_def [symmetric] resolve_def M_def if_distribR)
  note sc = safe_cong [of "recover_one co iid" h M, OF unf]
  consider (p) "kinds iid (hm_journal h) = [Kind PREPARED]" "iid \<notin> ids hist" | (c) "kinds iid (hm_journal h) = [Kind PREPARED, Kind COMMITTING]"
    | (u) "kinds iid (hm_journal h) = [Kind PREPARED, Kind COMMITTING, Kind COMMIT_UNCERTAIN]"
    | (m) "last (kinds iid (hm_journal h)) = COMMITTED_RECORD" "kinds iid (hm_journal h) \<noteq> []"
    using ks by (cases "iid \<in> ids hist") auto
  then show ?thesis
  proof cases
    case p
    have "safe I 1 (c1_append co (Kind ABORTED) iid (Aborted_Body ih ''E_CRASH_BEFORE_STORAGE_TRANSACTION'')) h
        (\<lambda>_ h'. home_inv co ns sid hist None h')"
      by (rule safe_abort [of co ns sid hist iid h I, OF inv I [OF inv] p(2)]) (use p ih rs in auto)
    moreover have "M = c1_append co (Kind ABORTED) iid (Aborted_Body ih ''E_CRASH_BEFORE_STORAGE_TRANSACTION'')"
      using p app by (simp add: M_def)
    ultimately show ?thesis unfolding sc by (simp add: safe_le)
  next
    case c
    have "safe I (1 + 2) (and_then (c1_append co (Kind COMMIT_UNCERTAIN) iid (Uncertain_Body ih ''E_OUTCOME_UNKNOWN_AFTER_CRASH'')) (\<lambda>_. resolve)) h
        (\<lambda>_ h'. home_inv co ns sid hist None h')"
    proof (rule safe_and_then, rule safe_mono [OF safe_uncertain [of co ns sid hist iid h I ih, OF inv I [OF inv] c]])
      fix x h'
      assume "home_inv co ns sid hist (Some iid) h' \<and> hm_store h' = hm_store h \<and>
       kinds iid (hm_journal h') = [Kind PREPARED, Kind COMMITTING, Kind COMMIT_UNCERTAIN] \<and>
       body_intent_hash (jr_body (hd (intent_binding iid (hm_journal h')))) = Some ih"
      then show "safe I 2 resolve h' (\<lambda>_ h'. home_inv co ns sid hist None h')"
        unfolding resolve_def by (intro resolve_safe [of co ns sid hist iid h' I ih row] I) (simp_all add: row_def)
    qed (use ih rs in simp_all)
    moreover have "M = and_then (c1_append co (Kind COMMIT_UNCERTAIN) iid (Uncertain_Body ih ''E_OUTCOME_UNKNOWN_AFTER_CRASH'')) (\<lambda>_. resolve)"
      using c by (simp add: M_def)
    ultimately show ?thesis unfolding sc by (simp add: numeral_3_eq_3)
  next
    case u
    have "safe I 2 resolve h (\<lambda>_ h'. home_inv co ns sid hist None h')"
      unfolding resolve_def by (rule resolve_safe [of co ns sid hist iid h I, OF inv I u _ row_def]) (use ih rs in simp_all)
    moreover have "M = resolve" using u by (simp add: M_def)
    ultimately show ?thesis unfolding sc by (simp add: safe_le)
  next
    case m
    have "COMMITTED_RECORD \<in> set (kinds iid (hm_journal h))" using m by (metis last_in_set)
    then have "safe I 1 (finalize co iid) h (\<lambda>_ h'. home_inv co ns sid hist None h')"
      by (intro finalize_safe [of co ns sid hist iid h I, OF inv I [OF inv]]) (simp add: kinds_binding)
    moreover have "M = finalize co iid" using m by (simp add: M_def)
    ultimately show ?thesis unfolding sc by (simp add: safe_le)
  qed
qed

end
