(* ===== verification/Vdb_Ledger.thy ===== *)
theory Vdb_Ledger
  imports Vdb_Recovery
begin

text \<open>
  Submissions and recovery as steps of a ledger. The lemmas of \<^emph>\<open>Vdb_Recovery\<close> are put together for
  \<open>recover\<close> and \<open>submit\<close>, and the store is abstracted to a map with a generation and the set of intents
  that took effect: whatever happens, a run is no step or one step of that ledger.
\<close>

subsection \<open>Recovery\<close>

lemma closed_intent:
  assumes "home_inv co ns sid hist cur h" "cur \<noteq> Some iid" "intent_binding iid (hm_journal h) \<noteq> []"
  shows "kinds iid (hm_journal h) \<in> legal_kinds (iid \<in> ids hist) False"
proof -
  have "intent_ok co ns sid hist cur iid (intent_binding iid (hm_journal h))" using assms(1) by (simp add: home_inv_def)
  then show ?thesis using assms(2,3) unfolding intent_ok_def kinds_binding by auto
qed

lemma closed_state:
  assumes "home_inv co ns sid hist cur h" "cur \<noteq> Some iid" "intent_binding iid (hm_journal h) \<noteq> []"
  shows "state_after (kinds iid (hm_journal h)) = Some (if iid \<in> ids hist then FINALIZED else ABORTED)"
  using closed_intent [OF assms] state_of_legal by (cases "iid \<in> ids hist") simp_all

lemma idle_each:
  assumes "home_inv co ns sid hist None h" "\<forall>i \<in> set iids. intent_binding i (hm_journal h) \<noteq> []"
  shows "recover_each co iids h n = (h, n, Done [])"
  using assms(2)
proof (induction iids)
  case (Cons i iids)
  then show ?case using closed_state [OF assms(1), of i] by simp
qed (simp add: ret_def)

lemma safe_extends:
  assumes "safe I k m h Q" "grows co m"
  shows "safe I k m h (\<lambda>x h'. Q x h' \<and> extends (co_codec co) h h')"
  unfolding safe_def
proof
  fix n
  show "case m h n of (h', n', Done x) \<Rightarrow> (Q x h' \<and> extends (co_codec co) h h') \<and> n \<le> n' + k | (h', n', Crashed) \<Rightarrow> I h' \<and> n < k
      | (h', n', Failed e) \<Rightarrow> False"
    using safeD [OF assms(1), of n] growsD [OF assms(2), of h n] by (auto split: prod.splits outcome.splits)
qed

lemma extends_binding: "extends c h h' \<Longrightarrow> intent_binding i (hm_journal h) \<noteq> [] \<Longrightarrow> intent_binding i (hm_journal h') \<noteq> []"
  by (auto simp: extends_def binding_append)

lemma recover_each_safe:
  assumes I: "\<And>h' cur. home_inv co ns sid hist cur h' \<Longrightarrow> I h'" and inv: "home_inv co ns sid hist (Some iid) h"
    and iids: "iid \<in> set iids" "\<forall>i \<in> set iids. intent_binding i (hm_journal h) \<noteq> []"
  shows "safe I 3 (recover_each co iids) h (\<lambda>_ h'. home_inv co ns sid hist None h')"
  using iids
proof (induction iids)
  case (Cons i iids)
  show ?case
  proof (cases "i = iid")
    case False
    then have "state_after (kinds i (hm_journal h)) = Some (if i \<in> ids hist then FINALIZED else ABORTED)"
      using Cons.prems by (intro closed_state [OF inv]) auto
    then have "recover_each co (i # iids) h n = recover_each co iids h n" for n by simp
    then have "safe I 3 (recover_each co (i # iids)) h (\<lambda>_ h'. home_inv co ns sid hist None h') =
        safe I 3 (recover_each co iids) h (\<lambda>_ h'. home_inv co ns sid hist None h')" by (rule safe_cong)
    then show ?thesis using Cons False by simp
  next
    case True
    have "intent_ok co ns sid hist (Some iid) iid (intent_binding iid (hm_journal h))" using inv by (simp add: home_inv_def)
    then have "kinds iid (hm_journal h) \<in> legal_kinds (iid \<in> ids hist) True"
      using Cons.prems True unfolding intent_ok_def kinds_binding by auto
    then obtain before where b: "state_after (kinds iid (hm_journal h)) = Some before" "\<not> terminal before"
      using state_of_open by blast
    let ?k = "\<lambda>_ h1 n1. case state_after (kinds iid (hm_journal h1)) of None \<Rightarrow> (h1, n1, Failed ''IllegalTransition'')
        | Some after \<Rightarrow> and_then (recover_each co iids) (\<lambda>rep. ret ((iid, before, after) # rep)) h1 n1"
    have k: "safe I 0 (?k x) h' (\<lambda>_ h'. home_inv co ns sid hist None h')"
      if h': "home_inv co ns sid hist None h' \<and> extends (co_codec co) h h'" for x and h'
    proof -
      have ne: "\<forall>i \<in> set iids. intent_binding i (hm_journal h') \<noteq> []"
        using Cons.prems(2) extends_binding h' by (metis list.set_intros(2))
      have ne': "intent_binding iid (hm_journal h') \<noteq> []"
        using Cons.prems(2) True extends_binding h' by (metis list.set_intros(1))
      show ?thesis using closed_state [of co ns sid hist None h' iid] idle_each [of co ns sid hist h' iids] h' ne ne'
        by (simp add: safe_def and_then_def ret_def)
    qed
    have "safe I (3 + 0) (and_then (recover_one co iid) ?k) h (\<lambda>_ h'. home_inv co ns sid hist None h')"
      by (rule safe_and_then, rule safe_mono [OF safe_extends [OF recover_one_safe [of co ns sid hist iid h I, OF inv I] grows_recover_one]])
        (auto intro: k)
    moreover have "recover_each co (i # iids) h n = and_then (recover_one co iid) ?k h n" for n
      using b True by simp
    ultimately show ?thesis using safe_cong [of "recover_each co (i # iids)" h "and_then (recover_one co iid) ?k"] by simp
  qed
qed simp

lemma prepared_ids_set: "i \<in> set (prepared_ids js) \<longleftrightarrow> (\<exists>r \<in> set js. jr_kind r = Kind PREPARED \<and> jr_intent_id r = i)"
  by (auto simp: prepared_ids_def)

lemma prepared_ids_bound: "i \<in> set (prepared_ids js) \<Longrightarrow> intent_binding i js \<noteq> []"
  by (force simp: prepared_ids_set intent_binding_def for_intent_def filter_empty_conv)

lemma open_prepared:
  assumes "home_inv co ns sid hist (Some iid) h"
  shows "iid \<in> set (prepared_ids (hm_journal h))"
proof -
  obtain h1 s at rs where o: "rs = intent_binding iid (hm_journal h)" "rs \<noteq> []" "hist = h1 @ (if iid \<in> ids hist then [s] else [])"
    "sid_of s = iid" "map jr_kind rs \<in> legal_kinds (iid \<in> ids hist) True"
    "admitted co (store_of (co_codec co) ns sid h1) s" "bodies_ok co iid s (store_of (co_codec co) ns sid h1) rs"
    "jr_body (hd rs) = Prepared_Body (prepared_for (co_codec co) s (store_of (co_codec co) ns sid h1) at)"
    "hm_store h = store_of (co_codec co) ns sid hist" "iid \<notin> ids h1"
    by (rule open_intent [OF assms])
  have "hd (map jr_kind rs) = Kind PREPARED" using o(5) by (cases "iid \<in> ids hist") auto
  then have "jr_kind (hd rs) = Kind PREPARED" using o(2) by (simp add: hd_map)
  moreover have "hd rs \<in> set rs" using o(2) by simp
  then have "hd rs \<in> set (hm_journal h) \<and> jr_intent_id (hd rs) = iid" using o(1) by (auto simp: intent_binding_def for_intent_def)
  ultimately show ?thesis by (auto simp: prepared_ids_set)
qed

lemma recover_safe:
  assumes inv: "home_inv co ns sid hist cur h" and I: "\<And>h' cur. home_inv co ns sid hist cur h' \<Longrightarrow> I h'"
  shows "safe I 3 (recover co) h (\<lambda>_ h'. home_inv co ns sid hist None h')"
proof -
  have bound: "\<forall>i \<in> set (prepared_ids (hm_journal h)). intent_binding i (hm_journal h) \<noteq> []" by (simp add: prepared_ids_bound)
  have "safe I 3 (recover_each co (prepared_ids (hm_journal h))) h (\<lambda>_ h'. home_inv co ns sid hist None h')"
  proof (cases cur)
    case None
    then show ?thesis using idle_each [OF _ bound] inv by (simp add: safe_def)
  next
    case (Some iid)
    show ?thesis by (rule recover_each_safe [of co ns sid hist I iid, OF I]) (use inv Some open_prepared bound in auto)
  qed
  then show ?thesis using safe_cong [of "recover co" h "recover_each co (prepared_ids (hm_journal h))"] by (simp add: recover_def)
qed

subsection \<open>Submission\<close>

definition moved :: "coordinator \<Rightarrow> string \<Rightarrow> string \<Rightarrow> submission \<Rightarrow> intent signed list \<Rightarrow> intent signed list \<Rightarrow> bool" where
  "moved co ns sid sub hist hist' \<longleftrightarrow> hist' = hist \<or>
     (\<exists>s. intent_of (sb_signed sub) = Some s \<and> hist' = hist @ [s] \<and> sid_of s \<notin> ids hist \<and>
        admission co sub (store_of (co_codec co) ns sid hist) = None \<and> admitted co (store_of (co_codec co) ns sid hist) s)"

text \<open>What a returned result says of the store and the journal.\<close>

definition truthful :: "coordinator \<Rightarrow> submission \<Rightarrow> intent signed list \<Rightarrow> intent signed list \<Rightarrow> result \<Rightarrow> home \<Rightarrow> bool" where
  "truthful co sub hist hist' r h \<longleftrightarrow>
    (case rs_state r of
       FINALIZED \<Rightarrow> payload_id (sg_payload (sb_signed sub)) = Some (rs_intent_id r) \<and>
         (\<exists>s \<in> set hist'. sid_of s = rs_intent_id r \<and>
            payload_hash (co_codec co) (sg_payload (sb_signed sub)) = Some (canon_digest (co_codec co) (intent_json (sg_payload s)))) \<and>
         rs_certificate r \<noteq> None \<and> rs_certificate r = final_certificate co (rs_intent_id r) (hm_journal h)
     | ABORTED \<Rightarrow> rs_intent_id r \<notin> ids hist' \<and> hist' = hist
     | PRECONDITION_REJECTED \<Rightarrow> rs_intent_id r \<notin> ids hist' \<and> hist' = hist
     | ADMISSION_REJECTED \<Rightarrow> hist' = hist
     | _ \<Rightarrow> False)"

lemma final_record:
  assumes inv: "home_inv co ns sid hist None h" and a: "iid \<in> ids hist"
  obtains s rs cert where "s \<in> set hist" "sid_of s = iid" "rs = intent_binding iid (hm_journal h)" "rs \<noteq> []"
    "final_certificate co iid (hm_journal h) = Some cert"
    "jr_body (last rs) = Finalized_Body (canon_digest (co_codec co) (intent_json (sg_payload s))) cert"
    "body_intent_hash (jr_body (hd rs)) = Some (canon_digest (co_codec co) (intent_json (sg_payload s)))"
proof -
  define rs where "rs = intent_binding iid (hm_journal h)"
  have ok: "intent_ok co ns sid hist None iid rs" using inv by (simp add: home_inv_def rs_def)
  then have ne: "rs \<noteq> []" using a by (auto simp: intent_ok_def)
  obtain h1 s h2 where h: "hist = h1 @ [s] @ h2" "sid_of s = iid" "map jr_kind rs \<in> legal_kinds True False"
    "bodies_ok co iid s (store_of (co_codec co) ns sid h1) rs"
    using ok ne a unfolding intent_ok_def by auto
  have "last (map jr_kind rs) = Kind FINALIZED" using h(3) by auto
  then have "jr_kind (last rs) = Kind FINALIZED" using ne by (simp add: last_map)
  then obtain cert where c: "final_certificate co iid rs = Some cert"
    "jr_body (last rs) = Finalized_Body (canon_digest (co_codec co) (intent_json (sg_payload s))) cert"
    using h(4) ne unfolding bodies_ok_def by (metis last_in_set)
  have hh: "body_intent_hash (jr_body (hd rs)) = Some (canon_digest (co_codec co) (intent_json (sg_payload s)))"
    using h(4) ne by (auto simp: bodies_ok_def)
  show thesis
    by (rule that [OF _ h(2) rs_def ne _ c(2) hh]) (use h(1) c(1) rs_def final_certificate_binding [of co iid "hm_journal h"] in auto)
qed

lemma result_of_settled:
  assumes inv: "home_inv co ns sid hist None h" and ne: "intent_binding iid (hm_journal h) \<noteq> []"
    and id: "payload_id (sg_payload (sb_signed sub)) = Some iid"
    and hash: "body_intent_hash (jr_body (hd (intent_binding iid (hm_journal h)))) = payload_hash (co_codec co) (sg_payload (sb_signed sub))"
  shows "safe I 0 (result_of iid b) h (\<lambda>r h'. h' = h \<and> rs_intent_id r = iid \<and> rs_replayed r = b \<and>
    rs_state r = (if iid \<in> ids hist then FINALIZED else ABORTED) \<and> (rs_state r = FINALIZED \<or> hist' = hist \<longrightarrow> truthful co sub hist' hist r h))"
proof (cases "iid \<in> ids hist")
  case True
  obtain s rs cert where f: "s \<in> set hist" "sid_of s = iid" "rs = intent_binding iid (hm_journal h)" "rs \<noteq> []"
    "final_certificate co iid (hm_journal h) = Some cert"
    "jr_body (last rs) = Finalized_Body (canon_digest (co_codec co) (intent_json (sg_payload s))) cert"
    "body_intent_hash (jr_body (hd rs)) = Some (canon_digest (co_codec co) (intent_json (sg_payload s)))"
    by (rule final_record [OF inv True])
  then show ?thesis using closed_state [OF inv _ ne] True hash id
    by (auto simp: safe_def result_of_def Let_def truthful_def)
next
  case False
  then show ?thesis using closed_state [OF inv _ ne] ne by (simp add: safe_def result_of_def Let_def truthful_def)
qed

lemma inv_prepare:
  assumes inv: "home_inv co ns sid hist None h" and new: "intent_binding (sid_of s) (hm_journal h) = []"
    and adm: "admitted co (hm_store h) s"
  shows "home_inv co ns sid hist (Some (sid_of s)) (jput co (Kind PREPARED) (sid_of s) (Prepared_Body (prepared_for (co_codec co) s (hm_store h) at)) h)"
proof (rule inv_put [OF inv])
  have st: "hm_store h = store_of (co_codec co) ns sid hist" using inv by (simp add: home_inv_def)
  have "intent_ok co ns sid hist None (sid_of s) []" using inv new by (metis home_inv_def)
  then have n: "sid_of s \<notin> ids hist" by (simp add: intent_ok_def)
  fix r :: jrecord assume r: "jr_kind r = Kind PREPARED" "jr_body r = Prepared_Body (prepared_for (co_codec co) s (hm_store h) at)"
  show "intent_ok co ns sid hist (Some (sid_of s)) (sid_of s) (intent_binding (sid_of s) (hm_journal h) @ [r])"
    by (rule intent_okI [of _ _ hist _ s])
      (use new n adm r in \<open>auto simp: bodies_ok_def prepared_for_def Let_def st [symmetric]\<close>)
qed simp_all

lemma intent_ok_later:
  assumes "intent_ok co ns sid hist cur iid rs" "iid \<noteq> sid_of s" "cur \<noteq> Some iid"
  shows "intent_ok co ns sid (hist @ [s]) cur iid rs"
proof (cases "rs = []")
  case True
  then show ?thesis using assms by (simp add: intent_ok_def)
next
  case False
  then obtain h1 s' h2 where h: "hist = h1 @ (if iid \<in> ids hist then [s'] else []) @ h2" "sid_of s' = iid"
    "map jr_kind rs \<in> legal_kinds (iid \<in> ids hist) (cur = Some iid)" "admitted co (store_of (co_codec co) ns sid h1) s'"
    "bodies_ok co iid s' (store_of (co_codec co) ns sid h1) rs"
    using assms(1) unfolding intent_ok_def by auto
  have m: "(iid \<in> ids (hist @ [s])) = (iid \<in> ids hist)" using assms(2) by simp
  have e: "hist @ [s] = h1 @ (if iid \<in> ids hist then [s'] else []) @ (h2 @ [s])" using arg_cong [OF h(1), of "\<lambda>xs. xs @ [s]"] by simp
  show ?thesis unfolding intent_ok_def m if_not_P [OF False]
    by (rule exI [of _ h1], rule exI [of _ s'], rule exI [of _ "h2 @ [s]"], intro conjI e h(2-5)) (simp add: assms(3))
qed

lemma inv_commit:
  assumes inv: "home_inv co ns sid hist (Some (sid_of s)) h" and ks: "kinds (sid_of s) (hm_journal h) = [Kind PREPARED, Kind COMMITTING]"
    and n: "sid_of s \<notin> ids hist"
    and b: "jr_body (hd (intent_binding (sid_of s) (hm_journal h))) = Prepared_Body (prepared_for (co_codec co) s st at)"
  shows "home_inv co ns sid (hist @ [s]) (Some (sid_of s)) (h\<lparr>hm_store := apply_intent (co_codec co) s (store_of (co_codec co) ns sid hist)\<rparr>)"
proof -
  obtain h1 s' at' rs where o: "rs = intent_binding (sid_of s) (hm_journal h)" "rs \<noteq> []"
    "hist = h1 @ (if sid_of s \<in> ids hist then [s'] else [])"
    "sid_of s' = sid_of s" "map jr_kind rs \<in> legal_kinds (sid_of s \<in> ids hist) True"
    "admitted co (store_of (co_codec co) ns sid h1) s'" "bodies_ok co (sid_of s) s' (store_of (co_codec co) ns sid h1) rs"
    "jr_body (hd rs) = Prepared_Body (prepared_for (co_codec co) s' (store_of (co_codec co) ns sid h1) at')"
    "hm_store h = store_of (co_codec co) ns sid hist" "sid_of s \<notin> ids h1"
    by (rule open_intent [OF inv])
  have "pb_signed_intent (prepared_for (co_codec co) s st at) = pb_signed_intent (prepared_for (co_codec co) s' (store_of (co_codec co) ns sid h1) at')"
    using b o(1,8) by simp
  then have s': "s' = s" by (simp add: prepared_for_def Let_def)
  have h1: "h1 = hist" using o(3) n by simp
  have "intent_ok co ns sid (hist @ [s]) (Some (sid_of s)) iid (intent_binding iid (hm_journal h))" for iid
  proof (cases "iid = sid_of s")
    case True
    then show ?thesis using o ks s' h1 n
      by (intro intent_okI [of _ _ hist _ s]) (auto simp: kinds_binding)
  next
    case False
    have ok: "intent_ok co ns sid hist (Some (sid_of s)) iid (intent_binding iid (hm_journal h))" using inv by (simp add: home_inv_def)
    then show ?thesis using False by (rule intent_ok_later) (use False in simp)
  qed
  moreover have "distinct (map sid_of (hist @ [s]))" using inv n by (auto simp: home_inv_def ids_def)
  ultimately show ?thesis by (simp add: home_inv_def)
qed

lemma final_hash:
  assumes inv: "home_inv co ns sid hist None h" and s: "s \<in> set hist"
  shows "intent_binding (sid_of s) (hm_journal h) \<noteq> []"
    "body_intent_hash (jr_body (hd (intent_binding (sid_of s) (hm_journal h)))) = Some (canon_digest (co_codec co) (intent_json (sg_payload s)))"
proof -
  have "sid_of s \<in> ids hist" using s by (auto simp: ids_def)
  then obtain s' rs cert where f: "s' \<in> set hist" "sid_of s' = sid_of s" "rs = intent_binding (sid_of s) (hm_journal h)" "rs \<noteq> []"
    "final_certificate co (sid_of s) (hm_journal h) = Some cert"
    "jr_body (last rs) = Finalized_Body (canon_digest (co_codec co) (intent_json (sg_payload s'))) cert"
    "body_intent_hash (jr_body (hd rs)) = Some (canon_digest (co_codec co) (intent_json (sg_payload s')))"
    by (rule final_record [OF inv])
  have "distinct (map sid_of hist)" using inv by (simp add: home_inv_def)
  then have "s' = s" using f(1,2) s by (auto simp: distinct_map dest: inj_onD)
  then show "intent_binding (sid_of s) (hm_journal h) \<noteq> []"
    "body_intent_hash (jr_body (hd (intent_binding (sid_of s) (hm_journal h)))) = Some (canon_digest (co_codec co) (intent_json (sg_payload s)))"
    using f by simp_all
qed

lemma commit_safe:
  assumes inv: "home_inv co ns sid hist (Some (sid_of s)) h" and ks: "kinds (sid_of s) (hm_journal h) = [Kind PREPARED]"
    and n: "sid_of s \<notin> ids hist"
    and b: "jr_body (hd (intent_binding (sid_of s) (hm_journal h))) = Prepared_Body (prepared_for (co_codec co) s st at)"
    and ih: "ih = canon_digest (co_codec co) (intent_json (sg_payload s))"
    and post: "post = apply_intent (co_codec co) s (store_of (co_codec co) ns sid hist)"
    and I: "\<And>h' cur. home_inv co ns sid hist cur h' \<Longrightarrow> I h'" and I': "\<And>h' cur. home_inv co ns sid (hist @ [s]) cur h' \<Longrightarrow> I h'"
    and k: "\<And>h'. home_inv co ns sid (hist @ [s]) None h' \<Longrightarrow> safe I 0 m h' Q"
  shows "safe I 4 (and_then (c1_append co (Kind COMMITTING) (sid_of s) (Committing_Body ih))
    (\<lambda>_. and_then (durable (\<lambda>h. h\<lparr>hm_store := post\<rparr>)) (\<lambda>_. and_then (confirm_commit co (sid_of s) False) (\<lambda>_. m)))) h Q"
proof -
  let ?h = "jput co (Kind COMMITTING) (sid_of s) (Committing_Body ih) h"
  have ne: "intent_binding (sid_of s) (hm_journal h) \<noteq> []" using ks by (auto simp: kinds_binding)
  have inv': "home_inv co ns sid hist (Some (sid_of s)) ?h"
    by (rule inv_advance [OF inv]) (use ks n b ih in \<open>auto simp: prepared_for_def Let_def\<close>)
  have ks': "kinds (sid_of s) (hm_journal ?h) = [Kind PREPARED, Kind COMMITTING]" using ks by (simp add: kinds_jput)
  have inv2: "home_inv co ns sid (hist @ [s]) (Some (sid_of s)) (?h\<lparr>hm_store := post\<rparr>)"
    unfolding post by (rule inv_commit [OF inv' ks' n, of st at]) (use b ne in \<open>simp add: hd_jput\<close>)
  have cf: "safe I (2 + 0) (and_then (confirm_commit co (sid_of s) False) (\<lambda>_. m)) (?h\<lparr>hm_store := post\<rparr>) Q"
    by (rule safe_and_then, rule safe_mono [OF confirm_safe [of co ns sid "hist @ [s]" "sid_of s" _ I, OF inv2 _ _ I']])
      (use ks' k in \<open>simp_all\<close>)
  have "safe I (1 + (1 + (2 + 0))) (and_then (c1_append co (Kind COMMITTING) (sid_of s) (Committing_Body ih))
    (\<lambda>_. and_then (durable (\<lambda>h. h\<lparr>hm_store := post\<rparr>)) (\<lambda>_. and_then (confirm_commit co (sid_of s) False) (\<lambda>_. m)))) h Q"
    by (rule safe_and_then, rule safe_append, rule I [OF inv], rule safe_and_then, rule safe_durable, rule I [OF inv'], rule cf)
      (simp add: ks state_after_def Let_def)
  then show ?thesis by (simp add: numeral_eq_Suc)
qed

lemma execute_safe:
  assumes inv: "home_inv co ns sid hist None h" and new: "intent_binding (sid_of s) (hm_journal h) = []"
    and adm: "admitted co (hm_store h) s" and ih: "ih = canon_digest (co_codec co) (intent_json (sg_payload s))"
    and id: "payload_id (sg_payload (sb_signed sub)) = Some (sid_of s)" and hash: "payload_hash (co_codec co) (sg_payload (sb_signed sub)) = Some ih"
    and I: "\<And>h' cur. home_inv co ns sid hist cur h' \<Longrightarrow> I h'" and I': "\<And>h' cur. home_inv co ns sid (hist @ [s]) cur h' \<Longrightarrow> I h'"
  shows "safe I 5 (execute co s ih) h (\<lambda>r h'. home_inv co ns sid (hist @ [s]) None h' \<and> rs_state r = FINALIZED \<and>
    truthful co sub hist (hist @ [s]) r h')"
    (is "safe I 5 _ h ?Q")
proof -
  let ?pb = "prepared_for (co_codec co) s (hm_store h) (format_time (co_clock co 1))"
  let ?h = "jput co (Kind PREPARED) (sid_of s) (Prepared_Body ?pb) h"
  have st: "hm_store h = store_of (co_codec co) ns sid hist" using inv by (simp add: home_inv_def)
  have "intent_ok co ns sid hist None (sid_of s) []" using inv new by (metis home_inv_def)
  then have n: "sid_of s \<notin> ids hist" by (simp add: intent_ok_def)
  let ?m = "and_then (c1_append co (Kind COMMITTING) (sid_of s) (Committing_Body ih))
    (\<lambda>_. and_then (durable (\<lambda>h. h\<lparr>hm_store := apply_intent (co_codec co) s (store_of (co_codec co) ns sid hist)\<rparr>))
      (\<lambda>_. and_then (confirm_commit co (sid_of s) False) (\<lambda>_. result_of (sid_of s) False)))"
  let ?k = "\<lambda>_ h n. case upsert_txn (co_codec co) (sid_of s) ih (it_key (sg_payload s)) (it_value (sg_payload s))
      (it_expected_generation (sg_payload s)) (it_expected_root (sg_payload s)) (hm_store h) of
        Precondition_Failed reason \<Rightarrow> and_then (c1_append co (Kind ABORTED) (sid_of s) (Aborted_Body ih reason)) (\<lambda>_. result_of (sid_of s) False) h n
      | Integrity_Error \<Rightarrow> (h, n, Failed ''IntegrityError'')
      | Ready post \<Rightarrow> and_then (c1_append co (Kind COMMITTING) (sid_of s) (Committing_Body ih))
          (\<lambda>_. and_then (durable (\<lambda>h. h\<lparr>hm_store := post\<rparr>))
            (\<lambda>_. and_then (confirm_commit co (sid_of s) False) (\<lambda>_. result_of (sid_of s) False))) h n"
  have inv1: "home_inv co ns sid hist (Some (sid_of s)) ?h" by (rule inv_prepare [OF inv new adm])
  have ks: "kinds (sid_of s) (hm_journal ?h) = [Kind PREPARED]" using new by (simp add: kinds_jput) (simp add: kinds_binding)
  have b: "jr_body (hd (intent_binding (sid_of s) (hm_journal ?h))) = Prepared_Body ?pb"
    using jput_same [of "Kind PREPARED" "sid_of s" co "Prepared_Body ?pb" h] new by (metis append_Nil binding_kind_simps(1) list.sel(1))
  have res: "safe I 0 (result_of (sid_of s) False) h' ?Q" if h': "home_inv co ns sid (hist @ [s]) None h'" for h'
  proof -
    have s: "s \<in> set (hist @ [s])" by simp
    show ?thesis
      by (rule safe_mono [OF result_of_settled [where sub = sub and hist' = hist and b = False, OF h' final_hash(1) [OF h' s] id]])
        (use final_hash(2) [OF h' s] hash ih h' in simp_all)
  qed
  have "?k () ?h m = ?m ?h m" for m
    using upsert_ready [of s hist co ns sid] n adm st ih by simp
  note kc = safe_cong [of "?k ()" ?h ?m, OF this]
  have kk: "safe I 4 (?k ()) ?h ?Q"
    unfolding kc by (rule commit_safe [of co ns sid hist s ?h, OF inv1 ks n b ih refl I I' res])
  have "safe I (1 + 4) (and_then (c1_append co (Kind PREPARED) (sid_of s) (Prepared_Body ?pb)) ?k) h ?Q"
    by (rule safe_and_then, rule safe_append, rule I [OF inv]) (use kk new in \<open>simp_all add: kinds_binding state_after_def Let_def\<close>)
  moreover have "execute co s ih h m = and_then (c1_append co (Kind PREPARED) (sid_of s) (Prepared_Body ?pb)) ?k h m" for m
    by (simp add: execute_def Let_def prepared_for_def ih [symmetric])
  ultimately show ?thesis
    using safe_cong [of "execute co s ih" h "and_then (c1_append co (Kind PREPARED) (sid_of s) (Prepared_Body ?pb)) ?k"] by simp
qed

lemma admission_passed:
  assumes "admission co sub st = None"
  obtains p issued expires where "sg_payload (sb_signed sub) = Intent p" "sb_exact sub" "uuid_ok (it_intent_id p)" "it_key p \<noteq> []"
    "canon_parse_time (co_codec co) (it_issued_at p) = Some issued" "canon_parse_time (co_codec co) (it_expires_at p) = Some expires"
    "it_protocol p = INTENT_PROTOCOL" "it_op p = ''UPSERT''" "it_namespace p = st_namespace st" "sg_kid (sb_signed sub) = it_authority_kid p"
    "verify_signed (co_codec co) payload_json (sb_signed sub) (co_authority_keys co)"
    "window_refusal (co_clock co 0) issued expires = None"
proof (cases "sg_payload (sb_signed sub)")
  case (Intent p)
  then show thesis using assms that
    by (auto simp: admission_def Let_def split: if_splits option.splits)
qed (use assms in \<open>simp add: admission_def Let_def\<close>)

lemma verify_intent: "sg_payload s = Intent p \<Longrightarrow> intent_of s = Some si \<Longrightarrow>
  verify_signed c payload_json s keys = verify_signed c intent_json si keys \<and> sg_payload si = p \<and> sg_kid si = sg_kid s"
  by (auto simp: verify_signed_def split: option.split)

lemma verify_encodable: "verify_signed c to_json s keys \<Longrightarrow> encodable (to_json (sg_payload s))"
  by (auto simp: verify_signed_def split: option.splits if_splits)

lemma unknown_not_uuid: "\<not> uuid_ok ''unknown''"
  by code_simp

lemma reject_safe:
  assumes inv: "home_inv co ns sid hist None h" and I: "I h"
  shows "safe I 1 (reject co iid ih reason) h (\<lambda>r h'. home_inv co ns sid hist None h' \<and> rs_state r = ADMISSION_REJECTED)"
proof -
  have "safe I (1 + 0) (reject co iid ih reason) h (\<lambda>r h'. home_inv co ns sid hist None h' \<and> rs_state r = ADMISSION_REJECTED)"
    unfolding reject_def
    by (rule safe_and_then, rule safe_append, rule I) (use inv_put_plain [OF inv] in \<open>auto intro!: safe_ret\<close>)
  then show ?thesis by simp
qed

lemma precondition_safe:
  assumes inv: "home_inv co ns sid hist None h" and I: "I h"
  shows "safe I 1 (and_then (c1_append co (Kind PRECONDITION_REJECTED) iid b) (\<lambda>_. ret r)) h (\<lambda>r' h'. r' = r \<and> home_inv co ns sid hist None h')"
proof -
  have "safe I (1 + 0) (and_then (c1_append co (Kind PRECONDITION_REJECTED) iid b) (\<lambda>_. ret r)) h
      (\<lambda>r' h'. r' = r \<and> home_inv co ns sid hist None h')"
    by (rule safe_and_then, rule safe_append, rule I) (use inv_put_plain [OF inv] in \<open>auto intro!: safe_ret\<close>)
  then show ?thesis by simp
qed

end
