(* ===== verification/Vdb_Guarantees.thy ===== *)
theory Vdb_Guarantees
  imports Vdb_Ledger
begin

text \<open>
  The guarantees of the coordinator. A home is reachable when it comes from \<open>init_home\<close> by submissions
  and recoveries, each with its own clock and each stopped after any number of durable writes. Every
  run refines the abstract ledger, recovery settles whatever a crash left, a returned result says what
  happened, and no intent takes effect or is finalized twice.
\<close>

subsection \<open>Every branch of a submission\<close>

abbreviation submit_post :: "coordinator \<Rightarrow> string \<Rightarrow> string \<Rightarrow> submission \<Rightarrow> intent signed list \<Rightarrow> result \<Rightarrow> home \<Rightarrow> bool" where
  "submit_post co ns sid sub hist r h \<equiv>
     \<exists>hist'. home_inv co ns sid hist' None h \<and> moved co ns sid sub hist hist' \<and> truthful co sub hist hist' r h"

lemma moved_refl [simp]: "moved co ns sid sub hist hist"
  by (simp add: moved_def)

lemma rejected_post:
  assumes "home_inv co ns sid hist None h" "I h"
  shows "safe I 5 (reject co iid ih reason) h (submit_post co ns sid sub hist)"
  by (rule safe_mono [OF reject_safe [of co ns sid hist h I, OF assms]]) (auto intro!: exI [of _ hist] simp: truthful_def)

lemma bound_safe:
  assumes inv: "home_inv co ns sid hist None h" and I: "I h"
    and id: "payload_id (sg_payload (sb_signed sub)) = Some iid" "iid \<noteq> ''unknown''"
    and bound: "intent_binding iid (hm_journal h) = first # rest"
  shows "safe I 5 (submit_locked co sub) h (submit_post co ns sid sub hist)"
proof -
  let ?ih = "payload_hash (co_codec co) (sg_payload (sb_signed sub))"
  define M where "M = (if body_intent_hash (jr_body first) \<noteq> ?ih then reject co iid ?ih ''E_INTENT_CONFLICT''
    else if \<not> verify_signed (co_codec co) payload_json (sb_signed sub) (co_authority_keys co) then reject co iid ?ih ''E_BAD_SIGNATURE''
    else result_of iid True)"
  have u: "submit_locked co sub h n = M h n" for n
    using id bound by (simp add: submit_locked_def Let_def M_def)
  have "safe I 5 (result_of iid True) h (submit_post co ns sid sub hist)" if "body_intent_hash (jr_body first) = ?ih"
  proof (rule safe_mono [OF result_of_settled [where sub = sub and hist' = hist and b = True and I = I, OF inv _ id(1)]])
    fix r h'
    assume "h' = h \<and> rs_intent_id r = iid \<and> rs_replayed r = True \<and> rs_state r = (if iid \<in> ids hist then FINALIZED else ABORTED) \<and>
      (rs_state r = FINALIZED \<or> hist = hist \<longrightarrow> truthful co sub hist hist r h)"
    then show "submit_post co ns sid sub hist r h'" using inv by (intro exI [of _ hist]) simp
  qed (use bound that in simp_all)
  then have "safe I 5 M h (submit_post co ns sid sub hist)"
    unfolding M_def using rejected_post [of co ns sid hist h I, OF inv I] by (simp split: if_split)
  then show ?thesis using safe_cong [of "submit_locked co sub" h M, OF u] by blast
qed

text \<open>An admitted submission of a new intent is refused for its precondition, or executed.\<close>

lemma submit_admitted:
  assumes adm: "admission co sub (hm_store h) = None"
    and new: "\<And>iid. payload_id (sg_payload (sb_signed sub)) = Some iid \<Longrightarrow> iid \<noteq> ''unknown'' \<Longrightarrow> intent_binding iid (hm_journal h) = []"
  obtains si ih where "intent_of (sb_signed sub) = Some si" "payload_id (sg_payload (sb_signed sub)) = Some (sid_of si)"
    "sid_of si \<noteq> ''unknown''" "payload_hash (co_codec co) (sg_payload (sb_signed sub)) = Some ih"
    "ih = canon_digest (co_codec co) (intent_json (sg_payload si))"
    "\<And>reason n. precondition_refusal (co_codec co) (sg_payload si) (hm_store h) = Some reason \<Longrightarrow> submit_locked co sub h n =
       and_then (c1_append co (Kind PRECONDITION_REJECTED) (sid_of si)
           (Precondition_Body ih reason si (st_generation (hm_store h)) (store_root (co_codec co) (hm_store h))))
         (\<lambda>_. ret \<lparr>rs_intent_id = sid_of si, rs_state = PRECONDITION_REJECTED, rs_reason = Some reason, rs_certificate = None,
            rs_replayed = False\<rparr>) h n"
    "\<And>n. precondition_refusal (co_codec co) (sg_payload si) (hm_store h) = None \<Longrightarrow> submit_locked co sub h n = execute co si ih h n"
    "precondition_refusal (co_codec co) (sg_payload si) (hm_store h) = None \<Longrightarrow> admitted co (hm_store h) si"
proof -
  obtain p issued expires where a: "sg_payload (sb_signed sub) = Intent p" "sb_exact sub" "uuid_ok (it_intent_id p)" "it_key p \<noteq> []"
    "canon_parse_time (co_codec co) (it_issued_at p) = Some issued" "canon_parse_time (co_codec co) (it_expires_at p) = Some expires"
    "it_protocol p = INTENT_PROTOCOL" "it_op p = ''UPSERT''" "it_namespace p = st_namespace (hm_store h)"
    "sg_kid (sb_signed sub) = it_authority_kid p"
    "verify_signed (co_codec co) payload_json (sb_signed sub) (co_authority_keys co)"
    "window_refusal (co_clock co 0) issued expires = None"
    by (rule admission_passed [OF adm])
  obtain si where si: "intent_of (sb_signed sub) = Some si" using a(1) by simp
  note v = verify_intent [OF a(1) si, of "co_codec co" "co_authority_keys co"]
  define ih where "ih = canon_digest (co_codec co) (intent_json p)"
  have ih: "payload_hash (co_codec co) (sg_payload (sb_signed sub)) = Some ih" using verify_encodable [OF a(11)] a(1) by (simp add: ih_def)
  have p: "sg_payload si = p" using v by simp
  have id: "payload_id (sg_payload (sb_signed sub)) = Some (sid_of si)" using a(1) p by simp
  have nu: "sid_of si \<noteq> ''unknown''" using a(3) p unknown_not_uuid by metis
  have b: "(if sid_of si = ''unknown'' then [] else intent_binding (sid_of si) (hm_journal h)) = []" using new [OF id nu] by simp
  have "submit_locked co sub h n = (case precondition_refusal (co_codec co) (sg_payload si) (hm_store h) of
      Some reason \<Rightarrow> and_then (c1_append co (Kind PRECONDITION_REJECTED) (sid_of si)
           (Precondition_Body ih reason si (st_generation (hm_store h)) (store_root (co_codec co) (hm_store h))))
         (\<lambda>_. ret \<lparr>rs_intent_id = sid_of si, rs_state = PRECONDITION_REJECTED, rs_reason = Some reason, rs_certificate = None,
            rs_replayed = False\<rparr>) h n
    | None \<Rightarrow> execute co si ih h n)" for n
    by (simp only: submit_locked_def Let_def id option.case b list.case adm si prod.case ih option.sel)
  note u = this
  show thesis
  proof (rule that [OF si id nu ih])
    assume "precondition_refusal (co_codec co) (sg_payload si) (hm_store h) = None"
    then show "admitted co (hm_store h) si" using a v unfolding admitted_def precondition_refusal_def by (auto split: if_splits)
  qed (simp_all add: ih_def p u)
qed

lemma new_safe:
  assumes inv: "home_inv co ns sid hist None h" and I: "\<And>h' cur hist'. home_inv co ns sid hist' cur h' \<Longrightarrow> moved co ns sid sub hist hist' \<Longrightarrow> I h'"
    and new: "\<And>iid. payload_id (sg_payload (sb_signed sub)) = Some iid \<Longrightarrow> iid \<noteq> ''unknown'' \<Longrightarrow> intent_binding iid (hm_journal h) = []"
  shows "safe I 5 (submit_locked co sub) h (submit_post co ns sid sub hist)"
proof (cases "admission co sub (hm_store h)")
  case (Some reason)
  let ?ih = "payload_hash (co_codec co) (sg_payload (sb_signed sub))"
  define iid where iid: "iid = (case payload_id (sg_payload (sb_signed sub)) of None \<Rightarrow> ''unknown'' | Some i \<Rightarrow> i)"
  have "(if iid = ''unknown'' then [] else intent_binding iid (hm_journal h)) = []"
    using new iid by (auto split: option.splits)
  then have u: "submit_locked co sub h n = reject co iid ?ih reason h n" for n
    using Some by (simp only: submit_locked_def Let_def iid [symmetric] list.case prod.case option.case)
  show ?thesis
    using safe_cong [of "submit_locked co sub" h "reject co iid ?ih reason", OF u]
      rejected_post [of co ns sid hist h I, OF inv I [OF inv moved_refl]] by blast
next
  case None
  obtain si ih where si: "intent_of (sb_signed sub) = Some si" "payload_id (sg_payload (sb_signed sub)) = Some (sid_of si)"
    "sid_of si \<noteq> ''unknown''" "payload_hash (co_codec co) (sg_payload (sb_signed sub)) = Some ih"
    "ih = canon_digest (co_codec co) (intent_json (sg_payload si))" and
    rej: "\<And>reason n. precondition_refusal (co_codec co) (sg_payload si) (hm_store h) = Some reason \<Longrightarrow> submit_locked co sub h n =
       and_then (c1_append co (Kind PRECONDITION_REJECTED) (sid_of si)
           (Precondition_Body ih reason si (st_generation (hm_store h)) (store_root (co_codec co) (hm_store h))))
         (\<lambda>_. ret \<lparr>rs_intent_id = sid_of si, rs_state = PRECONDITION_REJECTED, rs_reason = Some reason, rs_certificate = None,
            rs_replayed = False\<rparr>) h n" and
    ex: "\<And>n. precondition_refusal (co_codec co) (sg_payload si) (hm_store h) = None \<Longrightarrow> submit_locked co sub h n = execute co si ih h n"
    "precondition_refusal (co_codec co) (sg_payload si) (hm_store h) = None \<Longrightarrow> admitted co (hm_store h) si"
    using submit_admitted [OF None new] by metis
  have nb: "intent_binding (sid_of si) (hm_journal h) = []" by (rule new [OF si(2,3)])
  then have "intent_ok co ns sid hist None (sid_of si) []" using inv by (metis home_inv_def)
  then have n: "sid_of si \<notin> ids hist" by (simp add: intent_ok_def)
  show ?thesis
  proof (cases "precondition_refusal (co_codec co) (sg_payload si) (hm_store h)")
    case (Some reason)
    let ?b = "Precondition_Body ih reason si (st_generation (hm_store h)) (store_root (co_codec co) (hm_store h))"
    let ?r = "\<lparr>rs_intent_id = sid_of si, rs_state = PRECONDITION_REJECTED, rs_reason = Some reason, rs_certificate = None, rs_replayed = False\<rparr>"
    have "safe I 5 (and_then (c1_append co (Kind PRECONDITION_REJECTED) (sid_of si) ?b) (\<lambda>_. ret ?r)) h (submit_post co ns sid sub hist)"
      by (rule safe_mono [OF precondition_safe [of co ns sid hist h I "sid_of si" ?b ?r, OF inv I [OF inv moved_refl]]])
        (use n in \<open>auto intro!: exI [of _ hist] simp: truthful_def\<close>)
    then show ?thesis
      using safe_cong [of "submit_locked co sub" h "and_then (c1_append co (Kind PRECONDITION_REJECTED) (sid_of si) ?b) (\<lambda>_. ret ?r)", OF rej [OF Some]] by blast
  next
    case P: None
    have st: "hm_store h = store_of (co_codec co) ns sid hist" using inv by (simp add: home_inv_def)
    have mv: "moved co ns sid sub hist (hist @ [si])"
      unfolding moved_def using si(1) n None ex(2) [OF P] st by (intro disjI2 exI [of _ si]) simp
    have "safe I 5 (execute co si ih) h (submit_post co ns sid sub hist)"
      by (rule safe_mono [OF execute_safe [of co ns sid hist h si ih sub I, OF inv nb ex(2) [OF P] si(5,2,4) I [OF _ moved_refl] I [OF _ mv]]])
        (use mv in auto)
    then show ?thesis using safe_cong [of "submit_locked co sub" h "execute co si ih", OF ex(1) [OF P]] by blast
  qed
qed

lemma submit_safe:
  assumes inv: "home_inv co ns sid hist cur h" and I: "\<And>h' cur hist'. home_inv co ns sid hist' cur h' \<Longrightarrow> moved co ns sid sub hist hist' \<Longrightarrow> I h'"
  shows "safe I 8 (submit co sub) h (submit_post co ns sid sub hist)"
proof -
  have l: "safe I 5 (submit_locked co sub) h' (submit_post co ns sid sub hist)" if h': "home_inv co ns sid hist None h'" for h'
  proof (cases "\<exists>iid first rest. payload_id (sg_payload (sb_signed sub)) = Some iid \<and> iid \<noteq> ''unknown'' \<and> intent_binding iid (hm_journal h') = first # rest")
    case True
    then obtain iid first rest where "payload_id (sg_payload (sb_signed sub)) = Some iid" "iid \<noteq> ''unknown''"
      "intent_binding iid (hm_journal h') = first # rest" by blast
    then show ?thesis by (rule bound_safe [of co ns sid hist h' I, OF h' I [OF h' moved_refl]])
  next
    case False
    have nb: "intent_binding i (hm_journal h') = []" if "payload_id (sg_payload (sb_signed sub)) = Some i" "i \<noteq> ''unknown''" for i
      using False that by (cases "intent_binding i (hm_journal h')") auto
    show ?thesis by (rule new_safe [of co ns sid hist h' sub I, OF h' I nb])
  qed
  have "safe I (3 + 5) (submit co sub) h (submit_post co ns sid sub hist)"
    unfolding submit_def
    by (rule safe_and_then, rule safe_mono [OF recover_safe [of co ns sid hist cur h I, OF inv I [OF _ moved_refl]]]) (use l in simp_all)
  then show ?thesis by simp
qed

subsection \<open>The ledger\<close>

record ledger =
  lg_value :: "string \<rightharpoonup> string"
  lg_generation :: int
  lg_done :: "string set"

definition ledger_of :: "store \<Rightarrow> ledger" where
  "ledger_of st = \<lparr>lg_value = map_of (st_kv st), lg_generation = st_generation st, lg_done = ap_intent_id ` set (st_applied st)\<rparr>"

text \<open>
  The specification: one update, by an intent that a trusted authority signed for this namespace, inside
  its window, for the generation the ledger has, and that has not taken effect before.
\<close>

inductive ledger_step :: "coordinator \<Rightarrow> string \<Rightarrow> time \<Rightarrow> intent signed \<Rightarrow> ledger \<Rightarrow> ledger \<Rightarrow> bool" for co ns now s l where
  update: "verify_signed (co_codec co) intent_json s (co_authority_keys co) \<Longrightarrow> sg_kid s = it_authority_kid (sg_payload s) \<Longrightarrow>
    it_namespace (sg_payload s) = ns \<Longrightarrow> it_op (sg_payload s) = ''UPSERT'' \<Longrightarrow>
    canon_parse_time (co_codec co) (it_issued_at (sg_payload s)) = Some issued \<Longrightarrow>
    canon_parse_time (co_codec co) (it_expires_at (sg_payload s)) = Some expires \<Longrightarrow>
    issued - 5000000 \<le> now \<Longrightarrow> now < expires \<Longrightarrow> expires - issued \<le> 600000000 \<Longrightarrow>
    it_expected_generation (sg_payload s) = lg_generation l \<Longrightarrow> it_intent_id (sg_payload s) \<notin> lg_done l \<Longrightarrow>
    ledger_step co ns now s l
      \<lparr>lg_value = (lg_value l)(it_key (sg_payload s) \<mapsto> it_value (sg_payload s)), lg_generation = lg_generation l + 1,
       lg_done = insert (it_intent_id (sg_payload s)) (lg_done l)\<rparr>"

lemma map_of_upsert: "map_of (upsert k v kv) = (map_of kv)(k \<mapsto> v)"
proof
  fix x
  have "map_of (filter (\<lambda>e. fst e \<noteq> k) kv) x = (if x = k then None else map_of kv x)"
    by (induction kv) auto
  then show "map_of (upsert k v kv) x = ((map_of kv)(k \<mapsto> v)) x" by (auto simp: upsert_def map_add_def split: option.split)
qed

lemma ledger_of_apply: "ledger_of (apply_intent c s st) =
  \<lparr>lg_value = (lg_value (ledger_of st))(it_key (sg_payload s) \<mapsto> it_value (sg_payload s)),
   lg_generation = lg_generation (ledger_of st) + 1, lg_done = insert (sid_of s) (lg_done (ledger_of st))\<rparr>"
  by (simp add: ledger_of_def map_of_upsert apply_intent_applied)

lemma moved_ledger:
  assumes "moved co ns sid sub hist hist'"
  shows "hist' = hist \<or> (\<exists>s. intent_of (sb_signed sub) = Some s \<and> ledger_step co ns (co_clock co 0) s
    (ledger_of (store_of (co_codec co) ns sid hist)) (ledger_of (store_of (co_codec co) ns sid hist')))"
proof (cases "hist' = hist")
  case False
  then obtain s where s: "intent_of (sb_signed sub) = Some s" "hist' = hist @ [s]" "sid_of s \<notin> ids hist"
    "admission co sub (store_of (co_codec co) ns sid hist) = None" "admitted co (store_of (co_codec co) ns sid hist) s"
    using assms by (auto simp: moved_def)
  obtain p issued expires where a: "sg_payload (sb_signed sub) = Intent p" "sb_exact sub" "uuid_ok (it_intent_id p)" "it_key p \<noteq> []"
    "canon_parse_time (co_codec co) (it_issued_at p) = Some issued" "canon_parse_time (co_codec co) (it_expires_at p) = Some expires"
    "it_protocol p = INTENT_PROTOCOL" "it_op p = ''UPSERT''" "it_namespace p = st_namespace (store_of (co_codec co) ns sid hist)"
    "sg_kid (sb_signed sub) = it_authority_kid p"
    "verify_signed (co_codec co) payload_json (sb_signed sub) (co_authority_keys co)"
    "window_refusal (co_clock co 0) issued expires = None"
    by (rule admission_passed [OF s(4)])
  have p: "sg_payload s = p" using verify_intent [OF a(1) s(1)] by blast
  have w: "issued - 5000000 \<le> co_clock co 0" "co_clock co 0 < expires" "expires - issued \<le> 600000000"
    using a(12) by (auto simp: window_refusal_def MAX_TTL_S_def CLOCK_SKEW_S_def split: if_splits)
  have "ledger_step co ns (co_clock co 0) s (ledger_of (store_of (co_codec co) ns sid hist)) (ledger_of (store_of (co_codec co) ns sid hist'))"
    unfolding s(2) store_of_snoc ledger_of_apply
    by (rule ledger_step.update [OF _ _ _ _ _ _ w])
      (use s(3,5) a(5,6) p store_of_ids [of "co_codec co" ns sid hist] in \<open>auto simp: admitted_def ledger_of_def\<close>)
  then show ?thesis using s(1) by blast
qed simp

subsection \<open>Reachable homes\<close>

inductive reachable :: "c1 \<Rightarrow> string \<Rightarrow> string \<Rightarrow> string \<Rightarrow> (string \<times> string) list \<Rightarrow> trust_store \<Rightarrow> home \<Rightarrow> bool"
  for c ns sid sk keys trust where
  start: "init_home c ns sid sk keys = Some (h, trust) \<Longrightarrow> reachable c ns sid sk keys trust h"
| submitted: "reachable c ns sid sk keys trust h \<Longrightarrow> submit (coordinator_open c trust sk clk) sub h n = (h', n', r) \<Longrightarrow>
    reachable c ns sid sk keys trust h'"
| recovered: "reachable c ns sid sk keys trust h \<Longrightarrow> recover (coordinator_open c trust sk clk) h n = (h', n', r) \<Longrightarrow>
    reachable c ns sid sk keys trust h'"

lemma open_simps [simp]:
  "co_codec (coordinator_open c trust sk clk) = c" "co_authority_keys (coordinator_open c trust sk clk) = tr_authority_keys trust"
  "co_finalizer_sk (coordinator_open c trust sk clk) = sk" "co_finalizer_kid (coordinator_open c trust sk clk) = key_id c (c_public c sk)"
  "co_clock (coordinator_open c trust sk clk) = clk"
  by (simp_all add: coordinator_open_def)

lemma home_inv_clock: "home_inv (coordinator_open c trust sk clk) = home_inv (coordinator_open c trust sk clk')"
proof -
  have a: "admitted (coordinator_open c trust sk clk) = admitted (coordinator_open c trust sk clk')"
    by (intro ext) (simp add: admitted_def)
  have f: "final_certificate (coordinator_open c trust sk clk) = final_certificate (coordinator_open c trust sk clk')"
    unfolding final_certificate_def open_simps by (rule refl)
  have b: "bodies_ok (coordinator_open c trust sk clk) = bodies_ok (coordinator_open c trust sk clk')"
    by (intro ext) (simp only: bodies_ok_def open_simps f)
  show ?thesis by (intro ext) (simp only: home_inv_def intent_ok_def open_simps a b)
qed

lemma reachable_inv:
  assumes "reachable c ns sid sk keys trust h"
  shows "\<exists>hist cur. home_inv (coordinator_open c trust sk clk) ns sid hist cur h \<and> chained c (hm_journal h) \<and> well_typed (hm_journal h)"
  using assms
proof (induction)
  case (start h)
  then have "h = \<lparr>hm_store = store_create ns sid, hm_journal = []\<rparr>" by (auto simp: init_home_def split: if_splits)
  then have "home_inv (coordinator_open c trust sk clk) ns sid [] None h \<and> chained c (hm_journal h) \<and> well_typed (hm_journal h)"
    by (simp add: home_inv_def intent_ok_def intent_binding_def for_intent_def chained_def well_typed_def)
  then show ?case by blast
next
  case (submitted h clk' sub n h' n' r)
  let ?co = "coordinator_open c trust sk clk'"
  let ?I = "\<lambda>h'. \<exists>hist' cur. home_inv ?co ns sid hist' cur h'"
  obtain hist cur where inv: "home_inv ?co ns sid hist cur h" "chained c (hm_journal h)" "well_typed (hm_journal h)"
    using submitted.IH home_inv_clock [of c trust sk clk clk'] by auto
  have "safe ?I 8 (submit ?co sub) h (submit_post ?co ns sid sub hist)" by (rule submit_safe [OF inv(1)]) blast
  then have "?I h' \<and> (\<forall>e. r \<noteq> Failed e)"
    by (rule safe_run [where n = n and n' = n' and I = ?I]) (use submitted.hyps(2) in blast)+
  moreover have "extends c h h'" using growsD [OF grows_submit, of ?co h sub n] submitted.hyps(2) by simp
  ultimately show ?case using inv(2,3) home_inv_clock [of c trust sk clk clk'] by (auto simp: extends_def)
next
  case (recovered h clk' n h' n' r)
  let ?co = "coordinator_open c trust sk clk'"
  let ?I = "\<lambda>h'. \<exists>hist' cur. home_inv ?co ns sid hist' cur h'"
  obtain hist cur where inv: "home_inv ?co ns sid hist cur h" "chained c (hm_journal h)" "well_typed (hm_journal h)"
    using recovered.IH home_inv_clock [of c trust sk clk clk'] by auto
  have "safe ?I 3 (recover ?co) h (\<lambda>_ h'. home_inv ?co ns sid hist None h')" by (rule recover_safe [OF inv(1)]) blast
  then have "?I h' \<and> (\<forall>e. r \<noteq> Failed e)"
    by (rule safe_run [where n = n and n' = n' and I = ?I]) (use recovered.hyps(2) in blast)+
  moreover have "extends c h h'" using growsD [OF grows_recover, of ?co h n] recovered.hyps(2) by simp
  ultimately show ?case using inv(2,3) home_inv_clock [of c trust sk clk clk'] by (auto simp: extends_def)
qed

subsection \<open>What the journal says of an intent\<close>

lemma applied_apply: "applied iid (apply_intent c s st) = (case applied iid st of Some a \<Rightarrow> Some a
  | None \<Rightarrow> if iid = sid_of s then Some (last (st_applied (apply_intent c s st))) else None)"
  by (auto simp: applied_def apply_intent_applied find_append split: option.split)

lemma applied_at:
  assumes "sid_of s \<notin> ids h1"
  shows "applied (sid_of s) (store_of c ns sid (h1 @ s # h2)) = Some (last (st_applied (apply_intent c s (store_of c ns sid h1))))"
proof (induction h2 rule: rev_induct)
  case Nil
  then show ?case using applied_last [OF assms] by simp
next
  case (snoc x h2)
  then show ?case using store_of_snoc [of c ns sid "h1 @ s # h2" x] by (simp add: applied_apply)
qed

lemma history_split:
  assumes "home_inv co ns sid hist cur h" "hist = h1 @ s # h2"
  shows "sid_of s \<notin> ids h1" "applied (sid_of s) (hm_store h) = Some (last (st_applied (apply_intent (co_codec co) s (store_of (co_codec co) ns sid h1))))"
proof -
  have "distinct (map sid_of (h1 @ s # h2))" using assms by (simp add: home_inv_def)
  then show n: "sid_of s \<notin> ids h1" by (auto simp: ids_def)
  show "applied (sid_of s) (hm_store h) = Some (last (st_applied (apply_intent (co_codec co) s (store_of (co_codec co) ns sid h1))))"
    using applied_at [OF n, of "co_codec co" ns sid h2] assms by (simp add: home_inv_def)
qed

lemma finalized_facts:
  assumes inv: "home_inv co ns sid hist cur h" and r: "r \<in> set (intent_binding iid (hm_journal h))" "jr_kind r = Kind FINALIZED"
  obtains h1 s h2 where "hist = h1 @ s # h2" "sid_of s = iid" "kinds iid (hm_journal h) \<in> legal_kinds True False"
    "admitted co (store_of (co_codec co) ns sid h1) s"
    "bodies_ok co iid s (store_of (co_codec co) ns sid h1) (intent_binding iid (hm_journal h))"
proof -
  let ?rs = "intent_binding iid (hm_journal h)"
  have ok: "intent_ok co ns sid hist cur iid ?rs" using inv by (simp add: home_inv_def)
  have ne: "?rs \<noteq> []" using r by auto
  obtain h1 s h2 where h: "hist = h1 @ (if iid \<in> ids hist then [s] else []) @ h2" "sid_of s = iid"
    "map jr_kind ?rs \<in> legal_kinds (iid \<in> ids hist) (cur = Some iid)" "admitted co (store_of (co_codec co) ns sid h1) s"
    "bodies_ok co iid s (store_of (co_codec co) ns sid h1) ?rs"
    using ok ne unfolding intent_ok_def by auto
  have "Kind FINALIZED \<in> set (map jr_kind ?rs)" using r by force
  then have a: "iid \<in> ids hist \<and> cur \<noteq> Some iid" using h(3) by (cases "iid \<in> ids hist"; cases "cur = Some iid") auto
  show thesis by (rule that [OF _ h(2) _ h(4,5)]) (use h(1,3) a in \<open>simp_all add: kinds_binding\<close>)
qed

lemma final_certificate_fields:
  assumes b: "bodies_ok co iid s st rs" and rs: "rs = intent_binding iid js" and m: "COMMITTED_RECORD \<in> jr_kind ` set rs"
    and post: "post = apply_intent (co_codec co) s st"
  obtains cert prep at cm r where "final_certificate co iid js = Some cert" "prep = hd rs" "cm \<in> set rs" "jr_kind cm = COMMITTED_RECORD"
    "jr_body prep = Prepared_Body (prepared_for (co_codec co) s st at)"
    "jr_body cm = Committed_Body (committed_for (co_codec co) s post r)"
    "cert = canon_sign (co_codec co) certificate_json (certificate_of iid (co_finalizer_kid co) prep (prepared_for (co_codec co) s st at)
       cm (committed_for (co_codec co) s post r)) (co_finalizer_sk co) (co_finalizer_kid co)"
proof -
  obtain prep pb cm cb where c: "rs \<noteq> []" "prep = hd rs" "jr_body prep = Prepared_Body pb" "cm \<in> set rs" "jr_kind cm = COMMITTED_RECORD"
    "jr_body cm = Committed_Body cb" and
    f: "\<And>rs'. intent_binding iid rs' = rs' \<Longrightarrow> final_certificate co iid (rs @ rs') =
       Some (canon_sign (co_codec co) certificate_json (certificate_of iid (co_finalizer_kid co) prep pb cm cb)
         (co_finalizer_sk co) (co_finalizer_kid co))"
    using cert_ready [OF rs b m] by metis
  obtain at where at: "pb = prepared_for (co_codec co) s st at" using b c(2,3) by (auto simp: bodies_ok_def)
  obtain r where cb: "cb = committed_for (co_codec co) s post r" using b c(4-6) post unfolding bodies_ok_def by (metis body.inject(6))
  have "final_certificate co iid js = Some (canon_sign (co_codec co) certificate_json (certificate_of iid (co_finalizer_kid co) prep pb cm cb)
      (co_finalizer_sk co) (co_finalizer_kid co))"
    using f [of "[]"] final_certificate_binding [of co iid js] by (simp add: rs intent_binding_def for_intent_def)
  then show thesis by (rule that [OF _ c(2,4,5)]) (use c(3,6) at cb in simp_all)
qed

lemma final_row:
  assumes inv: "home_inv co ns sid hist None h" and s: "s \<in> set hist"
  obtains row cert where "applied (sid_of s) (hm_store h) = Some row" "ap_intent_hash row = canon_digest (co_codec co) (intent_json (sg_payload s))"
    "final_certificate co (sid_of s) (hm_journal h) = Some cert" "cf_applied_row (sg_payload cert) = row"
    "cf_post_root (sg_payload cert) = ap_post_root row" "cf_intent_hash (sg_payload cert) = ap_intent_hash row"
proof -
  let ?rs = "intent_binding (sid_of s) (hm_journal h)" and ?c = "co_codec co"
  have a: "sid_of s \<in> ids hist" using s by (auto simp: ids_def)
  have ne: "?rs \<noteq> []" by (rule final_hash(1) [OF inv s])
  have ks: "kinds (sid_of s) (hm_journal h) \<in> legal_kinds True False" using closed_intent [OF inv _ ne] a by simp
  then have k: "{Kind FINALIZED, COMMITTED_RECORD} \<subseteq> jr_kind ` set ?rs" unfolding kinds_binding set_map [symmetric] by auto
  then obtain r where r: "r \<in> set ?rs" "jr_kind r = Kind FINALIZED" by auto
  obtain h1 s' h2 where h: "hist = h1 @ s' # h2" "sid_of s' = sid_of s" "kinds (sid_of s) (hm_journal h) \<in> legal_kinds True False"
    "admitted co (store_of ?c ns sid h1) s'" "bodies_ok co (sid_of s) s' (store_of ?c ns sid h1) ?rs"
    by (rule finalized_facts [OF inv r])
  have "distinct (map sid_of hist)" using inv by (simp add: home_inv_def)
  then have s': "s' = s" using s h(1,2) by (auto simp: distinct_map dest: inj_onD)
  let ?post = "apply_intent ?c s (store_of ?c ns sid h1)"
  have m: "COMMITTED_RECORD \<in> jr_kind ` set ?rs" using k by simp
  obtain cert prep at cm b where f: "final_certificate co (sid_of s) (hm_journal h) = Some cert"
    "prep = hd ?rs" "cm \<in> set ?rs" "jr_kind cm = COMMITTED_RECORD" "jr_body prep = Prepared_Body (prepared_for ?c s' (store_of ?c ns sid h1) at)"
    "jr_body cm = Committed_Body (committed_for ?c s' ?post b)"
    "cert = canon_sign ?c certificate_json (certificate_of (sid_of s) (co_finalizer_kid co) prep (prepared_for ?c s' (store_of ?c ns sid h1) at)
       cm (committed_for ?c s' ?post b)) (co_finalizer_sk co) (co_finalizer_kid co)"
    by (rule final_certificate_fields [OF h(5) refl m, of ?post]) (use s' in simp_all)
  show thesis
    by (rule that [OF history_split(2) [OF inv h(1)[unfolded s']] _ f(1)])
      (simp_all add: f(7) canon_sign_def certificate_of_def Let_def prepared_for_def committed_for_def apply_intent_applied s')
qed

lemma applied_ids_list: "map ap_intent_id (st_applied (store_of c ns sid hist)) = map sid_of hist"
  by (induction hist rule: rev_induct) (simp_all add: store_create_def apply_intent_applied)

lemma final_binding: "filter (\<lambda>r. jr_kind r = Kind FINALIZED) (for_intent iid js) = filter (\<lambda>r. jr_kind r = Kind FINALIZED) (intent_binding iid js)"
  unfolding intent_binding_def filter_filter by (rule filter_cong) auto

lemma final_record_once:
  assumes inv: "home_inv co ns sid hist cur h"
  shows "length (filter (\<lambda>r. jr_kind r = Kind FINALIZED) (for_intent iid (hm_journal h))) \<le> 1"
proof (cases "\<exists>r \<in> set (intent_binding iid (hm_journal h)). jr_kind r = Kind FINALIZED")
  case True
  then obtain r where r: "r \<in> set (intent_binding iid (hm_journal h))" "jr_kind r = Kind FINALIZED" by blast
  have "kinds iid (hm_journal h) \<in> legal_kinds True False" by (rule finalized_facts [OF inv r])
  then have "length (filter (\<lambda>k. k = Kind FINALIZED) (kinds iid (hm_journal h))) \<le> 1" by auto
  then show ?thesis unfolding final_binding kinds_binding filter_map by (simp add: comp_def)
next
  case False
  then show ?thesis unfolding final_binding by (auto simp: filter_empty_conv [THEN iffD2])
qed

lemma finalized_row:
  assumes inv: "home_inv co ns sid hist cur h" and r: "r \<in> set (for_intent iid (hm_journal h))" "jr_kind r = Kind FINALIZED"
  shows "\<exists>cert. body_certificate (jr_body r) = Some cert \<and> applied iid (hm_store h) = Some (cf_applied_row (sg_payload cert))"
proof -
  let ?rs = "intent_binding iid (hm_journal h)" and ?c = "co_codec co"
  have r': "r \<in> set ?rs" using r by (simp add: intent_binding_def)
  obtain h1 s h2 where h: "hist = h1 @ s # h2" "sid_of s = iid" "kinds iid (hm_journal h) \<in> legal_kinds True False"
    "admitted co (store_of ?c ns sid h1) s" "bodies_ok co iid s (store_of ?c ns sid h1) ?rs"
    by (rule finalized_facts [OF inv r' r(2)])
  let ?post = "apply_intent ?c s (store_of ?c ns sid h1)"
  have "COMMITTED_RECORD \<in> set (kinds iid (hm_journal h))" using h(3) by auto
  then have m: "COMMITTED_RECORD \<in> jr_kind ` set ?rs" by (simp add: kinds_binding)
  obtain cert prep at cm b where f: "final_certificate co iid (hm_journal h) = Some cert"
    "prep = hd ?rs" "cm \<in> set ?rs" "jr_kind cm = COMMITTED_RECORD" "jr_body prep = Prepared_Body (prepared_for ?c s (store_of ?c ns sid h1) at)"
    "jr_body cm = Committed_Body (committed_for ?c s ?post b)"
    "cert = canon_sign ?c certificate_json (certificate_of iid (co_finalizer_kid co) prep (prepared_for ?c s (store_of ?c ns sid h1) at)
       cm (committed_for ?c s ?post b)) (co_finalizer_sk co) (co_finalizer_kid co)"
    by (rule final_certificate_fields [OF h(5) refl m refl])
  have "cf_applied_row (sg_payload cert) = last (st_applied ?post)"
    by (simp add: f(7) canon_sign_def certificate_of_def Let_def committed_for_def)
  moreover have "body_certificate (jr_body r) = Some cert"
    using h(5) r' r(2) f(1) final_certificate_binding [of co iid "hm_journal h"] by (auto simp: bodies_ok_def)
  ultimately show ?thesis using history_split(2) [OF inv h(1)] h(2) by auto
qed

subsection \<open>The guarantees\<close>

text \<open>
  C3. Crash-safe refinement: from every reachable home, a submission that may die after any durable write
  never raises, only appends to the journal, and changes the ledger not at all or by exactly one
  update of the specification, made by the submitted intent.
\<close>

theorem submit_refines_ledger:
  assumes "reachable c ns sid sk keys trust h" "co = coordinator_open c trust sk clk" "submit co sub h n = (h', n', r)"
  shows "(\<forall>e. r \<noteq> Failed e) \<and> (\<exists>rs. hm_journal h' = hm_journal h @ rs) \<and>
    (ledger_of (hm_store h') = ledger_of (hm_store h) \<or>
     (\<exists>s. intent_of (sb_signed sub) = Some s \<and>
        ledger_step co ns (clk 0) s (ledger_of (hm_store h)) (ledger_of (hm_store h'))))"
proof -
  obtain hist cur where inv: "home_inv co ns sid hist cur h" using reachable_inv [OF assms(1)] assms(2) by blast
  let ?I = "\<lambda>h'. \<exists>hist' cur. home_inv co ns sid hist' cur h' \<and> moved co ns sid sub hist hist'"
  have "safe ?I 8 (submit co sub) h (submit_post co ns sid sub hist)" by (rule submit_safe [OF inv]) blast
  then have i: "?I h' \<and> (\<forall>e. r \<noteq> Failed e)"
    by (rule safe_run [where n = n and n' = n' and I = ?I]) (use assms(3) in blast)+
  then obtain hist' cur' where h': "home_inv co ns sid hist' cur' h'" "moved co ns sid sub hist hist'" by blast
  have st: "hm_store h = store_of (co_codec co) ns sid hist" "hm_store h' = store_of (co_codec co) ns sid hist'"
    using inv h'(1) by (simp_all add: home_inv_def)
  have "\<exists>rs. hm_journal h' = hm_journal h @ rs" using growsD [OF grows_submit, of co h sub n] assms(3) by (auto simp: extends_def)
  then show ?thesis using i moved_ledger [OF h'(2)] st assms(2) by auto
qed

definition settled :: "string \<Rightarrow> home \<Rightarrow> bool" where
  "settled iid h \<longleftrightarrow>
    (if intent_binding iid (hm_journal h) = [] then applied iid (hm_store h) = None
     else state_after (kinds iid (hm_journal h)) = Some (if applied iid (hm_store h) = None then ABORTED else FINALIZED))"

lemma inv_settled: "home_inv co ns sid hist None h \<Longrightarrow> settled iid h"
proof -
  assume inv: "home_inv co ns sid hist None h"
  then have ok: "intent_ok co ns sid hist None iid (intent_binding iid (hm_journal h))" and
    a: "applied iid (hm_store h) = None \<longleftrightarrow> iid \<notin> ids hist"
    by (auto simp: home_inv_def applied_store_of)
  show ?thesis using closed_state [OF inv, of iid] ok a by (auto simp: settled_def intent_ok_def)
qed

text \<open>
  C6. Recovery: whatever a crash left behind, recovery never changes the store and never raises; with
  three durable writes it returns, and then every intent of the journal is FINALIZED if its effect
  is in the store and ABORTED if not.
\<close>

theorem recovery_settles:
  assumes "reachable c ns sid sk keys trust h" "co = coordinator_open c trust sk clk" "recover co h n = (h', n', r)"
  shows "hm_store h' = hm_store h \<and> (\<forall>e. r \<noteq> Failed e) \<and> (3 \<le> n \<longrightarrow> (\<exists>rep. r = Done rep) \<and> (\<forall>iid. settled iid h'))"
proof -
  obtain hist cur where inv: "home_inv co ns sid hist cur h" using reachable_inv [OF assms(1)] assms(2) by blast
  let ?I = "\<lambda>h'. \<exists>cur. home_inv co ns sid hist cur h'"
  have s: "safe ?I 3 (recover co) h (\<lambda>_ h'. home_inv co ns sid hist None h')" by (rule recover_safe [OF inv]) blast
  then have i: "?I h' \<and> (\<forall>e. r \<noteq> Failed e)"
    by (rule safe_run [where n = n and n' = n' and I = ?I]) (use assms(3) in blast)+
  then have "hm_store h' = hm_store h" using inv by (auto simp: home_inv_def)
  moreover have "(\<exists>rep. r = Done rep) \<and> (\<forall>iid. settled iid h')" if "3 \<le> n"
    using safe_Done [OF s that] assms(3) inv_settled by auto
  ultimately show ?thesis using i by blast
qed

text \<open>
  C13. The answer to a submission: with eight durable writes the coordinator answers. FINALIZED means
  that the effect of exactly this payload is in the store, and comes with a certificate that names the
  stored row; every other answer means that this submission changed nothing, and an aborted or
  stale intent has no effect in the store. No other state is ever answered.
\<close>

theorem submission_answered:
  assumes "reachable c ns sid sk keys trust h" "co = coordinator_open c trust sk clk" "8 \<le> n"
  shows "\<exists>h' n' r. submit co sub h n = (h', n', Done r) \<and>
    (case rs_state r of
       FINALIZED \<Rightarrow> \<exists>row cert. applied (rs_intent_id r) (hm_store h') = Some row \<and>
         payload_hash c (sg_payload (sb_signed sub)) = Some (ap_intent_hash row) \<and> rs_certificate r = Some cert \<and>
         cf_applied_row (sg_payload cert) = row \<and> cf_post_root (sg_payload cert) = ap_post_root row \<and>
         cf_intent_hash (sg_payload cert) = ap_intent_hash row
     | ADMISSION_REJECTED \<Rightarrow> hm_store h' = hm_store h
     | PRECONDITION_REJECTED \<Rightarrow> hm_store h' = hm_store h \<and> applied (rs_intent_id r) (hm_store h') = None
     | ABORTED \<Rightarrow> hm_store h' = hm_store h \<and> applied (rs_intent_id r) (hm_store h') = None
     | _ \<Rightarrow> False)"
proof -
  obtain hist cur where inv: "home_inv co ns sid hist cur h" using reachable_inv [OF assms(1)] assms(2) by blast
  have cc: "co_codec co = c" using assms(2) by simp
  let ?I = "\<lambda>h'. \<exists>hist' cur. home_inv co ns sid hist' cur h'"
  have "safe ?I 8 (submit co sub) h (submit_post co ns sid sub hist)" by (rule submit_safe [OF inv]) blast
  then have "\<exists>h' n' r. submit co sub h n = (h', n', Done r) \<and> submit_post co ns sid sub hist r h'" by (rule safe_Done [OF _ assms(3)])
  then obtain h' n' r hist' where s: "submit co sub h n = (h', n', Done r)" and h': "home_inv co ns sid hist' None h'"
    and t: "truthful co sub hist hist' r h'" by blast
  have st: "hm_store h = store_of c ns sid hist" "hm_store h' = store_of c ns sid hist'"
    using inv h' cc by (simp_all add: home_inv_def)
  have fin: "\<exists>row cert. applied (rs_intent_id r) (hm_store h') = Some row \<and>
         payload_hash c (sg_payload (sb_signed sub)) = Some (ap_intent_hash row) \<and> rs_certificate r = Some cert \<and>
         cf_applied_row (sg_payload cert) = row \<and> cf_post_root (sg_payload cert) = ap_post_root row \<and>
         cf_intent_hash (sg_payload cert) = ap_intent_hash row" if f: "rs_state r = FINALIZED"
  proof -
    obtain s where x: "s \<in> set hist'" "sid_of s = rs_intent_id r"
      "payload_hash c (sg_payload (sb_signed sub)) = Some (canon_digest c (intent_json (sg_payload s)))"
      "rs_certificate r = final_certificate co (rs_intent_id r) (hm_journal h')"
      using t f by (auto simp: truthful_def cc)
    obtain row cert where y: "applied (sid_of s) (hm_store h') = Some row" "ap_intent_hash row = canon_digest (co_codec co) (intent_json (sg_payload s))"
      "final_certificate co (sid_of s) (hm_journal h') = Some cert" "cf_applied_row (sg_payload cert) = row"
      "cf_post_root (sg_payload cert) = ap_post_root row" "cf_intent_hash (sg_payload cert) = ap_intent_hash row"
      by (rule final_row [OF h' x(1)])
    show ?thesis by (rule exI [of _ row], rule exI [of _ cert]) (use x y cc in simp)
  qed
  have rest: "rs_state r \<in> {FINALIZED, ADMISSION_REJECTED, PRECONDITION_REJECTED, ABORTED}"
    "rs_state r \<noteq> FINALIZED \<Longrightarrow> hm_store h' = hm_store h"
    "rs_state r \<in> {PRECONDITION_REJECTED, ABORTED} \<Longrightarrow> applied (rs_intent_id r) (hm_store h') = None"
    using t st applied_store_of [of "rs_intent_id r" c ns sid hist'] by (cases "rs_state r"; simp add: truthful_def)+
  show ?thesis
    by (rule exI [of _ h'], rule exI [of _ n'], rule exI [of _ r], rule conjI [OF s])
      (use rest fin in \<open>cases "rs_state r"; simp\<close>)
qed

lemma settled_idle:
  assumes "home_inv co ns sid hist cur h" "\<forall>iid. settled iid h"
  shows "home_inv co ns sid hist None h" "recover co h n = (h, n, Done [])"
proof -
  have "cur = None"
  proof (rule ccontr)
    assume "cur \<noteq> None"
    then obtain iid where c: "cur = Some iid" by auto
    have ok: "intent_ok co ns sid hist cur iid (intent_binding iid (hm_journal h))" using assms(1) by (simp add: home_inv_def)
    then have ne: "intent_binding iid (hm_journal h) \<noteq> []" using c by (auto simp: intent_ok_def)
    then have "kinds iid (hm_journal h) \<in> legal_kinds (iid \<in> ids hist) True" using ok c unfolding intent_ok_def kinds_binding by auto
    then obtain s where "state_after (kinds iid (hm_journal h)) = Some s" "\<not> terminal s" using state_of_open by blast
    then show False using assms(2) ne by (auto simp: settled_def split: if_splits)
  qed
  then show i: "home_inv co ns sid hist None h" using assms(1) by simp
  show "recover co h n = (h, n, Done [])"
    unfolding recover_def by (rule idle_each [OF i]) (simp add: prepared_ids_bound)
qed

text \<open>
  C16. Progress: in a settled home, a new intent that admission accepts and whose generation and root are
  those of the store is finalized, and its key then has its value.
\<close>

theorem valid_intent_finalizes:
  assumes "reachable c ns sid sk keys trust h" "co = coordinator_open c trust sk clk" "8 \<le> n" "\<forall>iid. settled iid h"
    and "sg_payload (sb_signed sub) = Intent p" "intent_binding (it_intent_id p) (hm_journal h) = []"
    and "admission co sub (hm_store h) = None" "precondition_refusal c p (hm_store h) = None"
  shows "\<exists>h' n' r. submit co sub h n = (h', n', Done r) \<and> rs_state r = FINALIZED \<and> rs_intent_id r = it_intent_id p \<and>
    lg_value (ledger_of (hm_store h')) = (lg_value (ledger_of (hm_store h)))(it_key p \<mapsto> it_value p) \<and>
    lg_generation (ledger_of (hm_store h')) = lg_generation (ledger_of (hm_store h)) + 1"
proof -
  have cc: "co_codec co = c" using assms(2) by simp
  obtain hist cur where inv: "home_inv co ns sid hist cur h" using reachable_inv [OF assms(1)] assms(2) by blast
  note idle = settled_idle [OF inv assms(4)]
  have new: "intent_binding iid (hm_journal h) = []" if "payload_id (sg_payload (sb_signed sub)) = Some iid" for iid
    using that assms(5,6) by simp
  obtain si ih where si: "intent_of (sb_signed sub) = Some si" "payload_id (sg_payload (sb_signed sub)) = Some (sid_of si)"
    "payload_hash c (sg_payload (sb_signed sub)) = Some ih" "ih = canon_digest c (intent_json (sg_payload si))" and
    ex: "\<And>n. precondition_refusal c (sg_payload si) (hm_store h) = None \<Longrightarrow> submit_locked co sub h n = execute co si ih h n"
    "precondition_refusal c (sg_payload si) (hm_store h) = None \<Longrightarrow> admitted co (hm_store h) si"
    using submit_admitted [OF assms(7) new] unfolding cc by metis
  have p: "sg_payload si = p" using verify_intent [OF assms(5) si(1)] by blast
  let ?I = "\<lambda>h. True"
  have "safe ?I 5 (execute co si ih) h (\<lambda>r h'. home_inv co ns sid (hist @ [si]) None h' \<and> rs_state r = FINALIZED \<and>
      truthful co sub hist (hist @ [si]) r h')"
    by (rule execute_safe [OF idle(1) new [OF si(2)]]) (use si ex(2) assms(8) p cc in simp_all)
  then have "\<exists>h' n' r. execute co si ih h n = (h', n', Done r) \<and> home_inv co ns sid (hist @ [si]) None h' \<and> rs_state r = FINALIZED \<and>
      truthful co sub hist (hist @ [si]) r h'"
    by (rule safe_Done) (use assms(3) in simp)
  then obtain h' n' r where e: "execute co si ih h n = (h', n', Done r)" "home_inv co ns sid (hist @ [si]) None h'" "rs_state r = FINALIZED"
    "truthful co sub hist (hist @ [si]) r h'" by blast
  have "submit co sub h n = (h', n', Done r)"
    using idle(2) e(1) ex(1) assms(8) p by (simp add: submit_def and_then_def)
  moreover have "hm_store h' = apply_intent c si (hm_store h)" using e(2) idle(1) cc by (simp add: home_inv_def)
  moreover have "rs_intent_id r = it_intent_id p" using e(3,4) si(2) p by (auto simp: truthful_def)
  ultimately show ?thesis using e(3) p by (simp add: ledger_of_apply)
qed

text \<open>
  C9. At most once: in every reachable home, crashed or not, the store holds at most one effect per
  intent and its generation counts them, the journal is a hash chain with at most one FINALIZED
  record per intent, and that record's certificate names the row the store holds.
\<close>

theorem finalized_once:
  assumes "reachable c ns sid sk keys trust h"
  shows "distinct (map ap_intent_id (st_applied (hm_store h))) \<and> st_generation (hm_store h) = int (length (st_applied (hm_store h))) \<and>
    chained c (hm_journal h) \<and> length (filter (\<lambda>r. jr_kind r = Kind FINALIZED) (for_intent iid (hm_journal h))) \<le> 1 \<and>
    list_all (\<lambda>r. jr_kind r \<noteq> Kind FINALIZED \<or> (\<exists>cert. body_certificate (jr_body r) = Some cert \<and>
       applied iid (hm_store h) = Some (cf_applied_row (sg_payload cert)))) (for_intent iid (hm_journal h))"
proof -
  define co where "co = coordinator_open c trust sk (\<lambda>_. 0)"
  obtain hist cur where inv: "home_inv co ns sid hist cur h" and ch: "chained c (hm_journal h)"
    using reachable_inv [OF assms] unfolding co_def by blast
  have st: "hm_store h = store_of c ns sid hist" "distinct (map sid_of hist)" using inv by (simp_all add: home_inv_def co_def)
  show ?thesis
    using applied_ids_list [of c ns sid hist] st ch final_record_once [OF inv, of iid] finalized_row [OF inv]
    by (auto simp: list_all_iff dest: arg_cong [where f = length])
qed

subsection \<open>A home, an authority and an intent\<close>

definition sample_c1 :: c1 where
  "sample_c1 = \<lparr>c_sha = (\<lambda>s. s), c_jcs = canonical_json, c_sign = (\<lambda>sk m. sk), c_public = (\<lambda>sk. sk),
     c_valid = (\<lambda>pub raw m. raw = pub),
     c_fromisoformat = map_of [(''1970-01-01T00:00:00.000+00:00'', 0), (''1970-01-01T00:00:01.000+00:00'', 1000000),
       (''1970-01-01T00:05:00.000+00:00'', 300000000)]\<rparr>"

definition sample_keys :: "(string \<times> string) list" where
  "sample_keys = [(key_id sample_c1 ''authority'', b64encode ''authority'')]"

definition sample_trust :: trust_store where
  "sample_trust = \<lparr>tr_authority_keys = map_of sample_keys,
        tr_finalizer_keys = [key_id sample_c1 ''finalizer'' \<mapsto> b64encode ''finalizer''], tr_witness_keys = Map.empty,
     tr_eee_issuer_keys = Map.empty\<rparr>"

definition sample_home :: home where
  "sample_home = \<lparr>hm_store = store_create ''ns'' ''store'', hm_journal = []\<rparr>"

definition sample_signed :: "intent signed" where
  "sample_signed = make_intent sample_c1 ''authority'' (key_id sample_c1 ''authority'') ''ns'' ''k'' ''v'' 0
     (store_root sample_c1 (store_create ''ns'' ''store'')) 300 0 ''00000000-0000-0000-0000-000000000001''"

definition sample_submission :: submission where
  "sample_submission = \<lparr>sb_signed = \<lparr>sg_alg = sg_alg sample_signed, sg_kid = sg_kid sample_signed,
     sg_payload = Intent (sg_payload sample_signed), sg_sig = sg_sig sample_signed\<rparr>, sb_exact = True\<rparr>"

definition sample_clock :: "nat \<Rightarrow> time" where
  "sample_clock i = 1000000"

definition sample_coordinator :: coordinator where
  "sample_coordinator = coordinator_open sample_c1 sample_trust ''finalizer'' sample_clock"


lemma sample_init: "init_home sample_c1 ''ns'' ''store'' ''finalizer'' sample_keys = Some (sample_home, sample_trust)"
proof -
  have "list_all (\<lambda>(kid, pub). map_option (key_id sample_c1) (unb64u pub) = Some kid) sample_keys" by code_simp
  then show ?thesis by (simp add: init_home_def sample_home_def sample_trust_def sample_c1_def)
qed

lemmas sample_reachable = reachable.start [OF sample_init]

lemma sample_parts:
  "uuid_ok ''00000000-0000-0000-0000-000000000001''" "canon_parse_time sample_c1 (format_time 0) = Some 0"
  "canon_parse_time sample_c1 (format_time 300000000) = Some 300000000" "unb64u (b64encode ''authority'') = Some ''authority''"
  by code_simp+

lemma sample_kid: "key_id sample_c1 ''authority'' = ''ed25519:authority''"
  by code_simp

lemma sample_verifies: "verify_signed sample_c1 payload_json (sb_signed sample_submission) (co_authority_keys sample_coordinator)"
  using sample_parts(4)
  by (simp add: verify_signed_def sample_submission_def sample_signed_def make_intent_def canon_sign_def sample_coordinator_def
      sample_trust_def sample_keys_def) (simp add: sample_c1_def intent_json_def)

lemma sample_admitted: "admission sample_coordinator sample_submission (hm_store sample_home) = None"
proof -
  have c: "co_codec sample_coordinator = sample_c1" "co_clock sample_coordinator 0 = 1000000" by (simp_all add: sample_coordinator_def sample_clock_def)
  have k: "co_authority_keys sample_coordinator (sg_kid (sb_signed sample_submission)) \<noteq> None"
    by (simp add: sample_coordinator_def sample_trust_def sample_keys_def sample_submission_def sample_signed_def make_intent_def canon_sign_def)
  have p: "sg_payload (sb_signed sample_submission) = Intent (sg_payload sample_signed)" "sb_exact sample_submission"
    "sg_kid (sb_signed sample_submission) = it_authority_kid (sg_payload sample_signed)"
    by (simp_all add: sample_submission_def sample_signed_def make_intent_def canon_sign_def)
  show ?thesis
    unfolding admission_def Let_def c p(1) submission_payload.case
    using p(2,3) k sample_verifies c sample_parts(1-3)
    by (simp add: sample_signed_def make_intent_def canon_sign_def sample_home_def store_create_def py_len_def MAX_KEY_def MAX_VALUE_def)
      (simp add: window_refusal_def MAX_TTL_S_def CLOCK_SKEW_S_def)
qed

lemma sample_precondition: "precondition_refusal sample_c1 (sg_payload sample_signed) (hm_store sample_home) = None"
  by (simp add: precondition_refusal_def sample_signed_def make_intent_def canon_sign_def sample_home_def)
    (simp add: store_create_def)

lemma sample_settled: "\<forall>iid. settled iid sample_home"
  by (simp add: settled_def sample_home_def intent_binding_def for_intent_def applied_def store_create_def)

text \<open>The sample submission, killed after its third durable write.\<close>

theorem submit_refines_ledger_witness:
  "case submit sample_coordinator sample_submission sample_home 3 of (h', n', r) \<Rightarrow>
    (\<forall>e. r \<noteq> Failed e) \<and> (\<exists>rs. hm_journal h' = hm_journal sample_home @ rs) \<and>
    (ledger_of (hm_store h') = ledger_of (hm_store sample_home) \<or>
     (\<exists>s. intent_of (sb_signed sample_submission) = Some s \<and>
        ledger_step sample_coordinator ''ns'' (sample_clock 0) s (ledger_of (hm_store sample_home)) (ledger_of (hm_store h'))))"
proof -
  obtain h' n' r where s: "submit sample_coordinator sample_submission sample_home 3 = (h', n', r)" using prod_cases3 by blast
  show ?thesis unfolding s prod.case by (rule submit_refines_ledger [OF sample_reachable sample_coordinator_def s])
qed

theorem recovery_settles_witness:
  "case recover sample_coordinator sample_home 3 of (h', n', r) \<Rightarrow>
    hm_store h' = hm_store sample_home \<and> (\<forall>e. r \<noteq> Failed e) \<and> (\<exists>rep. r = Done rep) \<and> (\<forall>iid. settled iid h')"
proof -
  obtain h' n' r where s: "recover sample_coordinator sample_home 3 = (h', n', r)" using prod_cases3 by blast
  show ?thesis unfolding s prod.case using recovery_settles [OF sample_reachable sample_coordinator_def s] by simp
qed

theorem submission_answered_witness:
  "\<exists>h' n' r. submit sample_coordinator sample_submission sample_home 8 = (h', n', Done r) \<and>
    rs_state r \<in> {FINALIZED, ADMISSION_REJECTED, PRECONDITION_REJECTED, ABORTED}"
proof -
  obtain h' n' r where s: "submit sample_coordinator sample_submission sample_home 8 = (h', n', Done r)" and
    c: "case rs_state r of
       FINALIZED \<Rightarrow> \<exists>row cert. applied (rs_intent_id r) (hm_store h') = Some row \<and>
         payload_hash sample_c1 (sg_payload (sb_signed sample_submission)) = Some (ap_intent_hash row) \<and> rs_certificate r = Some cert \<and>
         cf_applied_row (sg_payload cert) = row \<and> cf_post_root (sg_payload cert) = ap_post_root row \<and>
         cf_intent_hash (sg_payload cert) = ap_intent_hash row
     | ADMISSION_REJECTED \<Rightarrow> hm_store h' = hm_store sample_home
     | PRECONDITION_REJECTED \<Rightarrow> hm_store h' = hm_store sample_home \<and> applied (rs_intent_id r) (hm_store h') = None
     | ABORTED \<Rightarrow> hm_store h' = hm_store sample_home \<and> applied (rs_intent_id r) (hm_store h') = None
     | _ \<Rightarrow> False"
    using submission_answered [OF sample_reachable sample_coordinator_def order_refl, of sample_submission] by blast
  have "rs_state r \<in> {FINALIZED, ADMISSION_REJECTED, PRECONDITION_REJECTED, ABORTED}" using c by (cases "rs_state r") simp_all
  then show ?thesis using s by blast
qed

theorem valid_intent_finalizes_witness:
  "\<exists>h' n' r. submit sample_coordinator sample_submission sample_home 8 = (h', n', Done r) \<and> rs_state r = FINALIZED \<and>
    lg_value (ledger_of (hm_store h')) = [''k'' \<mapsto> ''v''] \<and> lg_generation (ledger_of (hm_store h')) = 1"
proof -
  have p: "sg_payload (sb_signed sample_submission) = Intent (sg_payload sample_signed)" by (simp add: sample_submission_def)
  have b: "intent_binding (it_intent_id (sg_payload sample_signed)) (hm_journal sample_home) = []"
    by (simp add: sample_home_def intent_binding_def for_intent_def)
  have l: "ledger_of (hm_store sample_home) = \<lparr>lg_value = Map.empty, lg_generation = 0, lg_done = {}\<rparr>"
    by (simp add: ledger_of_def sample_home_def store_create_def)
  have kv: "it_key (sg_payload sample_signed) = ''k''" "it_value (sg_payload sample_signed) = ''v''"
    by (simp_all add: sample_signed_def make_intent_def canon_sign_def)
  show ?thesis
    using valid_intent_finalizes [OF sample_reachable sample_coordinator_def order_refl sample_settled p b sample_admitted sample_precondition]
    unfolding l kv by auto
qed

theorem finalized_once_witness:
  "case submit sample_coordinator sample_submission sample_home 8 of (h', n', r) \<Rightarrow>
    length (filter (\<lambda>r. jr_kind r = Kind FINALIZED) (for_intent ''00000000-0000-0000-0000-000000000001'' (hm_journal h'))) \<le> 1 \<and>
    chained sample_c1 (hm_journal h')"
proof -
  obtain h' n' r where s: "submit sample_coordinator sample_submission sample_home 8 = (h', n', r)" using prod_cases3 by blast
  have "reachable sample_c1 ''ns'' ''store'' ''finalizer'' sample_keys sample_trust h'"
    by (rule reachable.submitted [OF sample_reachable s [unfolded sample_coordinator_def]])
  then show ?thesis unfolding s prod.case using finalized_once by blast
qed

end
