(* ===== verification/Vdb_Verify.thy ===== *)
theory Vdb_Verify
  imports Vdb_Guarantees
begin

text \<open>
  The offline verifier (\<open>vdb_c1/verify.py\<close>), which shares no code with the coordinator, and the witness
  (\<open>vdb_c1/witness.py\<close>), which countersigns journal heads. The verifier is modelled check by check in
  the order of the code, up to the verdict and the name of the failed check; a bundle is typed as the
  coordinator writes it. What the verifier accepts is what the protocol promises, and every bundle the
  coordinator exports is accepted unless its intent was admitted outside its window. Observations of
  the witness have two durable writes, the checkpoint and the state, and may stop between them.
\<close>

subsection \<open>The verifier\<close>

definition check_signed :: "c1 \<Rightarrow> ('p \<Rightarrow> json) \<Rightarrow> 'p signed \<Rightarrow> (string \<rightharpoonup> string) \<Rightarrow> string \<Rightarrow> (string \<times> string) option" where
  "check_signed c to_json s trusted what =
    (case trusted (sg_kid s) of
       None \<Rightarrow> Some (''REJECTED_UNTRUSTED_KEY'', what)
     | Some key \<Rightarrow>
         (case unb64u key of
            None \<Rightarrow> Some (''REJECTED_BAD_SIGNATURE'', what)
          | Some pub \<Rightarrow>
              if ''ed25519:'' @ take 16 (c_sha c pub) \<noteq> sg_kid s \<or> sg_alg s \<noteq> ''Ed25519'' then Some (''REJECTED_BAD_SIGNATURE'', what)
              else case unb64u (sg_sig s) of
                None \<Rightarrow> Some (''REJECTED_BAD_SIGNATURE'', what)
              | Some raw \<Rightarrow>
                  if encodable (to_json (sg_payload s)) \<and> c_valid c pub raw (c_jcs c (to_json (sg_payload s))) then None
                  else Some (''REJECTED_BAD_SIGNATURE'', what)))"

text \<open>A value that has no encoding raises in \<open>digest\<close>, which is an incomplete bundle.\<close>

abbreviation incomplete :: "string \<times> string" where
  "incomplete \<equiv> (''REJECTED_INCOMPLETE_BUNDLE'', ''structure'')"

fun check_chain :: "c1 \<Rightarrow> string \<Rightarrow> int \<Rightarrow> string \<Rightarrow> jrecord list \<Rightarrow> (string \<times> string) option" where
  "check_chain c what i prev [] = None"
| "check_chain c what i prev (r # rs) =
    (if jr_protocol r \<noteq> JOURNAL_PROTOCOL \<or> jr_seq r \<noteq> i \<or> jr_prev r \<noteq> prev then Some (''REJECTED_JOURNAL_INCONSISTENT'', what)
     else if \<not> encodable (JObj (record_members r)) then Some incomplete
     else if jr_hash r \<noteq> canon_digest c (JObj (record_members r)) then Some (''REJECTED_JOURNAL_INCONSISTENT'', what)
     else check_chain c what (i + 1) (jr_hash r) rs)"

definition LEGAL_FINAL_PATHS :: "kind list set" where
  "LEGAL_FINAL_PATHS = {[Kind PREPARED, Kind COMMITTING, COMMITTED_RECORD, Kind FINALIZED],
     [Kind PREPARED, Kind COMMITTING, Kind COMMIT_UNCERTAIN, COMMITTED_RECORD, Kind FINALIZED]}"

definition mine :: "string \<Rightarrow> jrecord list \<Rightarrow> jrecord list" where
  "mine iid journal = filter (\<lambda>r. jr_intent_id r = iid \<and> binding_kind (jr_kind r)) journal"

definition check_path :: "string \<Rightarrow> jrecord list \<Rightarrow> (string \<times> string) option" where
  "check_path iid journal =
    (let kinds = map jr_kind (mine iid journal)
     in if count_list kinds (Kind FINALIZED) > 1 \<or> count_list kinds COMMITTED_RECORD > 1 \<or> count_list kinds (Kind PREPARED) > 1
          then Some (''REJECTED_DUPLICATE_FINALITY'', ''single_finality'')
        else if kinds \<notin> LEGAL_FINAL_PATHS then Some (''REJECTED_JOURNAL_INCONSISTENT'', ''state_machine'')
        else if mine iid [last journal] = [] then Some (''REJECTED_JOURNAL_INCONSISTENT'', ''bundle_prefix'')
        else None)"

text \<open>Checks 4 to 6: the signatures, the binding of the intent, the authority window.\<close>

definition check_authority :: "c1 \<Rightarrow> trust_store \<Rightarrow> string \<Rightarrow> jrecord list \<Rightarrow> prepared \<Rightarrow> certificate signed \<Rightarrow> (string \<times> string) option" where
  "check_authority c trust iid rs pb cert =
    (let si = pb_signed_intent pb; p = sg_payload si; ih = canon_digest c (intent_json p)
     in case check_signed c intent_json si (tr_authority_keys trust) ''intent_signature'' of
          Some e \<Rightarrow> Some e
        | None \<Rightarrow>
            if it_authority_kid p \<noteq> sg_kid si \<or> it_protocol p \<noteq> INTENT_PROTOCOL then Some (''REJECTED_BAD_SIGNATURE'', ''intent_signature'')
            else case check_signed c certificate_json cert (tr_finalizer_keys trust) ''certificate_signature'' of
              Some e \<Rightarrow> Some e
            | None \<Rightarrow>
                if it_intent_id p \<noteq> iid \<or> \<not> list_all (\<lambda>r. body_intent_hash (jr_body r) = Some ih) rs
                  then Some (''REJECTED_JOURNAL_INCONSISTENT'', ''intent_binding'')
                else case (canon_parse_time c (pb_admitted_at pb), canon_parse_time c (it_issued_at p)) of
                  (Some adm, Some issued) \<Rightarrow>
                    if \<not> issued - CLOCK_SKEW_S * 1000000 \<le> adm then Some (''REJECTED_OUTSIDE_AUTHORITY_WINDOW'', ''authority_window'')
                    else (case canon_parse_time c (it_expires_at p) of
                      None \<Rightarrow> Some incomplete
                    | Some expires \<Rightarrow> if adm < expires then None else Some (''REJECTED_OUTSIDE_AUTHORITY_WINDOW'', ''authority_window''))
                | _ \<Rightarrow> Some incomplete)"

text \<open>Checks 7 to 9: the roots, the generations, and that the committed state is the signed update.\<close>

definition check_state :: "c1 \<Rightarrow> string \<Rightarrow> prepared \<Rightarrow> committed \<Rightarrow> (string \<times> string) option" where
  "check_state c iid pb cb =
    (let p = sg_payload (pb_signed_intent pb);
         commitment = payload_commitment c (it_op p) (it_key p) (it_value p);
         expected_post = sort (filter (\<lambda>e. fst e \<noteq> it_key p) (pb_pre_entries pb) @ [(it_key p, it_value p)])
     in if state_root c (it_namespace p) (pb_pre_generation pb) (pb_pre_entries pb) \<noteq> pb_pre_root pb then Some (''REJECTED_ROOT_MISMATCH'', ''pre_root'')
        else if pb_pre_root pb \<noteq> it_expected_root p then Some (''REJECTED_ROOT_MISMATCH'', ''precondition_root'')
        else if state_root c (it_namespace p) (cb_post_generation cb) (cb_post_entries cb) \<noteq> cb_post_root cb then Some (''REJECTED_ROOT_MISMATCH'', ''post_root'')
        else if pb_pre_generation pb \<noteq> it_expected_generation p \<or> cb_post_generation cb \<noteq> pb_pre_generation pb + 1
          then Some (''REJECTED_GENERATION_MISMATCH'', ''generation'')
        else if it_op p \<noteq> ''UPSERT'' \<or> pb_payload_commitment pb \<noteq> commitment \<or> sort (cb_post_entries cb) \<noteq> expected_post \<or>
            cb_applied_row cb \<noteq> \<lparr>ap_intent_id = iid, ap_intent_hash = canon_digest c (intent_json p), ap_generation = cb_post_generation cb,
              ap_post_root = cb_post_root cb\<rparr>
          then Some (''REJECTED_PAYLOAD_SUBSTITUTION'', ''payload'')
        else None)"

definition want :: "c1 \<Rightarrow> string \<Rightarrow> jrecord \<Rightarrow> prepared \<Rightarrow> jrecord \<Rightarrow> committed \<Rightarrow> string \<Rightarrow> certificate" where
  "want c iid prepared pb committed cb kid =
    (let p = sg_payload (pb_signed_intent pb)
     in \<lparr>cf_protocol = ''veklom.vdb.c1.finality/v1'', cf_intent_id = iid, cf_intent_hash = canon_digest c (intent_json p),
         cf_namespace = it_namespace p, cf_authority_kid = it_authority_kid p, cf_expected_generation = it_expected_generation p,
         cf_pre_root = pb_pre_root pb, cf_payload_commitment = payload_commitment c (it_op p) (it_key p) (it_value p),
         cf_post_generation = cb_post_generation cb, cf_post_root = cb_post_root cb, cf_physical = cb_physical cb,
         cf_applied_row = cb_applied_row cb, cf_prepared_seq = jr_seq prepared, cf_prepared_hash = jr_hash prepared,
         cf_committed_seq = jr_seq committed, cf_committed_hash = jr_hash committed, cf_finalized_at = jr_at committed,
         cf_finalizer_kid = kid\<rparr>)"

definition check_receipt :: "c1 \<Rightarrow> c1_bundle \<Rightarrow> jrecord \<Rightarrow> prepared \<Rightarrow> jrecord \<Rightarrow> committed \<Rightarrow> jrecord \<Rightarrow> (string \<times> string) option" where
  "check_receipt c b prepared pb committed cb finalized =
    (let cert = bu_certificate b
     in if body_certificate (jr_body finalized) = None then Some incomplete
        else if body_certificate (jr_body finalized) \<noteq> Some cert \<or> bu_certificate_digest b \<noteq> canon_digest c (signed_json certificate_json cert) \<or>
           sg_payload cert \<noteq> want c (bu_intent_id b) prepared pb committed cb (sg_kid cert)
        then Some (''REJECTED_RECEIPT_MISMATCH'', ''receipt_binding'') else None)"

definition verify_c1 :: "c1 \<Rightarrow> trust_store \<Rightarrow> c1_bundle \<Rightarrow> (string \<times> string) option" where
  "verify_c1 c trust b =
    (let iid = bu_intent_id b; journal = bu_journal b; rs = mine iid journal
     in if bu_protocol b \<noteq> BUNDLE_PROTOCOL \<or> journal = [] then Some incomplete
        else case check_chain c ''journal_chain'' 0 ''genesis'' journal of
          Some e \<Rightarrow> Some e
        | None \<Rightarrow>
            (case check_path iid journal of
               Some e \<Rightarrow> Some e
             | None \<Rightarrow>
                 (case find (\<lambda>r. jr_kind r = COMMITTED_RECORD) rs of
                    None \<Rightarrow> Some incomplete
                  | Some committed \<Rightarrow>
                      (case (prepared_body (jr_body (hd rs)), committed_body (jr_body committed)) of
                         (Some pb, Some cb) \<Rightarrow>
                           (case check_authority c trust iid rs pb (bu_certificate b) of
                              Some e \<Rightarrow> Some e
                            | None \<Rightarrow>
                                (case check_state c iid pb cb of
                                   Some e \<Rightarrow> Some e
                                 | None \<Rightarrow> check_receipt c b (hd rs) pb committed cb (last rs)))
                       | _ \<Rightarrow> Some incomplete))))"

definition CHECKPOINT_PROTOCOL :: string where
  "CHECKPOINT_PROTOCOL = ''veklom.vdb.c1.checkpoint/v1''"

definition checkpoint_json :: "checkpoint \<Rightarrow> json" where
  "checkpoint_json p = JObj [(''protocol'', JStr (cp_protocol p)), (''journal_genesis_hash'', JStr (cp_genesis_hash p)),
     (''seq'', JNum (cp_seq p)), (''head_hash'', JStr (cp_head_hash p)), (''witnessed_at'', JStr (cp_witnessed_at p)),
     (''witness_kid'', JStr (cp_witness_kid p))]"

definition verify_witness :: "c1 \<Rightarrow> trust_store \<Rightarrow> c1_bundle \<Rightarrow> (string \<times> string) + string" where
  "verify_witness c trust b =
    (case bu_witness b of
       None \<Rightarrow> Inr ''L1''
     | Some (cp, suffix) \<Rightarrow>
         (case check_signed c checkpoint_json cp (tr_witness_keys trust) ''witness_signature'' of
            Some e \<Rightarrow> Inl e
          | None \<Rightarrow>
              let full = bu_journal b @ suffix; p = sg_payload cp
              in case check_chain c ''witness_suffix'' (int (length (bu_journal b))) (jr_hash (last (bu_journal b))) suffix of
                   Some e \<Rightarrow> Inl e
                 | None \<Rightarrow>
                     if mine (bu_intent_id b) suffix \<noteq> [] then Inl (''REJECTED_DUPLICATE_FINALITY'', ''witness_suffix'')
                     else if cp_protocol p \<noteq> CHECKPOINT_PROTOCOL \<or> cp_seq p \<noteq> int (length full) - 1 \<or>
                         cp_head_hash p \<noteq> jr_hash (last full) \<or> cp_genesis_hash p \<noteq> jr_hash (hd full)
                       then Inl (''REJECTED_FORK'', ''witness_checkpoint'')
                     else Inr ''W1''))"

datatype verdict = Rejected string string | VALID_FINALIZED string string string

definition verify_bundle :: "c1 \<Rightarrow> trust_store \<Rightarrow> bool \<Rightarrow> c1_bundle \<Rightarrow> verdict" where
  "verify_bundle c trust require_witness b =
    (case verify_c1 c trust b of
       Some (v, check) \<Rightarrow> Rejected v check
     | None \<Rightarrow>
         (case verify_witness c trust b of
            Inl (v, check) \<Rightarrow> Rejected v check
          | Inr profile \<Rightarrow>
              if require_witness \<and> profile \<noteq> ''W1'' then Rejected ''REJECTED_NOT_WITNESSED'' ''witness''
              else VALID_FINALIZED profile (bu_intent_id b) (cf_post_root (sg_payload (bu_certificate b)))))"

subsection \<open>The witness\<close>

record fork_evidence =
  fe_reason :: string
  fe_detail :: string
  fe_witnessed :: "string \<times> int \<times> string"
  fe_presented_genesis :: string
  fe_presented_length :: int
  fe_hash_at_witnessed_seq :: "string option"

definition fork_json :: "fork_evidence \<Rightarrow> json" where
  "fork_json f = (case fe_witnessed f of (genesis, seq, head) \<Rightarrow> JObj [(''protocol'', JStr ''veklom.vdb.c1.fork-evidence/v1''),
     (''reason'', JStr (fe_reason f)), (''detail'', JStr (fe_detail f)),
     (''witnessed'', JObj [(''genesis_hash'', JStr genesis), (''seq'', JNum seq), (''head_hash'', JStr head)]),
     (''presented'', JObj [(''genesis_hash'', JStr (fe_presented_genesis f)), (''length'', JNum (fe_presented_length f)),
        (''hash_at_witnessed_seq'', jopt (fe_hash_at_witnessed_seq f))])])"

text \<open>The state of a witness: genesis hash, sequence number and head hash of the last head it signed.\<close>

record witness =
  wi_sk :: string
  wi_trust :: trust_store
  wi_state :: "(string \<times> int \<times> string) option"
  wi_checkpoints :: "checkpoint signed list"
  wi_forks :: "fork_evidence signed list"

definition witness_create :: "string \<Rightarrow> trust_store \<Rightarrow> witness" where
  "witness_create sk trust = \<lparr>wi_sk = sk, wi_trust = trust\<lparr>tr_witness_keys := Map.empty, tr_eee_issuer_keys := Map.empty\<rparr>, wi_state = None, wi_checkpoints = [], wi_forks = []\<rparr>"

definition wi_kid :: "c1 \<Rightarrow> witness \<Rightarrow> string" where
  "wi_kid c w = key_id c (c_public c (wi_sk w))"

fun read_lines :: "c1 \<Rightarrow> (string \<Rightarrow> jrecord option) \<Rightarrow> int \<Rightarrow> string \<Rightarrow> string list \<Rightarrow> string + jrecord list" where
  "read_lines c loads seq prev [] = Inr []"
| "read_lines c loads seq prev (line # rest) =
    (case loads line of
       None \<Rightarrow> Inl ''ValueError''
     | Some r \<Rightarrow>
         if \<not> chain_ok c seq prev r then Inl ''E_CHAIN''
         else (case read_lines c loads (seq + 1) (jr_hash r) rest of Inl e \<Rightarrow> Inl e | Inr rs \<Rightarrow> Inr (r # rs)))"

definition read_journal :: "c1 \<Rightarrow> (string \<Rightarrow> jrecord option) \<Rightarrow> string \<Rightarrow> string + jrecord list" where
  "read_journal c loads data =
    (if data \<noteq> [] \<and> last data \<noteq> newline then Inl ''E_TORN_JOURNAL''
     else case read_lines c loads 0 ''genesis'' (split_lines [] data) of
       Inl e \<Rightarrow> Inl e
     | Inr [] \<Rightarrow> Inl ''E_EMPTY''
     | Inr rs \<Rightarrow> Inr rs)"

definition fork_of :: "witness \<Rightarrow> jrecord list \<Rightarrow> (string \<times> string) option" where
  "fork_of w records =
    (case wi_state w of
       None \<Rightarrow> None
     | Some (genesis, seq, head) \<Rightarrow>
         if jr_hash (hd records) \<noteq> genesis then Some (''E_DIFFERENT_JOURNAL'', ''genesis record differs'')
         else if int (length records) \<le> seq then Some (''E_ROLLBACK'', ''journal shorter than witnessed seq '' @ show_int seq)
         else if jr_hash (records ! nat seq) \<noteq> head then Some (''E_FORK'', ''record '' @ show_int seq @ '' differs from the witnessed head'')
         else None)"

definition fork_proof :: "c1 \<Rightarrow> witness \<Rightarrow> jrecord list \<Rightarrow> string \<Rightarrow> string \<Rightarrow> fork_evidence signed" where
  "fork_proof c w records reason detail =
    (let st = the (wi_state w); seq = fst (snd st)
     in canon_sign c fork_json \<lparr>fe_reason = reason, fe_detail = detail, fe_witnessed = st, fe_presented_genesis = jr_hash (hd records),
          fe_presented_length = int (length records),
          fe_hash_at_witnessed_seq = (if seq < int (length records) then Some (jr_hash (records ! nat seq)) else None)\<rparr> (wi_sk w) (wi_kid c w))"

definition finality_valid :: "c1 \<Rightarrow> trust_store \<Rightarrow> jrecord list \<Rightarrow> jrecord \<Rightarrow> bool" where
  "finality_valid c trust records r =
    (case body_certificate (jr_body r) of
       None \<Rightarrow> False
     | Some cert \<Rightarrow>
         (case verify_bundle c trust False (bundle_of c (jr_intent_id r) (take (nat (jr_seq r) + 1) records) cert None) of
            VALID_FINALIZED _ _ _ \<Rightarrow> True | Rejected _ _ \<Rightarrow> False))"

definition start_of :: "witness \<Rightarrow> nat" where
  "start_of w = (case wi_state w of None \<Rightarrow> 0 | Some (genesis, seq, head) \<Rightarrow> nat (seq + 1))"

definition checkpoint_of :: "c1 \<Rightarrow> witness \<Rightarrow> jrecord list \<Rightarrow> string \<Rightarrow> checkpoint signed" where
  "checkpoint_of c w records at =
     canon_sign c checkpoint_json \<lparr>cp_protocol = CHECKPOINT_PROTOCOL, cp_genesis_hash = jr_hash (hd records), cp_seq = jr_seq (last records),
       cp_head_hash = jr_hash (last records), cp_witnessed_at = at, cp_witness_kid = wi_kid c w\<rparr> (wi_sk w) (wi_kid c w)"

text \<open>
  The observation of a journal that was read, with the number of durable writes it may make; the result
  is \<open>None\<close> when it dies.
\<close>

definition observe_records :: "c1 \<Rightarrow> jrecord list \<Rightarrow> string \<Rightarrow> witness \<Rightarrow> nat \<Rightarrow> witness \<times> (string + checkpoint signed) option" where
  "observe_records c records at w n =
    (case fork_of w records of
       Some (reason, detail) \<Rightarrow> (w\<lparr>wi_forks := wi_forks w @ [fork_proof c w records reason detail]\<rparr>, Some (Inl reason))
     | None \<Rightarrow>
         if \<not> list_all (\<lambda>r. jr_kind r \<noteq> Kind FINALIZED \<or> finality_valid c (wi_trust w) records r) (drop (start_of w) records)
           then (w, Some (Inl ''E_INVALID_FINALITY''))
         else
           let cp = checkpoint_of c w records at; w1 = w\<lparr>wi_checkpoints := wi_checkpoints w @ [cp]\<rparr>
           in case n of
                0 \<Rightarrow> (w, None)
              | Suc m \<Rightarrow>
                  (case m of
                     0 \<Rightarrow> (w1, None)
                   | Suc _ \<Rightarrow> (w1\<lparr>wi_state := Some (jr_hash (hd records), jr_seq (last records), jr_hash (last records))\<rparr>, Some (Inr cp))))"

text \<open>An observation: the bytes of the journal file are read and checked first, and anything wrong with them is a refusal.\<close>

definition observe ::
  "c1 \<Rightarrow> (string \<Rightarrow> jrecord option) \<Rightarrow> string \<Rightarrow> string \<Rightarrow> witness \<Rightarrow> nat \<Rightarrow> witness \<times> (string + checkpoint signed) option" where
  "observe c loads data at w n =
    (case read_journal c loads data of
       Inl e \<Rightarrow> (w, Some (Inl e))
     | Inr records \<Rightarrow> observe_records c records at w n)"

definition covering :: "int \<Rightarrow> witness \<Rightarrow> checkpoint signed option" where
  "covering seq w = find (\<lambda>cp. seq \<le> cp_seq (sg_payload cp)) (wi_checkpoints w)"

subsection \<open>What the verifier accepts\<close>

lemma check_signed_None: "check_signed c to_json s trusted what = None \<longleftrightarrow> verify_signed c to_json s trusted"
  by (auto simp: check_signed_def verify_signed_def key_id_def split: option.split)

lemma check_chain_from:
  "check_chain c what (int (length pre)) (last_hash pre) rs = None \<Longrightarrow> chained c pre \<Longrightarrow> chained c (pre @ rs)"
proof (induction rs arbitrary: pre)
  case (Cons r rs)
  have r: "chain_ok c (int (length pre)) (last_hash pre) r" "check_chain c what (int (length pre) + 1) (jr_hash r) rs = None"
    using Cons.prems(1) by (auto simp: chain_ok_def record_hash_def split: if_splits)
  have "chained c ((pre @ [r]) @ rs)"
    by (rule Cons.IH) (use r Cons.prems(2) in \<open>simp_all add: chained_snoc last_hash_def add.commute\<close>)
  then show ?case by simp
qed simp

lemma check_chain_chained:
  "check_chain c what 0 ''genesis'' rs = None \<Longrightarrow> chained c rs"
  using check_chain_from [of c what "[]" rs] by (simp add: last_hash_def chained_def)

lemma chained_check:
  "chained c (pre @ rs) \<Longrightarrow> list_all (\<lambda>r. encodable (JObj (record_members r))) rs \<Longrightarrow>
    check_chain c what (int (length pre)) (last_hash pre) rs = None"
proof (induction rs arbitrary: pre)
  case (Cons r rs)
  have k: "chain_ok c (int (length pre)) (last_hash pre) r"
    using Cons.prems(1) by (auto simp: chained_def nth_append dest: spec [of _ "length pre"])
  have "check_chain c what (int (length (pre @ [r]))) (last_hash (pre @ [r])) rs = None"
    by (rule Cons.IH) (use Cons.prems in simp_all)
  then show ?case using k Cons.prems(2) by (simp add: chain_ok_def record_hash_def last_hash_def add.commute)
qed simp

lemma mine_binding: "mine iid rs = intent_binding iid rs"
  by (simp add: mine_def intent_binding_def for_intent_def conj_commute)

text \<open>What an accepted bundle proves, whoever made it.\<close>

definition proven :: "c1 \<Rightarrow> trust_store \<Rightarrow> c1_bundle \<Rightarrow> prepared \<Rightarrow> committed \<Rightarrow> bool" where
  "proven c trust b pb cb \<longleftrightarrow>
    (let p = sg_payload (pb_signed_intent pb); ns = it_namespace p; gen = it_expected_generation p
     in verify_signed c intent_json (pb_signed_intent pb) (tr_authority_keys trust) \<and>
        sg_kid (pb_signed_intent pb) = it_authority_kid p \<and> it_intent_id p = bu_intent_id b \<and>
        verify_signed c certificate_json (bu_certificate b) (tr_finalizer_keys trust) \<and>
        (\<exists>adm issued expires. canon_parse_time c (pb_admitted_at pb) = Some adm \<and> canon_parse_time c (it_issued_at p) = Some issued \<and>
           canon_parse_time c (it_expires_at p) = Some expires \<and> issued - 5000000 \<le> adm \<and> adm < expires) \<and>
        it_expected_root p = state_root c ns gen (pb_pre_entries pb) \<and>
        mset (cb_post_entries cb) = add_mset (it_key p, it_value p) (filter_mset (\<lambda>e. fst e \<noteq> it_key p) (mset (pb_pre_entries pb))) \<and>
        cf_post_root (sg_payload (bu_certificate b)) = state_root c ns (gen + 1) (cb_post_entries cb) \<and>
        cf_intent_hash (sg_payload (bu_certificate b)) = canon_digest c (intent_json p))"

lemma check_state_None:
  assumes "check_state c iid pb cb = None"
  defines "p \<equiv> sg_payload (pb_signed_intent pb)"
  shows "it_expected_root p = state_root c (it_namespace p) (it_expected_generation p) (pb_pre_entries pb)"
    "cb_post_root cb = state_root c (it_namespace p) (it_expected_generation p + 1) (cb_post_entries cb)"
    "mset (cb_post_entries cb) = add_mset (it_key p, it_value p) (filter_mset (\<lambda>e. fst e \<noteq> it_key p) (mset (pb_pre_entries pb)))"
proof -
  have s: "sort (cb_post_entries cb) = sort (filter (\<lambda>e. fst e \<noteq> it_key p) (pb_pre_entries pb) @ [(it_key p, it_value p)])"
    using assms by (auto simp: check_state_def Let_def split: if_splits)
  then have "mset (cb_post_entries cb) = mset (filter (\<lambda>e. fst e \<noteq> it_key p) (pb_pre_entries pb) @ [(it_key p, it_value p)])"
    by (metis mset_sort)
  then show "mset (cb_post_entries cb) = add_mset (it_key p, it_value p) (filter_mset (\<lambda>e. fst e \<noteq> it_key p) (mset (pb_pre_entries pb)))"
    by simp
qed (use assms in \<open>auto simp: check_state_def Let_def split: if_splits\<close>)

lemma check_authority_None:
  assumes "check_authority c trust iid rs pb cert = None"
  defines "p \<equiv> sg_payload (pb_signed_intent pb)"
  shows "verify_signed c intent_json (pb_signed_intent pb) (tr_authority_keys trust)" "sg_kid (pb_signed_intent pb) = it_authority_kid p"
    "it_intent_id p = iid" "verify_signed c certificate_json cert (tr_finalizer_keys trust)"
    "\<exists>adm issued expires. canon_parse_time c (pb_admitted_at pb) = Some adm \<and> canon_parse_time c (it_issued_at p) = Some issued \<and>
       canon_parse_time c (it_expires_at p) = Some expires \<and> issued - 5000000 \<le> adm \<and> adm < expires"
    "list_all (\<lambda>r. body_intent_hash (jr_body r) = Some (canon_digest c (intent_json p))) rs"
  using assms
  by (auto simp: check_authority_def Let_def CLOCK_SKEW_S_def check_signed_None split: option.splits if_splits)

lemma verify_c1_None:
  assumes "verify_c1 c trust b = None"
  obtains committed pb cb where "check_chain c ''journal_chain'' 0 ''genesis'' (bu_journal b) = None"
    "check_path (bu_intent_id b) (bu_journal b) = None" "find (\<lambda>r. jr_kind r = COMMITTED_RECORD) (mine (bu_intent_id b) (bu_journal b)) = Some committed"
    "prepared_body (jr_body (hd (mine (bu_intent_id b) (bu_journal b)))) = Some pb" "committed_body (jr_body committed) = Some cb"
    "check_authority c trust (bu_intent_id b) (mine (bu_intent_id b) (bu_journal b)) pb (bu_certificate b) = None"
    "check_state c (bu_intent_id b) pb cb = None"
    "check_receipt c b (hd (mine (bu_intent_id b) (bu_journal b))) pb committed cb (last (mine (bu_intent_id b) (bu_journal b))) = None"
  using assms by (auto simp: verify_c1_def Let_def split: if_splits option.splits)

lemma body_cases: "prepared_body x = Some pb \<longleftrightarrow> x = Prepared_Body pb" "committed_body x = Some cb \<longleftrightarrow> x = Committed_Body cb"
  by (cases x; auto)+

text \<open>
  C10. The verifier is sound: an accepted bundle holds a hash-chained journal with one legal path of its
  intent to FINALIZED at its end, an intent signed by a trusted authority and admitted in its window, a
  certificate of a trusted finalizer for it, and a committed state that is the state the
  intent expected with exactly its key set, under the root the certificate names.
\<close>

theorem accepted_bundle_proves:
  assumes "verify_bundle c trust w b = VALID_FINALIZED profile iid root"
  shows "iid = bu_intent_id b \<and> root = cf_post_root (sg_payload (bu_certificate b)) \<and> chained c (bu_journal b) \<and>
    kinds iid (bu_journal b) \<in> LEGAL_FINAL_PATHS \<and> (w \<longrightarrow> profile = ''W1'') \<and>
    (\<exists>pb cb cm. jr_body (hd (intent_binding iid (bu_journal b))) = Prepared_Body pb \<and> cm \<in> set (intent_binding iid (bu_journal b)) \<and>
       jr_body cm = Committed_Body cb \<and> proven c trust b pb cb)"
proof -
  have v: "verify_c1 c trust b = None" and r: "iid = bu_intent_id b" "root = cf_post_root (sg_payload (bu_certificate b))" "w \<longrightarrow> profile = ''W1''"
    using assms by (auto simp: verify_bundle_def split: option.splits prod.splits sum.splits if_splits)
  obtain committed pb cb where x: "check_chain c ''journal_chain'' 0 ''genesis'' (bu_journal b) = None"
    "check_path (bu_intent_id b) (bu_journal b) = None" "find (\<lambda>r. jr_kind r = COMMITTED_RECORD) (mine (bu_intent_id b) (bu_journal b)) = Some committed"
    "prepared_body (jr_body (hd (mine (bu_intent_id b) (bu_journal b)))) = Some pb" "committed_body (jr_body committed) = Some cb"
    "check_authority c trust (bu_intent_id b) (mine (bu_intent_id b) (bu_journal b)) pb (bu_certificate b) = None"
    "check_state c (bu_intent_id b) pb cb = None"
    "check_receipt c b (hd (mine (bu_intent_id b) (bu_journal b))) pb committed cb (last (mine (bu_intent_id b) (bu_journal b))) = None"
    by (rule verify_c1_None [OF v])
  have path: "kinds iid (bu_journal b) \<in> LEGAL_FINAL_PATHS"
    using x(2) r(1) by (auto simp: check_path_def Let_def mine_binding kinds_binding split: if_splits)
  have cm: "committed \<in> set (intent_binding iid (bu_journal b))" using x(3) r(1) by (auto simp: mine_binding find_Some_iff)
  have cert: "sg_payload (bu_certificate b) = want c (bu_intent_id b) (hd (mine (bu_intent_id b) (bu_journal b))) pb committed cb (sg_kid (bu_certificate b))"
    using x(8) by (auto simp: check_receipt_def Let_def split: if_splits)
  have "proven c trust b pb cb"
    unfolding proven_def Let_def using check_authority_None [OF x(6)] check_state_None [OF x(7)] cert by (simp add: want_def Let_def)
  then show ?thesis using r path cm check_chain_chained [OF x(1)] x(4,5) by (auto simp: body_cases mine_binding)
qed

subsection \<open>What the coordinator exports\<close>

lemma unb64u_encode [simp]: "unb64u (b64encode v) = Some v"
  by (simp add: unb64u_def)

lemma verify_own_signature:
  assumes "\<forall>m. c_valid c (c_public c sk) (c_sign c sk m) m" "encodable (to_json p)"
    "trusted (key_id c (c_public c sk)) = Some (b64encode (c_public c sk))"
  shows "verify_signed c to_json (canon_sign c to_json p sk (key_id c (c_public c sk))) trusted"
  using assms by (simp add: verify_signed_def canon_sign_def)

text \<open>The FINALIZED record of an intent is its last one: up to it, the journal holds all records of the intent.\<close>

lemma final_prefix:
  assumes inv: "home_inv co ns sid hist cur h" and ch: "chained c (hm_journal h)"
    and fin: "fin \<in> set (for_intent iid (hm_journal h))" "jr_kind fin = Kind FINALIZED"
  defines "js \<equiv> take (nat (jr_seq fin) + 1) (hm_journal h)"
  shows "intent_binding iid js = intent_binding iid (hm_journal h)" "last js = fin" "js \<noteq> []" "last (intent_binding iid js) = fin"
proof -
  have "fin \<in> set (hm_journal h)" "jr_intent_id fin = iid" using fin(1) by (auto simp: for_intent_def)
  then obtain i where i: "i < length (hm_journal h)" "hm_journal h ! i = fin" by (auto simp: in_set_conv_nth)
  then have "jr_seq fin = int i" using ch by (auto simp: chained_def chain_ok_def)
  then have js: "js = take i (hm_journal h) @ [fin]" using i by (simp add: js_def take_Suc_conv_app_nth)
  have split: "hm_journal h = js @ drop (Suc i) (hm_journal h)" using id_take_nth_drop [OF i(1)] i(2) js by simp
  have f: "intent_binding iid [fin] = [fin]" using fin(2) \<open>jr_intent_id fin = iid\<close> by (simp add: intent_binding_def for_intent_def)
  have bnd: "fin \<in> set (intent_binding iid (hm_journal h))" using fin by (simp add: intent_binding_def)
  have ks: "kinds iid (hm_journal h) \<in> legal_kinds True False" by (rule finalized_facts [OF inv bnd fin(2)])
  have e: "intent_binding iid (hm_journal h) = intent_binding iid (take i (hm_journal h)) @ [fin] @ intent_binding iid (drop (Suc i) (hm_journal h))"
    by (rule trans [OF arg_cong [OF split, of "intent_binding iid"]]) (simp only: js binding_append f append.assoc)
  have "intent_binding iid (drop (Suc i) (hm_journal h)) = []"
  proof (rule ccontr)
    assume "intent_binding iid (drop (Suc i) (hm_journal h)) \<noteq> []"
    then have "Kind FINALIZED \<in> set (butlast (kinds iid (hm_journal h)))"
      unfolding kinds_binding e by (simp add: butlast_append fin(2))
    then show False using ks by auto
  qed
  then show "intent_binding iid js = intent_binding iid (hm_journal h)" using e js by (simp add: binding_append f)
  show "last js = fin" "js \<noteq> []" using js by simp_all
  show "last (intent_binding iid js) = fin" using js by (simp add: binding_append f)
qed

lemma encodable_record: "encodable (JObj (record_members r)) \<Longrightarrow> encodable (body_json (jr_body r))"
  by (simp add: record_members_def)

lemma own_state_checks:
  assumes "admitted co st s"
  shows "check_state (co_codec co) (sid_of s) (prepared_for (co_codec co) s st at) (committed_for (co_codec co) s (apply_intent (co_codec co) s st) r) = None"
  using assms
  by (simp add: check_state_def admitted_def prepared_for_def committed_for_def Let_def store_root_def store_entries_def upsert_def
      sort_filter_sort apply_intent_applied sorted_sort_id)

lemma own_authority_checks:
  assumes adm: "admitted co st s" and b: "bodies_ok co (sid_of s) s st rs"
    and trust: "tr_authority_keys trust = co_authority_keys co" and cert: "verify_signed (co_codec co) certificate_json cert (tr_finalizer_keys trust)"
    and times: "canon_parse_time (co_codec co) at = Some a" "canon_parse_time (co_codec co) (it_issued_at (sg_payload s)) = Some i"
      "canon_parse_time (co_codec co) (it_expires_at (sg_payload s)) = Some e"
  shows "check_authority (co_codec co) trust (sid_of s) rs (prepared_for (co_codec co) s st at) cert =
    (if i - 5000000 \<le> a \<and> a < e then None else Some (''REJECTED_OUTSIDE_AUTHORITY_WINDOW'', ''authority_window''))"
proof -
  have v: "check_signed (co_codec co) intent_json s (tr_authority_keys trust) ''intent_signature'' = None"
    using adm trust by (simp add: check_signed_None admitted_def)
  have vc: "check_signed (co_codec co) certificate_json cert (tr_finalizer_keys trust) ''certificate_signature'' = None"
    using cert by (simp add: check_signed_None)
  show ?thesis using adm b v vc times
    by (simp add: check_authority_def prepared_for_def Let_def admitted_def bodies_ok_def list_all_iff CLOCK_SKEW_S_def)
qed

lemma find_committed:
  assumes "map jr_kind rs \<in> legal_kinds True False" "cm \<in> set rs" "jr_kind cm = COMMITTED_RECORD"
  shows "find (\<lambda>r. jr_kind r = COMMITTED_RECORD) rs = Some cm"
proof -
  have "length (filter (\<lambda>k. k = COMMITTED_RECORD) (map jr_kind rs)) = 1" using assms(1) by auto
  then have "length (filter (\<lambda>r. jr_kind r = COMMITTED_RECORD) rs) = 1" by (simp add: filter_map comp_def)
  then obtain x where x: "filter (\<lambda>r. jr_kind r = COMMITTED_RECORD) rs = [x]" by (metis One_nat_def length_0_conv length_Suc_conv)
  have "cm \<in> set (filter (\<lambda>r. jr_kind r = COMMITTED_RECORD) rs)" using assms(2,3) by simp
  then have "cm = x" using x by simp
  moreover obtain us vs where "rs = us @ x # vs" "\<forall>u \<in> set us. jr_kind u \<noteq> COMMITTED_RECORD"
    using x by (auto simp: filter_eq_Cons_iff)
  ultimately show ?thesis using assms(3) by (simp add: find_append find_None_iff [THEN iffD2])
qed

lemma own_path:
  assumes "kinds iid js \<in> legal_kinds True False" "intent_binding iid [last js] \<noteq> []"
  shows "check_path iid js = None"
  using assms by (auto simp: check_path_def Let_def mine_binding kinds_binding LEGAL_FINAL_PATHS_def)

lemma own_receipt:
  assumes "body_certificate (jr_body fin) = Some cert"
    and "cert = canon_sign c certificate_json (certificate_of iid kid prep (prepared_for c s st at) cm cb) sk kid"
  shows "check_receipt c (bundle_of c iid js cert w) prep (prepared_for c s st at) cm cb fin = None"
  using assms by (simp add: check_receipt_def bundle_of_def want_def certificate_of_def canon_sign_def prepared_for_def Let_def FINALITY_PROTOCOL_def)

lemma reachable_trust:
  assumes "reachable c ns sid sk keys trust h"
  shows "tr_finalizer_keys trust (key_id c (c_public c sk)) = Some (b64encode (c_public c sk))"
  using assms by induction (auto simp: init_home_def split: if_splits)

lemma export_plain:
  assumes "export_bundle c iid None js = Some b"
  obtains fin cert where "fin \<in> set (for_intent iid js)" "jr_kind fin = Kind FINALIZED" "body_certificate (jr_body fin) = Some cert"
    "b = bundle_of c iid (take (nat (jr_seq fin) + 1) js) cert None"
proof -
  let ?f = "filter (\<lambda>r. jr_kind r = Kind FINALIZED) (for_intent iid js)"
  obtain fin where f: "?f = [fin]" using assms by (auto simp: export_bundle_def split: list.splits)
  then have "fin \<in> set ?f" by simp
  then have m: "fin \<in> set (for_intent iid js)" "jr_kind fin = Kind FINALIZED" by simp_all
  obtain cert where c: "body_certificate (jr_body fin) = Some cert" "b = bundle_of c iid (take (nat (jr_seq fin) + 1) js) cert None"
    using assms f by (auto simp: export_bundle_def split: option.splits)
  show thesis by (rule that [OF m c])
qed

text \<open>The records of a finalized intent, as the verifier finds them in the exported journal.\<close>

lemma exported_records:
  assumes inv: "home_inv co ns sid hist cur h" and fin: "fin \<in> set (for_intent iid (hm_journal h))" "jr_kind fin = Kind FINALIZED"
  defines "rs \<equiv> intent_binding iid (hm_journal h)"
  obtains st s at cm r cert where "sid_of s = iid" "admitted co st s" "bodies_ok co iid s st rs" "map jr_kind rs \<in> legal_kinds True False"
    "jr_body (hd rs) = Prepared_Body (prepared_for (co_codec co) s st at)" "find (\<lambda>r. jr_kind r = COMMITTED_RECORD) rs = Some cm"
    "jr_body cm = Committed_Body (committed_for (co_codec co) s (apply_intent (co_codec co) s st) r)"
    "jr_body fin = Finalized_Body (canon_digest (co_codec co) (intent_json (sg_payload s))) cert"
    "cert = canon_sign (co_codec co) certificate_json (certificate_of iid (co_finalizer_kid co) (hd rs) (prepared_for (co_codec co) s st at) cm
       (committed_for (co_codec co) s (apply_intent (co_codec co) s st) r)) (co_finalizer_sk co) (co_finalizer_kid co)"
proof -
  have bnd: "fin \<in> set (intent_binding iid (hm_journal h))" using fin by (simp add: intent_binding_def)
  obtain h1 s h2 where h: "hist = h1 @ s # h2" "sid_of s = iid" "kinds iid (hm_journal h) \<in> legal_kinds True False"
    "admitted co (store_of (co_codec co) ns sid h1) s"
    "bodies_ok co iid s (store_of (co_codec co) ns sid h1) (intent_binding iid (hm_journal h))"
    by (rule finalized_facts [OF inv bnd fin(2)])
  let ?st = "store_of (co_codec co) ns sid h1"
  have "COMMITTED_RECORD \<in> set (kinds iid (hm_journal h))" using h(3) by auto
  then have m: "COMMITTED_RECORD \<in> jr_kind ` set rs" by (simp add: rs_def kinds_binding)
  obtain cert prep at cm r where f: "final_certificate co iid (hm_journal h) = Some cert" "prep = hd rs" "cm \<in> set rs"
    "jr_kind cm = COMMITTED_RECORD" "jr_body prep = Prepared_Body (prepared_for (co_codec co) s ?st at)"
    "jr_body cm = Committed_Body (committed_for (co_codec co) s (apply_intent (co_codec co) s ?st) r)"
    "cert = canon_sign (co_codec co) certificate_json (certificate_of iid (co_finalizer_kid co) prep (prepared_for (co_codec co) s ?st at) cm
       (committed_for (co_codec co) s (apply_intent (co_codec co) s ?st) r)) (co_finalizer_sk co) (co_finalizer_kid co)"
    by (rule final_certificate_fields [OF h(5) refl m [unfolded rs_def] refl, folded rs_def])
  have b: "jr_body fin = Finalized_Body (canon_digest (co_codec co) (intent_json (sg_payload s))) cert"
    using h(5) bnd fin(2) f(1) final_certificate_binding [of co iid "hm_journal h"] by (auto simp: bodies_ok_def)
  have ks: "map jr_kind rs \<in> legal_kinds True False" using h(3) by (simp add: rs_def kinds_binding)
  show thesis
    by (rule that [OF h(2,4) h(5)[folded rs_def] ks f(5)[unfolded f(2)] find_committed [OF ks f(3,4)] f(6) b f(7)[unfolded f(2)]])
qed

lemma export_verdict:
  assumes "reachable c ns sid sk keys trust h" "export_bundle c iid None (hm_journal h) = Some b"
    and "\<forall>m. c_valid c (c_public c sk) (c_sign c sk m) m" "list_all (\<lambda>r. encodable (JObj (record_members r))) (hm_journal h)"
    and "prepared_body (jr_body (hd (intent_binding iid (hm_journal h)))) = Some pb"
    and "canon_parse_time c (pb_admitted_at pb) = Some a" "canon_parse_time c (it_issued_at (sg_payload (pb_signed_intent pb))) = Some i"
      "canon_parse_time c (it_expires_at (sg_payload (pb_signed_intent pb))) = Some e"
  shows "verify_bundle c trust False b =
    (if i - 5000000 \<le> a \<and> a < e then VALID_FINALIZED ''L1'' iid (cf_post_root (sg_payload (bu_certificate b)))
     else Rejected ''REJECTED_OUTSIDE_AUTHORITY_WINDOW'' ''authority_window'')"
proof -
  define co where "co = coordinator_open c trust sk (\<lambda>_. 0)"
  have co: "co_codec co = c" "co_authority_keys co = tr_authority_keys trust" "co_finalizer_sk co = sk"
    "co_finalizer_kid co = key_id c (c_public c sk)" by (simp_all add: co_def)
  obtain hist cur where inv: "home_inv co ns sid hist cur h" and ch: "chained c (hm_journal h)"
    using reachable_inv [OF assms(1)] unfolding co_def by blast
  obtain fin cert where fin: "fin \<in> set (for_intent iid (hm_journal h))" "jr_kind fin = Kind FINALIZED" "body_certificate (jr_body fin) = Some cert"
    "b = bundle_of c iid (take (nat (jr_seq fin) + 1) (hm_journal h)) cert None" by (rule export_plain [OF assms(2)])
  define js where "js = take (nat (jr_seq fin) + 1) (hm_journal h)"
  define rs where "rs = intent_binding iid (hm_journal h)"
  note pre = final_prefix [OF inv ch fin(1,2), folded js_def rs_def]
  obtain st s at cm r cert' where x: "sid_of s = iid" "admitted co st s" "bodies_ok co iid s st rs" "map jr_kind rs \<in> legal_kinds True False"
    "jr_body (hd rs) = Prepared_Body (prepared_for c s st at)" "find (\<lambda>r. jr_kind r = COMMITTED_RECORD) rs = Some cm"
    "jr_body cm = Committed_Body (committed_for c s (apply_intent c s st) r)"
    "jr_body fin = Finalized_Body (canon_digest c (intent_json (sg_payload s))) cert'"
    "cert' = canon_sign c certificate_json (certificate_of iid (key_id c (c_public c sk)) (hd rs) (prepared_for c s st at) cm
       (committed_for c s (apply_intent c s st) r)) sk (key_id c (c_public c sk))"
    by (rule exported_records [OF inv fin(1,2), folded rs_def, unfolded co])
  have cert: "cert' = cert" using fin(3) x(8) by simp
  have pb: "pb = prepared_for c s st at" using assms(5) x(5) by (simp add: rs_def)
  have "fin \<in> set (hm_journal h)" using fin(1) by (auto simp: for_intent_def)
  then have "encodable (body_json (jr_body fin))" using assms(4) encodable_record by (auto simp: list_all_iff)
  then have "encodable (certificate_json (sg_payload cert))" by (simp add: x(8) cert signed_json_def)
  then have vc: "verify_signed c certificate_json cert (tr_finalizer_keys trust)"
    using verify_own_signature [of c sk certificate_json "sg_payload cert" "tr_finalizer_keys trust"] assms(3) reachable_trust [OF assms(1)] x(9) cert
    by (simp add: canon_sign_def)
  have "list_all (\<lambda>r. encodable (JObj (record_members r))) js" using assms(4) by (auto simp: js_def list_all_iff dest: in_set_takeD)
  then have chain: "check_chain c ''journal_chain'' 0 ''genesis'' js = None"
    using chained_check [of c "[]" js] ch by (simp add: chained_def last_hash_def js_def)
  have path: "check_path iid js = None"
    by (rule own_path) (use pre(1,2) x(4) fin(1,2) in \<open>auto simp: kinds_binding intent_binding_def for_intent_def\<close>)
  have auth: "check_authority c trust iid rs (prepared_for c s st at) cert =
      (if i - 5000000 \<le> a \<and> a < e then None else Some (''REJECTED_OUTSIDE_AUTHORITY_WINDOW'', ''authority_window''))"
    using own_authority_checks [OF x(2) x(3)[folded x(1)], of trust cert at a i e] assms(6-8) vc co x(1) pb by (simp add: prepared_for_def Let_def)
  have state: "check_state c iid (prepared_for c s st at) (committed_for c s (apply_intent c s st) r) = None"
    using own_state_checks [OF x(2), of at r] co x(1) by simp
  have rec: "check_receipt c b (hd rs) (prepared_for c s st at) cm (committed_for c s (apply_intent c s st) r) fin = None"
    unfolding fin(4) by (rule own_receipt [OF fin(3) x(9)[unfolded cert]])
  have b: "bu_intent_id b = iid" "bu_journal b = js" "bu_protocol b = BUNDLE_PROTOCOL" "bu_certificate b = cert" "bu_witness b = None"
    by (simp_all add: fin(4) bundle_of_def js_def)
  have "verify_c1 c trust b = (if i - 5000000 \<le> a \<and> a < e then None else Some (''REJECTED_OUTSIDE_AUTHORITY_WINDOW'', ''authority_window''))"
    using chain path x(5-7) auth state rec pre b by (simp add: verify_c1_def Let_def mine_binding)
  then show ?thesis by (simp add: verify_bundle_def verify_witness_def b)
qed

text \<open>
  C20. Export and verification: a bundle that the coordinator exports is accepted by the verifier exactly
  when the time recorded as admission lies in the window of the intent, and is otherwise rejected
  for that reason alone. Signatures of the finalizer must verify, and every number must be encodable.
\<close>

theorem exported_bundle_verdict:
  assumes "reachable c ns sid sk keys trust h" "export_bundle c iid None (hm_journal h) = Some b"
    and "\<forall>m. c_valid c (c_public c sk) (c_sign c sk m) m" "list_all (\<lambda>r. encodable (JObj (record_members r))) (hm_journal h)"
    and "prepared_body (jr_body (hd (intent_binding iid (hm_journal h)))) = Some pb"
    and "canon_parse_time c (pb_admitted_at pb) = Some a" "canon_parse_time c (it_issued_at (sg_payload (pb_signed_intent pb))) = Some i"
      "canon_parse_time c (it_expires_at (sg_payload (pb_signed_intent pb))) = Some e"
  shows "verify_bundle c trust False b =
    (if i - 5000000 \<le> a \<and> a < e then VALID_FINALIZED ''L1'' iid (cf_post_root (sg_payload (bu_certificate b)))
     else Rejected ''REJECTED_OUTSIDE_AUTHORITY_WINDOW'' ''authority_window'')"
  by (rule export_verdict [OF assms])

subsection \<open>The records of an undisturbed run\<close>

lemma append_done: "binding_kind k \<Longrightarrow> state_after (kinds iid (hm_journal h) @ [k]) \<noteq> None \<Longrightarrow>
  c1_append co k iid b h (Suc n) = (jput co k iid b h, n, Done ())"
  by (auto simp: c1_append_def durable_def jput_def)

lemma first_run:
  assumes adm: "admitted co (store_create ns sid) s" and h: "h = \<lparr>hm_store = store_create ns sid, hm_journal = []\<rparr>"
    and ih: "ih = canon_digest (co_codec co) (intent_json (sg_payload s))"
  defines "post \<equiv> apply_intent (co_codec co) s (store_create ns sid)"
  obtains h4 n' r cert where "execute co s ih h 5 = (jput co (Kind FINALIZED) (sid_of s) (Finalized_Body ih cert) h4, n', Done r)"
    "h4 = jput co COMMITTED_RECORD (sid_of s) (Committed_Body (committed_for (co_codec co) s post False))
      (jput co (Kind COMMITTING) (sid_of s) (Committing_Body ih)
        (jput co (Kind PREPARED) (sid_of s) (Prepared_Body (prepared_for (co_codec co) s (store_create ns sid) (format_time (co_clock co 1)))) h)
      \<lparr>hm_store := post\<rparr>)"
    "final_certificate co (sid_of s) (hm_journal h4) = Some cert"
proof -
  let ?c = "co_codec co" and ?i = "sid_of s"
  let ?pb = "prepared_for ?c s (store_create ns sid) (format_time (co_clock co 1))"
  define h1 where "h1 = jput co (Kind PREPARED) ?i (Prepared_Body ?pb) h"
  define h2 where "h2 = jput co (Kind COMMITTING) ?i (Committing_Body ih) h1"
  define h3 where "h3 = h2\<lparr>hm_store := post\<rparr>"
  define h4 where "h4 = jput co COMMITTED_RECORD ?i (Committed_Body (committed_for ?c s post False)) h3"
  have k0: "kinds ?i (hm_journal h) = []" by (simp add: h kinds_def intent_binding_def for_intent_def)
  have k1: "kinds ?i (hm_journal h1) = [Kind PREPARED]" by (simp add: h1_def kinds_jput k0)
  have k2: "kinds ?i (hm_journal h2) = [Kind PREPARED, Kind COMMITTING]" by (simp add: h2_def kinds_jput k1)
  have k3: "kinds ?i (hm_journal h3) = [Kind PREPARED, Kind COMMITTING]" by (simp add: h3_def k2)
  have k4: "kinds ?i (hm_journal h4) = [Kind PREPARED, Kind COMMITTING, COMMITTED_RECORD]" by (simp add: h4_def kinds_jput k3)
  obtain r1 where b1: "intent_binding ?i (hm_journal h1) = [r1]" "jr_body r1 = Prepared_Body ?pb"
    using jput_same [of "Kind PREPARED" ?i co "Prepared_Body ?pb" h] k0 by (metis append_Nil binding_kind_simps(1) h1_def kinds_binding map_is_Nil_conv)
  obtain r2 where b2: "intent_binding ?i (hm_journal h3) = [r1, r2]"
    using jput_same [of "Kind COMMITTING" ?i co "Committing_Body ih" h1] b1 by (auto simp: h2_def h3_def)
  obtain r3 where b4: "intent_binding ?i (hm_journal h4) = [r1, r2, r3]" "jr_kind r3 = COMMITTED_RECORD"
    "jr_body r3 = Committed_Body (committed_for ?c s post False)"
    using jput_same [of COMMITTED_RECORD ?i co "Committed_Body (committed_for ?c s post False)" h3] b2 by (auto simp: h4_def)
  have nk: "jr_kind r1 = Kind PREPARED" "jr_kind r2 = Kind COMMITTING" using k4 b4(1) by (simp_all add: kinds_binding)
  define cert where "cert = canon_sign ?c certificate_json (certificate_of ?i (co_finalizer_kid co) r1 ?pb r3 (committed_for ?c s post False))
    (co_finalizer_sk co) (co_finalizer_kid co)"
  have fc: "final_certificate co ?i (hm_journal h4) = Some cert" by (simp add: final_certificate_def b4 b1(2) nk cert_def)
  have hash: "cf_intent_hash (sg_payload cert) = ih" by (simp add: cert_def canon_sign_def certificate_of_def prepared_for_def Let_def ih)
  define h5 where "h5 = jput co (Kind FINALIZED) ?i (Finalized_Body ih cert) h4"
  have fin: "finalize co ?i h4 1 = (h5, 0, Done ())"
    unfolding finalize_def fc option.case hash h5_def One_nat_def by (rule append_done) (simp_all add: k4 state_after_def Let_def)
  have k5: "kinds ?i (hm_journal h5) = [Kind PREPARED, Kind COMMITTING, COMMITTED_RECORD, Kind FINALIZED]" by (simp add: h5_def kinds_jput k4)
  have st: "store_create ns sid = store_of ?c ns sid []" by simp
  have st3: "hm_store h3 = post" by (simp add: h3_def)
  have row: "applied ?i post = Some (last (st_applied post))" using applied_last [of s "[]" ?c ns sid] by (simp add: post_def)
  have np: "read_problems ?c ?pb (applied ?i post) post = []" using no_problems [of s "[]" _ ?c ns sid, OF _ st] by (simp add: post_def)
  have m: "c1_append co COMMITTED_RECORD ?i (Committed_Body (committed_for ?c s post False)) h3 2 = (h4, 1, Done ())"
    unfolding h4_def numeral_2_eq_2 One_nat_def by (rule append_done) (simp_all add: k3 state_after_def Let_def)
  have cbe: "\<lparr>cb_intent_hash = pb_intent_hash ?pb, cb_post_generation = st_generation post, cb_post_root = store_root ?c post,
      cb_post_entries = store_entries post, cb_applied_row = last (st_applied post), cb_physical = durability (st_store_id post),
      cb_recovered = False\<rparr> = committed_for ?c s post False"
    by (simp add: committed_for_def prepared_for_def Let_def)
  have conf: "confirm_commit co ?i False h3 2 = (h5, 0, Done True)"
    using m fin np row b2 b1(2) st3 by (simp add: confirm_commit_def Let_def and_then_def ret_def cbe del: One_nat_def)
  have res: "\<exists>r. result_of ?i False h5 0 = (h5, 0, Done r)"
  proof -
    have "intent_binding ?i (hm_journal h5) \<noteq> []" using k5 by (auto simp: kinds_binding)
    then show ?thesis by (simp add: result_of_def Let_def k5 state_after_def)
  qed
  then obtain r where r: "result_of ?i False h5 0 = (h5, 0, Done r)" by blast
  have up: "upsert_txn ?c ?i ih (it_key (sg_payload s)) (it_value (sg_payload s)) (it_expected_generation (sg_payload s))
      (it_expected_root (sg_payload s)) (hm_store h1) = Ready post"
    using upsert_ready [of s "[]" co ns sid] adm by (simp add: h1_def h ih post_def)
  have p: "c1_append co (Kind PREPARED) ?i (Prepared_Body ?pb) h 5 = (h1, 4, Done ())"
    using append_done [of "Kind PREPARED" ?i h co "Prepared_Body ?pb" 4] by (simp add: h1_def k0 state_after_def Let_def)
  have cm: "c1_append co (Kind COMMITTING) ?i (Committing_Body ih) h1 4 = (h2, 3, Done ())"
    using append_done [of "Kind COMMITTING" ?i h1 co "Committing_Body ih" 3] by (simp add: h2_def k1 state_after_def Let_def)
  have d: "durable (\<lambda>h. h\<lparr>hm_store := post\<rparr>) h2 3 = (h3, 2, Done ())" by (simp add: durable_def h3_def numeral_eq_Suc)
  have "hm_store h = store_create ns sid" by (simp add: h)
  then have "execute co s ih h 5 = (h5, 0, Done r)"
    using p cm d conf r up by (simp add: execute_def Let_def and_then_def prepared_for_def ih [symmetric] del: One_nat_def)
  then show thesis using fc unfolding h5_def h4_def h3_def h2_def h1_def by (rule that [OF _ refl])
qed

subsection \<open>A finalized intent, exported and verified\<close>

lemma sample_intent_admitted: "admitted sample_coordinator (store_create ''ns'' ''store'') sample_signed"
proof -
  have "verify_signed sample_c1 intent_json sample_signed (co_authority_keys sample_coordinator)"
    using verify_intent [of "sb_signed sample_submission" "sg_payload sample_signed" sample_signed] sample_verifies
    by (simp add: sample_submission_def)
  then show ?thesis
    by (simp add: admitted_def sample_coordinator_def sample_signed_def make_intent_def canon_sign_def)
      (simp add: store_create_def)
qed

lemma sample_submit:
  "submit sample_coordinator sample_submission sample_home n =
    execute sample_coordinator sample_signed (canon_digest sample_c1 (intent_json (sg_payload sample_signed))) sample_home n"
proof -
  have cc: "co_codec sample_coordinator = sample_c1" by (simp add: sample_coordinator_def)
  have new: "intent_binding iid (hm_journal sample_home) = []" for iid by (simp add: sample_home_def intent_binding_def for_intent_def)
  obtain si ih where si: "intent_of (sb_signed sample_submission) = Some si" "ih = canon_digest sample_c1 (intent_json (sg_payload si))" and
    ex: "\<And>n. precondition_refusal sample_c1 (sg_payload si) (hm_store sample_home) = None \<Longrightarrow>
      submit_locked sample_coordinator sample_submission sample_home n = execute sample_coordinator si ih sample_home n"
    using submit_admitted [OF sample_admitted new] unfolding cc by metis
  have s: "si = sample_signed" using si(1) by (auto simp: sample_submission_def)
  have "recover sample_coordinator sample_home n = (sample_home, n, Done [])"
    by (simp add: recover_def prepared_ids_def sample_home_def ret_def)
  then show ?thesis using ex si(2) s sample_precondition by (simp add: submit_def and_then_def)
qed

lemma encodable_entries [simp]: "encodable (entries_json es)"
  by (induction es) (auto simp: entries_json_def)

lemma encodable_new: "list_all (\<lambda>(k, v). encodable v) (record_members (new_record c k iid b at rs)) \<longleftrightarrow> int (length rs) \<le> 2 ^ 53 - 1 \<and> encodable (body_json b)"
  by (simp add: record_members_def new_record_def Let_def)

lemma sample_run:
  obtains h' n' r cert where "submit sample_coordinator sample_submission sample_home 5 = (h', n', Done r)"
    "map jr_kind (hm_journal h') = [Kind PREPARED, Kind COMMITTING, COMMITTED_RECORD, Kind FINALIZED]"
    "map jr_intent_id (hm_journal h') = replicate 4 (sid_of sample_signed)"
    "jr_body (hm_journal h' ! 0) = Prepared_Body (prepared_for sample_c1 sample_signed (store_create ''ns'' ''store'') (format_time 1000000))"
    "jr_body (hm_journal h' ! 3) = Finalized_Body (canon_digest sample_c1 (intent_json (sg_payload sample_signed))) cert"
    "list_all (\<lambda>r. encodable (JObj (record_members r))) (hm_journal h')"
proof -
  let ?ih = "canon_digest sample_c1 (intent_json (sg_payload sample_signed))" and ?co = sample_coordinator and ?i = "sid_of sample_signed"
  have cc: "co_codec ?co = sample_c1" "co_clock ?co 1 = 1000000" by (simp_all add: sample_coordinator_def sample_clock_def)
  define post where "post = apply_intent sample_c1 sample_signed (store_create ''ns'' ''store'')"
  obtain h4 n' r cert where x: "execute ?co sample_signed ?ih sample_home 5 = (jput ?co (Kind FINALIZED) ?i (Finalized_Body ?ih cert) h4, n', Done r)"
    "h4 = jput ?co COMMITTED_RECORD ?i (Committed_Body (committed_for sample_c1 sample_signed post False))
      (jput ?co (Kind COMMITTING) ?i (Committing_Body ?ih)
        (jput ?co (Kind PREPARED) ?i (Prepared_Body (prepared_for sample_c1 sample_signed (store_create ''ns'' ''store'') (format_time 1000000))) sample_home)
      \<lparr>hm_store := post\<rparr>)"
    "final_certificate ?co ?i (hm_journal h4) = Some cert"
    by (rule first_run [OF sample_intent_admitted sample_home_def, unfolded cc, OF refl, folded post_def])
  let ?h' = "jput ?co (Kind FINALIZED) ?i (Finalized_Body ?ih cert) h4"
  have j: "map jr_kind (hm_journal ?h') = [Kind PREPARED, Kind COMMITTING, COMMITTED_RECORD, Kind FINALIZED]"
    "map jr_intent_id (hm_journal ?h') = replicate 4 ?i"
    "jr_body (hm_journal ?h' ! 0) = Prepared_Body (prepared_for sample_c1 sample_signed (store_create ''ns'' ''store'') (format_time 1000000))"
    "jr_body (hm_journal ?h' ! 3) = Finalized_Body ?ih cert"
    unfolding x(2) by (simp_all add: jput_def sample_home_def numeral_eq_Suc)
  have g: "it_expected_generation (sg_payload sample_signed) = 0" by (simp add: sample_signed_def make_intent_def canon_sign_def)
  have ic: "encodable (signed_json intent_json sample_signed)" by (simp add: signed_json_def intent_json_def g)
  have "certificate_json (sg_payload cert) \<in> Collect encodable"
    using x(3) unfolding x(2)
    by (simp add: final_certificate_def intent_binding_def for_intent_def jput_def sample_home_def)
      (auto simp: certificate_json_def canon_sign_def certificate_of_def committed_for_def prepared_for_def Let_def physical_json_def
        applied_json_def post_def apply_intent_applied g store_create_def)
  then have e: "list_all (\<lambda>r. encodable (JObj (record_members r))) (hm_journal ?h')"
    unfolding x(2) using ic
    by (simp add: jput_def sample_home_def encodable_new)
      (auto simp: signed_json_def committed_for_def prepared_for_def Let_def physical_json_def
        applied_json_def post_def apply_intent_applied g store_create_def)
  show thesis by (rule that [OF _ j e]) (use x(1) sample_submit in simp)
qed

lemma sample_exported:
  obtains h' n' r b pb where "submit sample_coordinator sample_submission sample_home 5 = (h', n', Done r)"
    "reachable sample_c1 ''ns'' ''store'' ''finalizer'' sample_keys sample_trust h'"
    "export_bundle sample_c1 (sid_of sample_signed) None (hm_journal h') = Some b"
    "\<forall>m. c_valid sample_c1 (c_public sample_c1 ''finalizer'') (c_sign sample_c1 ''finalizer'' m) m"
    "list_all (\<lambda>r. encodable (JObj (record_members r))) (hm_journal h')"
    "prepared_body (jr_body (hd (intent_binding (sid_of sample_signed) (hm_journal h')))) = Some pb"
    "canon_parse_time sample_c1 (pb_admitted_at pb) = Some 1000000"
    "canon_parse_time sample_c1 (it_issued_at (sg_payload (pb_signed_intent pb))) = Some 0"
    "canon_parse_time sample_c1 (it_expires_at (sg_payload (pb_signed_intent pb))) = Some 300000000"
proof -
  obtain h' n' r cert where x: "submit sample_coordinator sample_submission sample_home 5 = (h', n', Done r)"
    "map jr_kind (hm_journal h') = [Kind PREPARED, Kind COMMITTING, COMMITTED_RECORD, Kind FINALIZED]"
    "map jr_intent_id (hm_journal h') = replicate 4 (sid_of sample_signed)"
    "jr_body (hm_journal h' ! 0) = Prepared_Body (prepared_for sample_c1 sample_signed (store_create ''ns'' ''store'') (format_time 1000000))"
    "jr_body (hm_journal h' ! 3) = Finalized_Body (canon_digest sample_c1 (intent_json (sg_payload sample_signed))) cert"
    "list_all (\<lambda>r. encodable (JObj (record_members r))) (hm_journal h')" by (rule sample_run)
  obtain r1 r2 r3 r4 where j: "hm_journal h' = [r1, r2, r3, r4]" using x(2) by auto
  have k: "jr_kind r1 = Kind PREPARED" "jr_kind r2 = Kind COMMITTING" "jr_kind r3 = COMMITTED_RECORD" "jr_kind r4 = Kind FINALIZED"
    "jr_intent_id r1 = sid_of sample_signed" "jr_intent_id r2 = sid_of sample_signed" "jr_intent_id r3 = sid_of sample_signed"
    "jr_intent_id r4 = sid_of sample_signed"
    using x(2,3) j by (simp_all add: numeral_eq_Suc)
  have reach: "reachable sample_c1 ''ns'' ''store'' ''finalizer'' sample_keys sample_trust h'"
    by (rule reachable.submitted [OF sample_reachable x(1)[unfolded sample_coordinator_def]])
  obtain b where b: "export_bundle sample_c1 (sid_of sample_signed) None (hm_journal h') = Some b"
    using k x(5) j by (simp add: export_bundle_def for_intent_def numeral_eq_Suc)
  have pb: "prepared_body (jr_body (hd (intent_binding (sid_of sample_signed) (hm_journal h')))) =
      Some (prepared_for sample_c1 sample_signed (store_create ''ns'' ''store'') (format_time 1000000))"
    using k x(4) j by (simp add: intent_binding_def for_intent_def)
  have t: "canon_parse_time sample_c1 (format_time 1000000) = Some 1000000" by code_simp
  have i: "it_issued_at (sg_payload sample_signed) = format_time 0" "it_expires_at (sg_payload sample_signed) = format_time 300000000"
    by (simp_all add: sample_signed_def make_intent_def canon_sign_def)
  have s: "\<forall>m. c_valid sample_c1 (c_public sample_c1 ''finalizer'') (c_sign sample_c1 ''finalizer'' m) m" by (simp add: sample_c1_def)
  show thesis by (rule that [OF x(1) reach b s x(6) pb]) (use t sample_parts(2,3) i in \<open>simp_all add: prepared_for_def Let_def\<close>)
qed

theorem exported_bundle_verdict_witness:
  "case submit sample_coordinator sample_submission sample_home 5 of (h', n', r) \<Rightarrow>
    \<exists>b. export_bundle sample_c1 (sid_of sample_signed) None (hm_journal h') = Some b \<and>
      verify_bundle sample_c1 sample_trust False b =
        VALID_FINALIZED ''L1'' (sid_of sample_signed) (cf_post_root (sg_payload (bu_certificate b)))"
proof -
  obtain h' n' r b pb where x: "submit sample_coordinator sample_submission sample_home 5 = (h', n', Done r)"
    "reachable sample_c1 ''ns'' ''store'' ''finalizer'' sample_keys sample_trust h'"
    "export_bundle sample_c1 (sid_of sample_signed) None (hm_journal h') = Some b"
    "\<forall>m. c_valid sample_c1 (c_public sample_c1 ''finalizer'') (c_sign sample_c1 ''finalizer'' m) m"
    "list_all (\<lambda>r. encodable (JObj (record_members r))) (hm_journal h')"
    "prepared_body (jr_body (hd (intent_binding (sid_of sample_signed) (hm_journal h')))) = Some pb"
    "canon_parse_time sample_c1 (pb_admitted_at pb) = Some 1000000"
    "canon_parse_time sample_c1 (it_issued_at (sg_payload (pb_signed_intent pb))) = Some 0"
    "canon_parse_time sample_c1 (it_expires_at (sg_payload (pb_signed_intent pb))) = Some 300000000"
    by (rule sample_exported)
  show ?thesis using exported_bundle_verdict [OF x(2-9)] x(1,3) by simp
qed

theorem accepted_bundle_proves_witness:
  "\<exists>b pb cb. bu_intent_id b = sid_of sample_signed \<and> proven sample_c1 sample_trust b pb cb"
proof -
  obtain h' n' r b pb where x: "submit sample_coordinator sample_submission sample_home 5 = (h', n', Done r)"
    "reachable sample_c1 ''ns'' ''store'' ''finalizer'' sample_keys sample_trust h'"
    "export_bundle sample_c1 (sid_of sample_signed) None (hm_journal h') = Some b"
    "\<forall>m. c_valid sample_c1 (c_public sample_c1 ''finalizer'') (c_sign sample_c1 ''finalizer'' m) m"
    "list_all (\<lambda>r. encodable (JObj (record_members r))) (hm_journal h')"
    "prepared_body (jr_body (hd (intent_binding (sid_of sample_signed) (hm_journal h')))) = Some pb"
    "canon_parse_time sample_c1 (pb_admitted_at pb) = Some 1000000"
    "canon_parse_time sample_c1 (it_issued_at (sg_payload (pb_signed_intent pb))) = Some 0"
    "canon_parse_time sample_c1 (it_expires_at (sg_payload (pb_signed_intent pb))) = Some 300000000"
    by (rule sample_exported)
  have "verify_bundle sample_c1 sample_trust False b =
      VALID_FINALIZED ''L1'' (sid_of sample_signed) (cf_post_root (sg_payload (bu_certificate b)))"
    using export_verdict [OF x(2-9)] by simp
  then show ?thesis using accepted_bundle_proves by metis
qed

subsection \<open>Two descriptions of a finalized history\<close>

definition uncertain_run :: "nat \<Rightarrow> kind list" where
  "uncertain_run n = replicate n (Kind COMMIT_UNCERTAIN)"

definition final_path :: "nat \<Rightarrow> nat \<Rightarrow> kind list" where
  "final_path m n = [Kind PREPARED, Kind COMMITTING] @ uncertain_run m @ [COMMITTED_RECORD] @ uncertain_run n @ [Kind FINALIZED]"

lemma uncertain_step: "Kind COMMIT_UNCERTAIN # ks = uncertain_run n @ k # zs \<longleftrightarrow>
  (\<exists>m. n = Suc m \<and> ks = uncertain_run m @ k # zs) \<or> n = 0 \<and> k = Kind COMMIT_UNCERTAIN \<and> ks = zs"
  by (cases n) (auto simp: uncertain_run_def)

lemma uncertain_other: "k \<noteq> Kind COMMIT_UNCERTAIN \<Longrightarrow> k # ks = uncertain_run n @ k' # zs \<longleftrightarrow> n = 0 \<and> k = k' \<and> ks = zs"
  by (cases n) (auto simp: uncertain_run_def)

lemma replay_closed: "replay_kinds FINALIZED b ks = Some FINALIZED \<longleftrightarrow> ks = []" "replay_kinds ABORTED b ks \<noteq> Some FINALIZED"
  by (cases ks; cases "hd ks"; auto simp: Let_def split: if_splits)+

lemma replay_rejected: "replay_kinds ADMISSION_REJECTED b ks \<noteq> Some FINALIZED" "replay_kinds PRECONDITION_REJECTED b ks \<noteq> Some FINALIZED"
  by (cases ks; cases "hd ks"; auto simp: Let_def split: if_splits)+

lemma replay_committed: "s \<in> {COMMITTING, COMMIT_UNCERTAIN} \<Longrightarrow>
  replay_kinds s True ks = Some FINALIZED \<longleftrightarrow> (\<exists>n. ks = uncertain_run n @ [Kind FINALIZED])"
proof (induction ks arbitrary: s)
  case (Cons k ks)
  show ?case
  proof (cases "k = Kind COMMIT_UNCERTAIN")
    case True
    have "replay_kinds s True (k # ks) = replay_kinds COMMIT_UNCERTAIN True ks" using Cons.prems True by auto
    moreover have "(\<exists>n. k # ks = uncertain_run n @ [Kind FINALIZED]) \<longleftrightarrow> (\<exists>n. ks = uncertain_run n @ [Kind FINALIZED])"
      unfolding True by (auto simp: uncertain_step)
    ultimately show ?thesis using Cons.IH by simp
  next
    case False
    then have "(\<exists>n. k # ks = uncertain_run n @ [Kind FINALIZED]) \<longleftrightarrow> k = Kind FINALIZED \<and> ks = []"
      by (simp add: uncertain_other)
    then show ?thesis using Cons.prems False replay_closed(1) by (cases k) (auto simp: Let_def)
  qed
qed (auto simp: Nil_is_append_conv)

lemma replay_started: "s \<in> {COMMITTING, COMMIT_UNCERTAIN} \<Longrightarrow>
  replay_kinds s False ks = Some FINALIZED \<longleftrightarrow> (\<exists>m n. ks = uncertain_run m @ [COMMITTED_RECORD] @ uncertain_run n @ [Kind FINALIZED])"
proof (induction ks arbitrary: s)
  case (Cons k ks)
  let ?tail = "\<lambda>n. [COMMITTED_RECORD] @ uncertain_run n @ [Kind FINALIZED]"
  show ?case
  proof (cases "k = Kind COMMIT_UNCERTAIN")
    case True
    have "replay_kinds s False (k # ks) = replay_kinds COMMIT_UNCERTAIN False ks" using Cons.prems True by auto
    moreover have "(\<exists>m n. k # ks = uncertain_run m @ ?tail n) \<longleftrightarrow> (\<exists>m n. ks = uncertain_run m @ ?tail n)"
      unfolding True by (auto simp: uncertain_step)
    ultimately show ?thesis using Cons.IH by simp
  next
    case False
    then have "(\<exists>m n. k # ks = uncertain_run m @ ?tail n) \<longleftrightarrow> k = COMMITTED_RECORD \<and> (\<exists>n. ks = uncertain_run n @ [Kind FINALIZED])"
      by (simp add: uncertain_other)
    then show ?thesis using Cons.prems False replay_committed [OF Cons.prems, of ks] replay_closed(2) by (cases k) (auto simp: Let_def)
  qed
qed auto

text \<open>
  The replay of \<open>states.state_after\<close> itself is wider: it also ends in FINALIZED with any number of
  COMMIT_UNCERTAIN records before and after the one COMMITTED record. The coordinator never writes
  such a sequence.
\<close>

lemma replay_final_paths:
  "list_all binding_kind ks \<and> state_after ks = Some FINALIZED \<longleftrightarrow> (\<exists>m n. ks = final_path m n)"
proof -
  have p: "replay_kinds PREPARED False ks = Some FINALIZED \<longleftrightarrow> (\<exists>ks'. ks = Kind COMMITTING # ks' \<and> replay_kinds COMMITTING False ks' = Some FINALIZED)" for ks
    using replay_closed(2) by (cases ks; cases "hd ks") (auto simp: Let_def split: if_splits)
  have "binding_kind (hd ks) \<and> state_after ks = Some FINALIZED \<longleftrightarrow> (\<exists>ks'. ks = Kind PREPARED # Kind COMMITTING # ks' \<and> replay_kinds COMMITTING False ks' = Some FINALIZED)"
    using p replay_rejected by (cases ks; cases "hd ks") (auto simp: state_after_def binding_kind_def Let_def split: if_splits)
  then have "binding_kind (hd ks) \<and> state_after ks = Some FINALIZED \<longleftrightarrow> (\<exists>m n. ks = final_path m n)"
    using replay_started [of COMMITTING] by (auto simp: final_path_def)
  moreover have "list_all binding_kind (final_path m n)" for m n
    by (auto simp: final_path_def uncertain_run_def binding_kind_def list_all_iff)
  moreover have "state_after [] \<noteq> Some FINALIZED" by (simp add: state_after_def)
  ultimately show ?thesis
    by (cases ks) (simp_all, metis list.pred_inject(2))
qed

text \<open>
  C39. The coordinator replays the journal kinds of an intent, the verifier compares them with two listed
  paths. On every journal the coordinator writes, crashed or not, the two agree: the replay is legal,
  it ends in FINALIZED exactly when the kinds are one of the listed paths, and nothing but the
  FINALIZED record follows a COMMITTED record.
\<close>

theorem final_paths:
  assumes "reachable c ns sid sk keys trust h" and ks: "ks = kinds iid (hm_journal h)"
  shows "state_after ks \<noteq> None \<and> (state_after ks = Some FINALIZED \<longleftrightarrow> ks \<in> LEGAL_FINAL_PATHS) \<and>
    (\<forall>xs ys. ks = xs @ COMMITTED_RECORD # ys \<longrightarrow> ys = [] \<or> ys = [Kind FINALIZED])"
proof -
  obtain hist cur where inv: "home_inv (coordinator_open c trust sk (\<lambda>_. 0)) ns sid hist cur h"
    using reachable_inv [OF assms(1)] by blast
  let ?rs = "intent_binding iid (hm_journal h)"
  have ok: "intent_ok (coordinator_open c trust sk (\<lambda>_. 0)) ns sid hist cur iid ?rs" using inv by (simp add: home_inv_def)
  have k: "ks = map jr_kind ?rs" by (simp add: ks kinds_binding)
  show ?thesis
  proof (cases "?rs = []")
    case True
    then show ?thesis by (simp add: k state_after_def LEGAL_FINAL_PATHS_def)
  next
    case False
    then have "ks \<in> legal_kinds (iid \<in> ids hist) (cur = Some iid)" using ok unfolding intent_ok_def k by auto
    then show ?thesis
      by (cases "iid \<in> ids hist"; cases "cur = Some iid")
        (auto simp: state_after_def Let_def LEGAL_FINAL_PATHS_def Cons_eq_append_conv)
  qed
qed

theorem final_paths_witness:
  "\<exists>h. reachable sample_c1 ''ns'' ''store'' ''finalizer'' sample_keys sample_trust h \<and>
    state_after (kinds (sid_of sample_signed) (hm_journal h)) = Some FINALIZED \<and>
    kinds (sid_of sample_signed) (hm_journal h) \<in> LEGAL_FINAL_PATHS"
proof -
  obtain h n' r cert where x: "submit sample_coordinator sample_submission sample_home 5 = (h, n', Done r)"
    "map jr_kind (hm_journal h) = [Kind PREPARED, Kind COMMITTING, COMMITTED_RECORD, Kind FINALIZED]"
    "map jr_intent_id (hm_journal h) = replicate 4 (sid_of sample_signed)" by (rule sample_run)
  have reach: "reachable sample_c1 ''ns'' ''store'' ''finalizer'' sample_keys sample_trust h"
    by (rule reachable.submitted [OF sample_reachable x(1)[unfolded sample_coordinator_def]])
  obtain r1 r2 r3 r4 where j: "hm_journal h = [r1, r2, r3, r4]" using x(2) by auto
  have "kinds (sid_of sample_signed) (hm_journal h) = [Kind PREPARED, Kind COMMITTING, COMMITTED_RECORD, Kind FINALIZED]"
    using x(2,3) j by (simp add: kinds_def intent_binding_def for_intent_def binding_kind_def numeral_eq_Suc)
  then show ?thesis using final_paths [OF reach refl, of "sid_of sample_signed"] reach by (auto simp: LEGAL_FINAL_PATHS_def)
qed

end
