(* ===== verification/Vdb_Witness.thy ===== *)
theory Vdb_Witness
  imports Vdb_Verify
begin

text \<open>
  The journal file and the witness. The bytes of the file determine the records that were made durable,
  whatever part of a further line a crash left; a witness that is not stopped between its two writes
  only ever countersigns extensions of what it countersigned before, and one that is can countersign
  two histories.
\<close>

subsection \<open>The journal file\<close>

definition journal_file :: "c1 \<Rightarrow> jrecord list \<Rightarrow> string" where
  "journal_file c rs = concat (map (record_line c) rs)"

definition one_line :: "string \<Rightarrow> bool" where
  "one_line l \<longleftrightarrow> newline \<notin> set l \<and> carriage_return \<notin> set l"

lemma split_line: "one_line l \<Longrightarrow> split_lines acc (l @ newline # s) = (rev acc @ l) # split_lines [] s"
  by (induction l arbitrary: acc) (auto simp: one_line_def)

lemma split_file:
  "\<forall>r \<in> set rs. one_line (c_jcs c (record_json r)) \<Longrightarrow>
    split_lines [] (journal_file c rs) = map (\<lambda>r. c_jcs c (record_json r)) rs"
  by (induction rs) (simp_all add: journal_file_def record_line_def split_line)

lemma last_file: "rs \<noteq> [] \<Longrightarrow> last (journal_file c rs) = newline" "journal_file c rs = [] \<longleftrightarrow> rs = []"
  by (induction rs rule: rev_induct) (simp_all add: journal_file_def record_line_def)

lemma whole_file: "newline \<notin> set torn \<Longrightarrow> whole_lines (journal_file c rs @ torn) = journal_file c rs"
proof -
  assume t: "newline \<notin> set torn"
  have "dropWhile (\<lambda>ch. ch \<noteq> newline) (rev torn @ rev (journal_file c rs)) = rev (journal_file c rs)"
  proof (cases "rs = []")
    case True
    then show ?thesis using t by (auto simp: journal_file_def dropWhile_eq_Nil_conv)
  next
    case False
    obtain xs where "journal_file c rs = xs @ [newline]" using False last_file [where c = c and rs = rs] by (metis append_butlast_last_id)
    then show ?thesis using t by (subst dropWhile_append2) auto
  qed
  then show ?thesis by (simp add: whole_lines_def)
qed

lemma load_chained:
  "chained c (pre @ rs) \<Longrightarrow> \<forall>r \<in> set rs. loads (c_jcs c (record_json r)) = Some r \<Longrightarrow>
    load_lines c loads (int (length pre)) (last_hash pre) (map (\<lambda>r. c_jcs c (record_json r)) rs) = Some rs \<and>
    read_lines c loads (int (length pre)) (last_hash pre) (map (\<lambda>r. c_jcs c (record_json r)) rs) = Inr rs"
proof (induction rs arbitrary: pre)
  case (Cons r rs)
  have k: "chain_ok c (int (length pre)) (last_hash pre) r"
    using Cons.prems(1) by (auto simp: chained_def nth_append dest: spec [of _ "length pre"])
  show ?case using Cons.IH [of "pre @ [r]"] Cons.prems k by (simp add: last_hash_def add.commute)
qed simp

text \<open>
  C38. The journal survives on disk: from the file of a chained journal, with any part of a further line
  a crash left at its end, the coordinator reads back exactly the records and the length of the torn
  part. The witness reads the same records, and refuses a torn file. JSON decoding is taken to
  invert the encoding of these records, and encodings to hold no line feed and no carriage return:
  canonical JSON escapes both.
\<close>

theorem journal_file_roundtrip:
  assumes "reachable c ns sid sk keys trust h" "\<forall>r \<in> set (hm_journal h). loads (c_jcs c (record_json r)) = Some r"
    and "\<forall>r \<in> set (hm_journal h). one_line (c_jcs c (record_json r))" "newline \<notin> set torn"
  shows "journal_load c loads (journal_file c (hm_journal h) @ torn) = Some (hm_journal h, length torn) \<and>
    read_journal c loads (journal_file c (hm_journal h) @ torn) =
      (if torn \<noteq> [] then Inl ''E_TORN_JOURNAL'' else if hm_journal h = [] then Inl ''E_EMPTY'' else Inr (hm_journal h))"
proof -
  have ch: "chained c (hm_journal h)" using reachable_inv [OF assms(1)] by blast
  note l = load_chained [of c "[]" "hm_journal h" loads, simplified, OF ch assms(2)]
  have "journal_load c loads (journal_file c (hm_journal h) @ torn) = Some (hm_journal h, length torn)"
    using l by (simp add: journal_load_def whole_file [OF assms(4)] split_file [OF assms(3)] last_hash_def)
  moreover have "read_journal c loads (journal_file c (hm_journal h) @ torn) =
      (if torn \<noteq> [] then Inl ''E_TORN_JOURNAL'' else if hm_journal h = [] then Inl ''E_EMPTY'' else Inr (hm_journal h))"
  proof (cases "torn = []")
    case True
    then show ?thesis using l last_file [where c = c and rs = "hm_journal h"]
      by (auto simp: read_journal_def split_file [OF assms(3)] last_hash_def split: list.split)
  next
    case False
    then have "last torn \<noteq> newline" using assms(4) by (metis last_in_set)
    then show ?thesis using False by (simp add: read_journal_def)
  qed
  ultimately show ?thesis by blast
qed

subsection \<open>Observations\<close>

text \<open>
  The observations of one witness and the journals it countersigned. An observation starts from the
  bytes of the journal file it is given; \<open>loads\<close> decodes a line.
\<close>

inductive witnessed :: "c1 \<Rightarrow> (string \<Rightarrow> jrecord option) \<Rightarrow> string \<Rightarrow> trust_store \<Rightarrow> witness \<Rightarrow> jrecord list list \<Rightarrow> bool"
  for c loads sk trust where
  created: "witnessed c loads sk trust (witness_create sk trust) []"
| refused: "witnessed c loads sk trust w js \<Longrightarrow> observe c loads data at w n = (w', Some (Inl e)) \<Longrightarrow> witnessed c loads sk trust w' js"
| died_before: "witnessed c loads sk trust w js \<Longrightarrow> observe c loads data at w 0 = (w', None) \<Longrightarrow> witnessed c loads sk trust w' js"
| countersigned: "witnessed c loads sk trust w js \<Longrightarrow> observe c loads data at w n = (w', Some (Inr cp)) \<Longrightarrow>
    read_journal c loads data = Inr records \<Longrightarrow> witnessed c loads sk trust w' (js @ [records])"

lemma read_lines_chained:
  "chained c pre \<Longrightarrow> read_lines c loads (int (length pre)) (last_hash pre) ls = Inr rs \<Longrightarrow> chained c (pre @ rs)"
proof (induction ls arbitrary: pre rs)
  case (Cons l ls)
  then obtain r rs' where r: "chain_ok c (int (length pre)) (last_hash pre) r" "rs = r # rs'"
    "read_lines c loads (int (length pre) + 1) (jr_hash r) ls = Inr rs'"
    by (auto split: option.splits if_splits sum.splits)
  have "chained c (pre @ [r])" using Cons.prems(1) r(1) by (simp add: chained_snoc)
  then show ?case using Cons.IH [of "pre @ [r]" rs'] r by (simp add: last_hash_def add.commute)
qed simp

lemma read_journal_chained: "read_journal c loads data = Inr rs \<Longrightarrow> rs \<noteq> [] \<and> chained c rs"
  using read_lines_chained [of c "[]" loads "split_lines [] data" rs]
  by (auto simp: read_journal_def last_hash_def chained_def split: if_splits sum.splits list.splits)

definition head_of :: "jrecord list \<Rightarrow> string \<times> int \<times> string" where
  "head_of records = (jr_hash (hd records), jr_seq (last records), jr_hash (last records))"

lemma observe_records_cases:
  assumes "observe_records c records at w n = (w', r)"
  shows "(\<forall>e. r = Some (Inl e) \<longrightarrow> wi_state w' = wi_state w) \<and> (n = 0 \<longrightarrow> r = None \<longrightarrow> w' = w) \<and>
    (\<forall>cp. r = Some (Inr cp) \<longrightarrow> fork_of w records = None \<and> wi_state w' = Some (head_of records))"
  using assms by (auto simp: observe_records_def head_of_def Let_def split: option.splits if_splits nat.splits)

lemma observe_cases:
  assumes "observe c loads data at w n = (w', r)"
  shows "(\<forall>e. r = Some (Inl e) \<longrightarrow> wi_state w' = wi_state w) \<and> (n = 0 \<longrightarrow> r = None \<longrightarrow> w' = w) \<and>
    (\<forall>cp records. r = Some (Inr cp) \<longrightarrow> read_journal c loads data = Inr records \<longrightarrow>
       fork_of w records = None \<and> wi_state w' = Some (head_of records))"
  using assms observe_records_cases by (fastforce simp: observe_def split: sum.splits)

lemma witnessed_state:
  assumes "witnessed c loads sk trust w js"
  shows "wi_state w = (if js = [] then None else Some (head_of (last js))) \<and> (\<forall>J \<in> set js. J \<noteq> [] \<and> chained c J) \<and>
    (\<forall>k. Suc k < length js \<longrightarrow> length (js ! k) \<le> length (js ! Suc k) \<and>
       jr_hash (js ! Suc k ! (length (js ! k) - 1)) = jr_hash (last (js ! k)))"
  using assms
proof (induction)
  case (countersigned w js data at n w' cp records)
  have o: "fork_of w records = None" "wi_state w' = Some (head_of records)"
    using observe_cases [OF countersigned.hyps(2)] countersigned.hyps(3) by auto
  have step: "length (last js) \<le> length records \<and> jr_hash (records ! (length (last js) - 1)) = jr_hash (last (last js))" if ne: "js \<noteq> []"
  proof -
    have l: "last js \<noteq> []" "chained c (last js)" using countersigned.IH ne by auto
    then have s: "jr_seq (last (last js)) = int (length (last js) - 1)" by (auto simp: chained_def chain_ok_def last_conv_nth)
    show ?thesis using o(1) countersigned.IH ne l s by (auto simp: fork_of_def head_of_def split: if_splits) 
  qed
  have "length (js ! k) \<le> length records \<and> jr_hash (records ! (length (js ! k) - 1)) = jr_hash (last (js ! k))" if "Suc k = length js" for k
  proof -
    have "js \<noteq> []" "last js = js ! k" using that by (cases js rule: rev_cases; simp)+
    then show ?thesis using step by simp
  qed
  then show ?case using countersigned.IH read_journal_chained [OF countersigned.hyps(3)] o(2) by (auto simp: nth_append less_Suc_eq)
qed (use observe_cases in \<open>fastforce simp: witness_create_def\<close>)+

lemma chained_Suc: "chained c A \<Longrightarrow> Suc i < length A \<Longrightarrow> chain_ok c (int (Suc i)) (jr_hash (A ! i)) (A ! Suc i)"
proof -
  assume a: "chained c A" "Suc i < length A"
  then have "last_hash (take (Suc i) A) = jr_hash (A ! i)" by (auto simp: last_hash_def take_Suc_conv_app_nth)
  then show ?thesis using a unfolding chained_def by metis
qed

lemma chain_back:
  assumes "chained c A" "chained c B" "i < length A" "i < length B" "jr_hash (A ! i) = jr_hash (B ! i)"
    and "\<forall>r \<in> set A \<union> set B. \<forall>r' \<in> set A \<union> set B. record_hash c r = record_hash c r' \<longrightarrow> record_members r = record_members r'"
  shows "\<forall>k \<le> i. record_json (A ! k) = record_json (B ! k)"
  using assms(3-5)
proof (induction i)
  case 0
  then have "chain_ok c 0 ''genesis'' (A ! 0)" "chain_ok c 0 ''genesis'' (B ! 0)" "A ! 0 \<in> set A" "B ! 0 \<in> set B"
    using assms(1,2) by (auto simp: chained_def last_hash_def)
  then show ?case using assms(6) 0 by (auto simp: chain_ok_def record_json_def)
next
  case (Suc i)
  have a: "chain_ok c (int (Suc i)) (jr_hash (A ! i)) (A ! Suc i)" "chain_ok c (int (Suc i)) (jr_hash (B ! i)) (B ! Suc i)"
    using chained_Suc assms(1,2) Suc.prems by blast+
  have "A ! Suc i \<in> set A" "B ! Suc i \<in> set B" using Suc.prems by auto
  then have m: "record_members (A ! Suc i) = record_members (B ! Suc i)" using assms(6) a Suc.prems(3) by (auto simp: chain_ok_def)
  then have "jr_hash (A ! i) = jr_hash (B ! i)" using a by (auto simp: chain_ok_def record_members_def)
  then have "\<forall>k \<le> i. record_json (A ! k) = record_json (B ! k)" using Suc by simp
  then show ?case using m Suc.prems(3) by (auto simp: le_Suc_eq record_json_def)
qed

lemma take_all_map: "\<forall>k < length A. f (A ! k) = f (B ! k) \<Longrightarrow> length A \<le> length B \<Longrightarrow> map f (take (length A) B) = map f A"
  by (rule nth_equalityI) auto

lemma next_extends:
  assumes "witnessed c loads sk trust w js" "Suc k < length js"
    and "\<forall>r \<in> \<Union> (set ` set js). \<forall>r' \<in> \<Union> (set ` set js). record_hash c r = record_hash c r' \<longrightarrow> record_members r = record_members r'"
  shows "map record_json (take (length (js ! k)) (js ! Suc k)) = map record_json (js ! k)"
proof -
  have mem: "js ! k \<in> set js" "js ! Suc k \<in> set js" using assms(2) by auto
  note st = witnessed_state [OF assms(1)]
  have n: "js ! k \<noteq> []" "chained c (js ! k)" "chained c (js ! Suc k)" using st mem by auto
  have l: "length (js ! k) \<le> length (js ! Suc k)" "jr_hash (js ! Suc k ! (length (js ! k) - 1)) = jr_hash (js ! k ! (length (js ! k) - 1))"
    using st assms(2) n(1) by (auto simp: last_conv_nth)
  have "\<forall>i \<le> length (js ! k) - 1. record_json (js ! k ! i) = record_json (js ! Suc k ! i)"
    by (rule chain_back [OF n(2,3)]) (use l n(1) assms(3) mem in \<open>auto simp: Suc_diff_le neq_Nil_conv\<close>)
  then show ?thesis using n(1) l(1) by (intro take_all_map) (auto simp: neq_Nil_conv less_Suc_eq_le)
qed

text \<open>
  C21. The witness only goes forward: whatever files it is shown, every journal it countersigns holds, record
  by record, every journal it countersigned before, as long as the record hash has no collision among their records and no
  observation stops between its two writes.
\<close>

theorem witness_forward:
  assumes "witnessed c loads sk trust w js" "i \<le> j" "j < length js"
    and "\<forall>r \<in> \<Union> (set ` set js). \<forall>r' \<in> \<Union> (set ` set js). record_hash c r = record_hash c r' \<longrightarrow> record_members r = record_members r'"
  shows "map record_json (take (length (js ! i)) (js ! j)) = map record_json (js ! i)"
  using assms(2,3)
proof (induction j rule: dec_induct)
  case (step n)
  have e: "map record_json (take (length (js ! n)) (js ! Suc n)) = map record_json (js ! n)"
    by (rule next_extends [OF assms(1) _ assms(4)]) (use step.prems in simp)
  have ih: "map record_json (take (length (js ! i)) (js ! n)) = map record_json (js ! i)" using step by simp
  have "length (js ! i) \<le> length (js ! n)" using arg_cong [OF ih, of length] by simp
  then have "take (length (js ! i)) (map record_json (js ! n)) = take (length (js ! i)) (map record_json (js ! Suc n))"
    by (subst e [symmetric]) (simp add: take_map [symmetric] min_def)
  then show ?case using ih by (simp add: take_map)
qed simp

text \<open>
  A crash between the two writes of an observation loses the witness its memory: the checkpoint is on
  disk, the state is not, and the next observation countersigns any other journal that also extends
  the old state.
\<close>

theorem witness_crash_forgets:
  assumes "fork_of w J = None" "fork_of w J' = None"
    and "list_all (\<lambda>r. jr_kind r \<noteq> Kind FINALIZED \<or> finality_valid c (wi_trust w) J r) (drop (start_of w) J)"
    and "list_all (\<lambda>r. jr_kind r \<noteq> Kind FINALIZED \<or> finality_valid c (wi_trust w) J' r) (drop (start_of w) J')"
    and "observe_records c J at w 1 = (w1, r)" "observe_records c J' at' w1 2 = (w2, r')"
  shows "r = None \<and> r' = Some (Inr (checkpoint_of c w J' at')) \<and>
    wi_checkpoints w2 = wi_checkpoints w @ [checkpoint_of c w J at, checkpoint_of c w J' at'] \<and> wi_forks w2 = wi_forks w"
proof -
  have 1: "w1 = w\<lparr>wi_checkpoints := wi_checkpoints w @ [checkpoint_of c w J at]\<rparr>" "r = None"
    using assms(1,3,5) by (auto simp: observe_records_def Let_def)
  then have "fork_of w1 J' = None" "start_of w1 = start_of w" "wi_trust w1 = wi_trust w" "checkpoint_of c w1 J' at' = checkpoint_of c w J' at'"
    using assms(2) by (simp_all add: fork_of_def start_of_def checkpoint_of_def wi_kid_def)
  then show ?thesis using assms(4,6) 1 by (auto simp: observe_records_def Let_def numeral_2_eq_2)
qed

subsection \<open>Two journals\<close>

text \<open>A codec that encodes a record by the identifier of its intent.\<close>

definition tiny_c1 :: c1 where
  "tiny_c1 = sample_c1\<lparr>c_jcs := (\<lambda>j. case j of JObj ms \<Rightarrow> (case map_of ms ''intent_id'' of Some (JStr s) \<Rightarrow> s | _ \<Rightarrow> []) | _ \<Rightarrow> [])\<rparr>"

definition tiny_rejection :: "string \<Rightarrow> jrecord list \<Rightarrow> jrecord" where
  "tiny_rejection iid rs = new_record tiny_c1 (Kind ADMISSION_REJECTED) iid (Admission_Body None ''E_SCHEMA'') (format_time 0) rs"

definition tiny_submission :: submission where
  "tiny_submission = \<lparr>sb_signed = \<lparr>sg_alg = [], sg_kid = [], sg_payload = Other (Some ''a'') None, sg_sig = []\<rparr>, sb_exact = False\<rparr>"

definition tiny_trust :: trust_store where
  "tiny_trust = \<lparr>tr_authority_keys = Map.empty, tr_finalizer_keys = [key_id tiny_c1 ''finalizer'' \<mapsto> b64encode ''finalizer''],
     tr_witness_keys = Map.empty, tr_eee_issuer_keys = Map.empty\<rparr>"

lemma tiny_reachable:
  "reachable tiny_c1 ''ns'' ''store'' ''finalizer'' [] tiny_trust
    \<lparr>hm_store = store_create ''ns'' ''store'', hm_journal = [tiny_rejection ''a'' []]\<rparr>"
proof -
  let ?co = "coordinator_open tiny_c1 tiny_trust ''finalizer'' (\<lambda>_. 0)" and ?h0 = "\<lparr>hm_store = store_create ''ns'' ''store'', hm_journal = []\<rparr>"
  have "reachable tiny_c1 ''ns'' ''store'' ''finalizer'' [] tiny_trust ?h0"
    by (rule reachable.start) (simp add: init_home_def tiny_trust_def tiny_c1_def sample_c1_def)
  moreover have "submit ?co tiny_submission ?h0 1 = (\<lparr>hm_store = store_create ''ns'' ''store'', hm_journal = [tiny_rejection ''a'' []]\<rparr>, 0, Done \<lparr>rs_intent_id = ''a'', rs_state = ADMISSION_REJECTED, rs_reason = Some ''E_SCHEMA'',
      rs_certificate = None, rs_replayed = False\<rparr>)"
    by (simp add: submit_def and_then_def recover_def prepared_ids_def ret_def submit_locked_def Let_def tiny_submission_def intent_binding_def
        for_intent_def admission_def reject_def c1_append_def durable_def tiny_rejection_def)
  ultimately show ?thesis by (rule reachable.submitted)
qed

lemma tiny_hash: "record_hash tiny_c1 r = ''sha256:'' @ jr_intent_id r" "c_jcs tiny_c1 (record_json r) = jr_intent_id r"
  by (simp_all add: record_hash_def canon_digest_def tiny_c1_def sample_c1_def record_json_def record_members_def)

lemma tiny_rejection_simps [simp]: "jr_intent_id (tiny_rejection iid rs) = iid" "jr_kind (tiny_rejection iid rs) = Kind ADMISSION_REJECTED"
  "jr_seq (tiny_rejection iid rs) = int (length rs)" "jr_hash (tiny_rejection iid rs) = ''sha256:'' @ iid"
  by (simp_all add: tiny_rejection_def)
    (simp add: new_record_def Let_def tiny_hash)

lemma tiny_chained: "chained tiny_c1 [tiny_rejection i []]"
  "chained tiny_c1 [tiny_rejection i [], tiny_rejection j [tiny_rejection i []]]"
proof -
  show a: "chained tiny_c1 [tiny_rejection i []]" for i
    using chained_snoc [of tiny_c1 "[]"] new_record_chain [of tiny_c1 "[]"] by (simp add: tiny_rejection_def chained_def)
  show "chained tiny_c1 [tiny_rejection i [], tiny_rejection j [tiny_rejection i []]]"
    using chained_snoc [of tiny_c1 "[tiny_rejection i []]"] new_record_chain [of tiny_c1 "[tiny_rejection i []]"] a
    by (simp add: tiny_rejection_def)
qed

theorem journal_file_roundtrip_witness:
  "journal_load tiny_c1 (\<lambda>l. if l = ''a'' then Some (tiny_rejection ''a'' []) else None) (''a'' @ [newline] @ ''b'') =
    Some ([tiny_rejection ''a'' []], 1)"
proof -
  have f: "journal_file tiny_c1 [tiny_rejection ''a'' []] = ''a'' @ [newline]"
    by (simp add: journal_file_def record_line_def tiny_hash)
  show ?thesis
    using journal_file_roundtrip [OF tiny_reachable, of "\<lambda>l. if l = ''a'' then Some (tiny_rejection ''a'' []) else None" "''b''"]
    by (simp add: tiny_hash f one_line_def)
qed

text \<open>The file with one line, and the file a second record was appended to.\<close>

definition tiny_loads :: "string \<Rightarrow> jrecord option" where
  "tiny_loads l = (if l = ''a'' then Some (tiny_rejection ''a'' [])
     else if l = ''b'' then Some (tiny_rejection ''b'' [tiny_rejection ''a'' []]) else None)"

lemma tiny_read:
  "read_journal tiny_c1 tiny_loads (''a'' @ [newline]) = Inr [tiny_rejection ''a'' []]"
  "read_journal tiny_c1 tiny_loads (''a'' @ [newline] @ ''b'' @ [newline]) =
     Inr [tiny_rejection ''a'' [], tiny_rejection ''b'' [tiny_rejection ''a'' []]]"
proof -
  have s: "split_lines [] (''a'' @ [newline]) = [''a'']" "split_lines [] (''a'' @ [newline] @ ''b'' @ [newline]) = [''a'', ''b'']" by simp_all
  have a: "chain_ok tiny_c1 0 ''genesis'' (tiny_rejection ''a'' [])"
    using tiny_chained(1) [of "''a''"] by (simp add: chained_def last_hash_def)
  have b: "chain_ok tiny_c1 1 ''sha256:a'' (tiny_rejection ''b'' [tiny_rejection ''a'' []])"
    using chained_Suc [OF tiny_chained(2), of 0 "''a''" "''b''"] by simp
  show "read_journal tiny_c1 tiny_loads (''a'' @ [newline]) = Inr [tiny_rejection ''a'' []]"
    unfolding read_journal_def s using a by (simp add: tiny_loads_def)
  show "read_journal tiny_c1 tiny_loads (''a'' @ [newline] @ ''b'' @ [newline]) =
     Inr [tiny_rejection ''a'' [], tiny_rejection ''b'' [tiny_rejection ''a'' []]]"
    unfolding read_journal_def s using a b by (simp add: tiny_loads_def)
qed

theorem witness_forward_witness:
  "\<exists>w js. witnessed tiny_c1 tiny_loads ''w'' tiny_trust w js \<and> length js = 2 \<and> length (js ! 0) = 1 \<and> length (js ! 1) = 2 \<and>
    map record_json (take (length (js ! 0)) (js ! 1)) = map record_json (js ! 0)"
proof -
  let ?r = "tiny_rejection ''a'' []"
  let ?J = "[?r]" and ?J' = "[?r, tiny_rejection ''b'' [?r]]" and ?w = "witness_create ''w'' tiny_trust"
  obtain w1 cp where o: "observe tiny_c1 tiny_loads (''a'' @ [newline]) [] ?w 2 = (w1, Some (Inr cp))"
    "wi_state w1 = Some (''sha256:a'', 0, ''sha256:a'')"
    unfolding observe_def tiny_read by (simp add: observe_records_def fork_of_def start_of_def witness_create_def Let_def numeral_2_eq_2)
  obtain w2 cp' where o2: "observe tiny_c1 tiny_loads (''a'' @ [newline] @ ''b'' @ [newline]) [] w1 2 = (w2, Some (Inr cp'))"
    using o(2) unfolding observe_def tiny_read by (simp add: observe_records_def fork_of_def start_of_def Let_def numeral_2_eq_2)
  have "witnessed tiny_c1 tiny_loads ''w'' tiny_trust w1 ([] @ [?J])"
    by (rule witnessed.countersigned [OF witnessed.created o(1) tiny_read(1)])
  then have "witnessed tiny_c1 tiny_loads ''w'' tiny_trust w2 (([] @ [?J]) @ [?J'])"
    by (rule witnessed.countersigned [OF _ o2 tiny_read(2)])
  then have w: "witnessed tiny_c1 tiny_loads ''w'' tiny_trust w2 [?J, ?J']" by simp
  have "map record_json (take (length ([?J, ?J'] ! 0)) ([?J, ?J'] ! 1)) = map record_json ([?J, ?J'] ! 0)"
    by (rule witness_forward [OF w]) (auto simp: tiny_hash)
  then show ?thesis using w by (intro exI [of _ w2] exI [of _ "[?J, ?J']"]) simp
qed

text \<open>Two checkpoints of one witness at the same place, over different heads.\<close>

theorem witness_crash_forgets_witness:
  "\<exists>cps. wi_checkpoints (fst (observe_records tiny_c1 [tiny_rejection ''b'' []] [] (fst (observe_records tiny_c1 [tiny_rejection ''a'' []] [] (witness_create ''w'' tiny_trust) 1)) 2)) = cps \<and>
    map (\<lambda>cp. (cp_seq (sg_payload cp), cp_head_hash (sg_payload cp))) cps = [(0, ''sha256:a''), (0, ''sha256:b'')]"
proof -
  let ?J = "[tiny_rejection ''a'' []]" and ?J' = "[tiny_rejection ''b'' []]" and ?w = "witness_create ''w'' tiny_trust"
  obtain w1 r where o1: "observe_records tiny_c1 ?J [] ?w 1 = (w1, r)" by fastforce
  obtain w2 r' where o2: "observe_records tiny_c1 ?J' [] w1 2 = (w2, r')" by fastforce
  have "wi_checkpoints w2 = wi_checkpoints ?w @ [checkpoint_of tiny_c1 ?w ?J [], checkpoint_of tiny_c1 ?w ?J' []]"
    using witness_crash_forgets [OF _ _ _ _ o1 o2] by (simp add: fork_of_def witness_create_def start_of_def)
  then show ?thesis using o1 o2 by (simp add: witness_create_def checkpoint_of_def canon_sign_def)
qed

end
