(* ===== verification/Vdb_Eee.thy ===== *)
theory Vdb_Eee
  imports Vdb_Verify
begin

text \<open>
  Evidence envelopes of the protocol's outcomes (\<open>vdb_c1/eee.py\<close>): one signed envelope per terminal
  journal record, built from the journal alone, and the coordinator's \<open>eee_envelopes\<close>, which signs them
  with an issuer key of their own. An envelope is the list of its members; \<open>None\<close> is a
  \<open>KeyError\<close>, a \<open>TypeError\<close> on a missing PREPARED record or a \<open>StopIteration\<close>. The digest of the
  enforcer's own source files, which \<open>enforcer\<close> reads from disk, is a parameter. The properties: every
  terminal record of a reachable home has its envelope, and what the envelopes say is true of the store.
\<close>

subsection \<open>The envelope of a terminal record\<close>

definition EEE_VERSION :: string where
  "EEE_VERSION = ''0.1.0''"

definition CAPABILITY_ID :: string where
  "CAPABILITY_ID = ''vdb.c1.upsert''"

definition POLICY_BUNDLE_ID :: string where
  "POLICY_BUNDLE_ID = ''vdb-c1-admission-v1''"

definition POLICY_RULES :: "string list" where
  "POLICY_RULES = [''schema.exact'', ''protocol'', ''op.upsert'', ''namespace'', ''kid.match'', ''key.trusted'', ''signature'',
     ''validity.window'', ''ttl.max'', ''precondition.generation'', ''precondition.root'', ''commit.fresh_read'']"

definition eee_terminal :: "kind \<Rightarrow> bool" where
  "eee_terminal k \<longleftrightarrow> k \<in> {Kind FINALIZED, Kind ADMISSION_REJECTED, Kind PRECONDITION_REJECTED, Kind ABORTED}"

type_synonym envelope = "(string \<times> json) list"

definition enforcer :: "string \<Rightarrow> json" where
  "enforcer build = JObj [(''name'', JStr ''vdb_c1''), (''version'', JStr ''1.0.0''), (''build_hash'', JStr (''sha256:'' @ build))]"

definition envelope_root :: "c1 \<Rightarrow> envelope \<Rightarrow> string" where
  "envelope_root c env =
     canon_digest c (JObj (filter (\<lambda>(k, v). k \<notin> {''envelope_hash'', ''previous_envelope_hash'', ''signatures''}) env))"

definition eee_capability :: "string \<Rightarrow> json" where
  "eee_capability namespace = JObj [(''capability_id'', JStr CAPABILITY_ID), (''op'', JStr ''UPSERT''), (''namespace'', JStr namespace),
     (''key_max'', JNum 256), (''value_max'', JNum 65536)]"

definition eee_decision :: "string \<Rightarrow> string \<Rightarrow> string \<Rightarrow> string \<Rightarrow> string \<Rightarrow> json" where
  "eee_decision gate rule dec at reason = JObj [(''gate'', JStr gate), (''rule_id'', JStr rule), (''decision'', JStr dec),
     (''evaluated_at'', JStr at), (''latency_ms'', JNum 0), (''reason_code'', JStr reason)]"

fun body_signed_intent :: "body \<Rightarrow> intent signed option" where
  "body_signed_intent (Prepared_Body b) = Some (pb_signed_intent b)"
| "body_signed_intent (Precondition_Body ih reason si gen root) = Some si"
| "body_signed_intent _ = None"

definition eee_binding :: "jrecord list \<Rightarrow> jrecord \<Rightarrow> jrecord list" where
  "eee_binding records t = filter (\<lambda>r. jr_intent_id r = jr_intent_id t \<and> jr_seq r \<le> jr_seq t \<and> binding_kind (jr_kind r)) records"

definition eee_prepared :: "jrecord list \<Rightarrow> jrecord option" where
  "eee_prepared bnd = (if bnd \<noteq> [] \<and> jr_kind (hd bnd) = Kind PREPARED then Some (hd bnd) else None)"

text \<open>The verified intent, if the record has one: the outer \<open>None\<close> is a \<open>KeyError\<close>.\<close>

definition eee_intent :: "jrecord option \<Rightarrow> jrecord \<Rightarrow> intent option option" where
  "eee_intent prepared t =
    (case prepared of
       Some r \<Rightarrow> map_option (\<lambda>s. Some (sg_payload s)) (body_signed_intent (jr_body r))
     | None \<Rightarrow>
         if jr_kind t = Kind PRECONDITION_REJECTED then map_option (\<lambda>s. Some (sg_payload s)) (body_signed_intent (jr_body t))
         else Some None)"

text \<open>\<open>started\<close> and \<open>decisions\<close>; without a PREPARED record, \<open>prepared["at"]\<close> fails.\<close>

definition eee_decisions :: "jrecord option \<Rightarrow> jrecord \<Rightarrow> string \<Rightarrow> (string \<times> json list) option" where
  "eee_decisions prepared t reason =
    (let k = jr_kind t; at = jr_at t
     in if k = Kind ADMISSION_REJECTED then Some (at, [eee_decision ''admission'' ''admission'' ''deny'' at reason])
        else if k = Kind PRECONDITION_REJECTED then
          Some (at, [eee_decision ''admission'' ''admission'' ''allow'' at ''ADMITTED'',
            eee_decision ''precondition'' ''precondition'' ''deny'' at reason])
        else case prepared of
          None \<Rightarrow> None
        | Some r \<Rightarrow>
            Some (jr_at r, [eee_decision ''admission'' ''admission'' ''allow'' (jr_at r) ''ADMITTED'',
              eee_decision ''precondition'' ''precondition'' ''allow'' (jr_at r) ''PRECONDITIONS_MET'',
              eee_decision ''commit'' ''commit.fresh_read'' (if k = Kind FINALIZED then ''allow'' else ''deny'') at reason]))"

definition eee_output :: "c1 \<Rightarrow> jrecord list \<Rightarrow> jrecord \<Rightarrow> string \<Rightarrow> string option" where
  "eee_output c bnd t reason =
    (if jr_kind t = Kind FINALIZED then
       (case find (\<lambda>r. jr_kind r = COMMITTED_RECORD) bnd of
          None \<Rightarrow> None
        | Some r \<Rightarrow> map_option cb_post_root (committed_body (jr_body r)))
     else Some (canon_digest c (JObj [(''protocol'', JStr ''veklom.vdb.c1.outcome/v1''), (''intent_id'', JStr (jr_intent_id t)),
       (''outcome'', JStr (kind_name (jr_kind t))), (''reason'', JStr reason)])))"

definition eee_artifact :: "c1 \<Rightarrow> jrecord \<Rightarrow> string" where
  "eee_artifact c t =
    (case body_intent_hash (jr_body t) of
       None \<Rightarrow> canon_digest c JNull
     | Some ih \<Rightarrow> if ih = [] then canon_digest c JNull else ih)"

definition eee_status :: "kind \<Rightarrow> string" where
  "eee_status k = (if k = Kind FINALIZED then ''completed'' else if k = Kind ABORTED then ''error'' else ''denied'')"

definition envelope_members ::
  "c1 \<Rightarrow> string \<Rightarrow> string \<Rightarrow> string \<Rightarrow> jrecord \<Rightarrow> string \<Rightarrow> intent option \<Rightarrow> (string \<times> string) option \<Rightarrow> string \<Rightarrow> json list \<Rightarrow> string \<Rightarrow> envelope" where
  "envelope_members c build namespace store_id t reason intent commitment started decisions out =
    (let k = jr_kind t; at = jr_at t; iid = jr_intent_id t; done = (k = Kind FINALIZED); upsert = JStr (''state:upsert:'' @ namespace);
         kid = (case intent of Some p \<Rightarrow> it_authority_kid p | None \<Rightarrow> ''unadmitted'');
         issued_at = (case intent of Some p \<Rightarrow> it_issued_at p | None \<Rightarrow> at);
         expires_at = (case intent of Some p \<Rightarrow> it_expires_at p | None \<Rightarrow> at)
     in [(''eee_version'', JStr EEE_VERSION), (''hash_alg'', JStr ''SHA-256''),
         (''execution_id'', JStr (if k \<in> {Kind FINALIZED, Kind ABORTED} then iid else iid @ ''#'' @ show_int (jr_seq t))),
         (''idempotency_key'', JStr iid), (''issuer'', JStr (''urn:veklom:vdb-c1:'' @ store_id)), (''enforcer'', enforcer build),
         (''participant_identity'', JObj [(''scheme'', JStr ''ed25519-kid''), (''identifier'', JStr kid)]),
         (''principal'', JObj [(''scheme'', JStr ''ed25519-kid''), (''identifier'', JStr kid)]),
         (''capability_id'', JStr CAPABILITY_ID), (''capability_hash'', JStr (canon_digest c (eee_capability namespace))),
         (''capability_attenuation'', JObj [(''resource_allowlist'', JArr [JStr namespace]),
            (''argument_constraints'', JObj [(''key_max'', JNum 256), (''value_max'', JNum 65536)]),
            (''delegation_depth'', JNum 0), (''delegation_depth_max'', JNum 0)]),
         (''runtime_lineage'', JObj [(''model'', JStr ''none''), (''model_version'', JStr ''none''), (''framework'', JStr ''vdb_c1''),
            (''framework_version'', JStr ''1.0.0''),
            (''config_hash'', JStr (canon_digest c (JObj [(''adapter'', JStr ''sqlite-wal/v1''), (''journal_mode'', JStr ''wal''),
               (''synchronous'', JStr ''FULL'')])))]),
         (''authority_chain'', JArr [JObj [(''type'', JStr ''capability-grant''), (''artifact_hash'', JStr (eee_artifact c t)),
            (''issuer'', JStr kid), (''granted_at'', JStr issued_at), (''expires_at'', JStr expires_at)]]),
         (''authority_window'', JObj [(''not_before'', JStr issued_at), (''not_after'', JStr expires_at)]),
         (''revocation_check'', JObj [(''method'', JStr ''none''), (''checked_at'', JStr started),
            (''result'', JStr ''single-use, expiring intent; no revocation list'')]),
         (''policy_bundle_id'', JStr POLICY_BUNDLE_ID),
         (''policy_hash'', JStr (canon_digest c (JObj [(''bundle_id'', JStr POLICY_BUNDLE_ID), (''rules'', JArr (map JStr POLICY_RULES))]))),
         (''policy_decisions'', JArr decisions), (''enforcement_mode'', JStr ''fail-closed''),
         (''input_commitment'', JStr (case commitment of Some (pc, _) \<Rightarrow> pc | None \<Rightarrow> eee_artifact c t)),
         (''effect_grammar'', JStr ''EEE-EFFECTS-1''),
         (''allowed_effects'', JArr (if k \<noteq> Kind ADMISSION_REJECTED then [upsert] else [])),
         (''actual_effects'', JArr (if done then [upsert] else [])),
         (''tool_actions'', JArr (case commitment of
            Some (pc, evidence_ref) \<Rightarrow> [JObj [(''tool'', JStr ''sqlite-wal''), (''action_hash'', JStr pc),
               (''decision'', JStr (if done then ''committed'' else ''not_committed'')), (''evidence_ref'', JStr evidence_ref)]]
          | None \<Rightarrow> [])),
         (''budget'', JObj [(''granted'', JObj [(''writes'', JNum 1)]), (''consumed'', JObj [(''writes'', JNum (if done then 1 else 0))])]),
         (''started_at'', JStr started), (''ended_at'', JStr at), (''output_commitment'', JStr out),
         (''status'', JStr (eee_status k)), (''violations'', JArr []), (''validators'', JArr []),
         (''timestamps'', JObj [(''issued_at'', JStr at)])])"

definition seal_envelope :: "c1 \<Rightarrow> string \<Rightarrow> string \<Rightarrow> string \<Rightarrow> string \<Rightarrow> envelope \<Rightarrow> envelope" where
  "seal_envelope c store_id sk kid at env =
    (let root = envelope_root c env
     in env @ [(''envelope_hash'', JStr root),
          (''signatures'', JArr [JObj [(''signer'', JStr (''urn:veklom:vdb-c1:'' @ store_id @ ''#'' @ kid)), (''kid'', JStr kid),
             (''scheme'', JStr ''Ed25519''), (''value'', JStr (b64encode (c_sign c sk root))), (''signed_at'', JStr at)]])])"

definition envelope_for :: "c1 \<Rightarrow> string \<Rightarrow> jrecord list \<Rightarrow> jrecord \<Rightarrow> string \<Rightarrow> string \<Rightarrow> string \<Rightarrow> string \<Rightarrow> envelope option" where
  "envelope_for c build records t namespace store_id sk kid =
    (let bnd = eee_binding records t; prepared = eee_prepared bnd;
         reason = (case body_reason (jr_body t) of Some r \<Rightarrow> r | None \<Rightarrow> kind_name (jr_kind t));
         evidence_ref = ''journal:'' @ show_int (jr_seq t) @ '':'' @ jr_hash t
     in case (eee_intent prepared t, eee_decisions prepared t reason, eee_output c bnd t reason,
              case prepared of
                None \<Rightarrow> Some None
              | Some r \<Rightarrow> map_option (\<lambda>b. Some (pb_payload_commitment b, evidence_ref)) (prepared_body (jr_body r))) of
          (Some intent, Some (started, decisions), Some out, Some commitment) \<Rightarrow>
            Some (seal_envelope c store_id sk kid (jr_at t)
              (envelope_members c build namespace store_id t reason intent commitment started decisions out))
        | _ \<Rightarrow> None)"

definition envelopes_from_journal ::
  "c1 \<Rightarrow> string \<Rightarrow> jrecord list \<Rightarrow> string \<Rightarrow> string \<Rightarrow> string \<Rightarrow> string \<Rightarrow> envelope list option" where
  "envelopes_from_journal c build records namespace store_id sk kid =
     those (map (\<lambda>r. envelope_for c build records r namespace store_id sk kid) (filter (\<lambda>r. eee_terminal (jr_kind r)) records))"

text \<open>
  \<open>Coordinator.eee_envelopes\<close> with the number of durable writes it may make. The issuer key is kept in a
  file (\<open>None\<close> when there is none); on first use a fresh key is saved and then its public half is
  published in the trust store. A failure stands for the exceptions of \<open>envelope_for\<close>.
\<close>

definition eee_answer :: "c1 \<Rightarrow> string \<Rightarrow> home \<Rightarrow> string \<Rightarrow> envelope list outcome" where
  "eee_answer c build h sk =
    (case envelopes_from_journal c build (hm_journal h) (st_namespace (hm_store h)) (st_store_id (hm_store h)) sk (key_id c (c_public c sk)) of
       None \<Rightarrow> Failed ''KeyError''
     | Some es \<Rightarrow> Done es)"

definition publish_issuer :: "c1 \<Rightarrow> string \<Rightarrow> trust_store \<Rightarrow> trust_store" where
  "publish_issuer c sk trust =
     trust\<lparr>tr_eee_issuer_keys := (tr_eee_issuer_keys trust)(key_id c (c_public c sk) \<mapsto> b64encode (c_public c sk))\<rparr>"

definition eee_envelopes ::
  "c1 \<Rightarrow> string \<Rightarrow> string \<Rightarrow> home \<Rightarrow> string option \<Rightarrow> trust_store \<Rightarrow> nat \<Rightarrow> string option \<times> trust_store \<times> nat \<times> envelope list outcome" where
  "eee_envelopes c build fresh h key trust n =
    (case key of
       Some sk \<Rightarrow> (Some sk, trust, n, eee_answer c build h sk)
     | None \<Rightarrow>
         (case n of
            0 \<Rightarrow> (None, trust, 0, Crashed)
          | Suc 0 \<Rightarrow> (Some fresh, trust, 0, Crashed)
          | Suc (Suc m) \<Rightarrow> (Some fresh, publish_issuer c fresh trust, m, eee_answer c build h fresh)))"

subsection \<open>The records an envelope is built from\<close>

lemma chained_sorted: "chained c js \<Longrightarrow> sorted (map jr_seq js)"
proof -
  assume "chained c js"
  then have "\<forall>i < length js. jr_seq (js ! i) = int i" by (auto simp: chained_def chain_ok_def)
  then show ?thesis by (auto simp: sorted_iff_nth_mono)
qed

lemma sorted_filter_takeWhile: "sorted (map f xs) \<Longrightarrow> filter (\<lambda>x. f x \<le> b) xs = takeWhile (\<lambda>x. f x \<le> b) xs"
proof (induction xs)
  case (Cons a xs)
  then show ?case by (cases xs) auto
qed simp

lemma eee_binding_prefix:
  assumes "chained c js"
  shows "eee_binding js t = takeWhile (\<lambda>r. jr_seq r \<le> jr_seq t) (intent_binding (jr_intent_id t) js)"
proof -
  have "sorted (map jr_seq (intent_binding (jr_intent_id t) js))"
    unfolding intent_binding_def for_intent_def by (intro sorted_filter chained_sorted [OF assms])
  moreover have "eee_binding js t = filter (\<lambda>r. jr_seq r \<le> jr_seq t) (intent_binding (jr_intent_id t) js)"
    unfolding eee_binding_def intent_binding_def for_intent_def filter_filter by (rule filter_cong) auto
  ultimately show ?thesis using sorted_filter_takeWhile by metis
qed

lemma eee_binding_whole:
  assumes "chained c js" "intent_binding (jr_intent_id t) js = rs" "rs \<noteq> []" "t = last rs"
  shows "eee_binding js t = rs"
proof -
  have s: "sorted (map jr_seq rs)"
    unfolding assms(2) [symmetric] intent_binding_def for_intent_def by (intro sorted_filter chained_sorted [OF assms(1)])
  have "jr_seq r \<le> jr_seq t" if m: "r \<in> set rs" for r :: jrecord
  proof -
    obtain i where i: "i < length rs" "r = rs ! i" using m by (auto simp: in_set_conv_nth)
    have "map jr_seq rs ! i \<le> map jr_seq rs ! (length rs - 1)" by (rule sorted_nth_mono [OF s]) (use i in auto)
    then show ?thesis using i assms(3,4) by (simp add: last_conv_nth)
  qed
  then show ?thesis unfolding eee_binding_prefix [OF assms(1)] assms(2) by (simp add: takeWhile_eq_all_conv)
qed

lemma first_prepared:
  assumes inv: "home_inv co ns sid hist cur h" and rs: "intent_binding iid (hm_journal h) = rs" "rs \<noteq> []"
  obtains b where "jr_kind (hd rs) = Kind PREPARED" "jr_body (hd rs) = Prepared_Body b"
proof -
  have "intent_ok co ns sid hist cur iid rs" using inv rs(1) by (auto simp: home_inv_def)
  then obtain h1 s where h: "map jr_kind rs \<in> legal_kinds (iid \<in> ids hist) (cur = Some iid)"
    "bodies_ok co iid s (store_of (co_codec co) ns sid h1) rs"
    using rs(2) unfolding intent_ok_def by auto
  have "jr_kind (hd rs) = Kind PREPARED" using h(1) by (cases "iid \<in> ids hist"; cases "cur = Some iid") auto
  then show thesis using that h(2) by (auto simp: bodies_ok_def)
qed

lemma eee_prepared_binding:
  assumes inv: "home_inv co ns sid hist cur h" and ch: "chained c (hm_journal h)"
  shows "(eee_binding (hm_journal h) t = [] \<and> eee_prepared (eee_binding (hm_journal h) t) = None) \<or>
    (\<exists>r b. eee_binding (hm_journal h) t \<noteq> [] \<and> eee_prepared (eee_binding (hm_journal h) t) = Some r \<and> jr_body r = Prepared_Body b)"
proof (cases "eee_binding (hm_journal h) t")
  case Nil
  then show ?thesis by (simp add: eee_prepared_def)
next
  case (Cons r rest)
  define rs where "rs = intent_binding (jr_intent_id t) (hm_journal h)"
  have "rs \<noteq> []" "hd rs = r" using Cons unfolding eee_binding_prefix [OF ch] rs_def [symmetric] by (cases rs; auto split: if_splits)+
  moreover obtain b where "jr_kind (hd rs) = Kind PREPARED" "jr_body (hd rs) = Prepared_Body b"
    by (rule first_prepared [OF inv rs_def [symmetric] \<open>rs \<noteq> []\<close>])
  ultimately show ?thesis using Cons by (simp add: eee_prepared_def)
qed

lemma closing_record:
  assumes "map jr_kind rs \<in> legal_kinds a b" "t \<in> set rs" "jr_kind t \<in> {Kind FINALIZED, Kind ABORTED}"
  shows "rs \<noteq> []" "t = last rs" "jr_kind t = Kind ABORTED \<Longrightarrow> \<not> a"
  using assms by (cases a; cases b; auto)+

subsection \<open>What an envelope says\<close>

lemma root_sealed [simp]: "envelope_root c (seal_envelope c store_id sk kid at env) = envelope_root c env"
  by (simp add: seal_envelope_def Let_def envelope_root_def)

lemma member_values:
  assumes "env = seal_envelope c store_id sk kid at (envelope_members c build ns sid t reason intent commitment started decisions out)"
  shows "map_of env ''envelope_hash'' = Some (JStr (envelope_root c env))"
    and "map_of env ''idempotency_key'' = Some (JStr (jr_intent_id t))"
    and "map_of env ''status'' = Some (JStr (eee_status (jr_kind t)))"
    and "map_of env ''output_commitment'' = Some (JStr out)"
    and "map_of env ''signatures'' = Some (JArr [JObj [(''signer'', JStr (''urn:veklom:vdb-c1:'' @ store_id @ ''#'' @ kid)), (''kid'', JStr kid),
       (''scheme'', JStr ''Ed25519''), (''value'', JStr (b64encode (c_sign c sk (envelope_root c env)))), (''signed_at'', JStr at)]])"
    and "map_of env ''actual_effects'' = Some (JArr (if jr_kind t = Kind FINALIZED then [JStr (''state:upsert:'' @ ns)] else []))"
    and "map_of env ''authority_window'' = Some (JObj [(''not_before'', JStr (case intent of Some p \<Rightarrow> it_issued_at p | None \<Rightarrow> jr_at t)),
       (''not_after'', JStr (case intent of Some p \<Rightarrow> it_expires_at p | None \<Rightarrow> jr_at t))])"
    and "map_of env ''principal'' = Some (JObj [(''scheme'', JStr ''ed25519-kid''),
       (''identifier'', JStr (case intent of Some p \<Rightarrow> it_authority_kid p | None \<Rightarrow> ''unadmitted''))])"
  unfolding assms root_sealed by (simp_all add: seal_envelope_def envelope_members_def Let_def)

lemma envelope_parts:
  assumes "eee_intent prepared t = Some intent" "eee_decisions prepared t reason = Some (started, decisions)" "eee_output c bnd t reason = Some out"
    and "bnd = eee_binding records t" "prepared = eee_prepared bnd"
    and "reason = (case body_reason (jr_body t) of Some r \<Rightarrow> r | None \<Rightarrow> kind_name (jr_kind t))"
    and "\<And>r. prepared = Some r \<Longrightarrow> \<exists>b. jr_body r = Prepared_Body b"
  obtains commitment where "envelope_for c build records t ns sid sk kid = Some (seal_envelope c sid sk kid (jr_at t)
    (envelope_members c build ns sid t reason intent commitment started decisions out))"
proof (cases prepared)
  case None
  then show thesis using that [of None] assms(1-6) by (simp add: envelope_for_def)
next
  case (Some r)
  then obtain b where "jr_body r = Prepared_Body b" using assms(7) by blast
  then show thesis
    using that [of "Some (pb_payload_commitment b, ''journal:'' @ show_int (jr_seq t) @ '':'' @ jr_hash t)"] Some assms(1-6)
    by (simp add: envelope_for_def)
qed

text \<open>A closing record of an intent has the whole history of the intent before it.\<close>

lemma closing_binding:
  assumes inv: "home_inv co ns sid hist cur h" and ch: "chained c (hm_journal h)" and t: "t \<in> set (hm_journal h)"
    "jr_kind t \<in> {Kind FINALIZED, Kind ABORTED}"
  shows "eee_binding (hm_journal h) t = intent_binding (jr_intent_id t) (hm_journal h)" "eee_binding (hm_journal h) t \<noteq> []"
    "jr_kind t = Kind ABORTED \<Longrightarrow> applied (jr_intent_id t) (hm_store h) = None"
proof -
  let ?iid = "jr_intent_id t"
  define rs where "rs = intent_binding ?iid (hm_journal h)"
  have m: "t \<in> set rs" using t by (auto simp: rs_def intent_binding_def for_intent_def binding_kind_def)
  then have "rs \<noteq> []" by auto
  moreover have "intent_ok co ns sid hist cur ?iid rs" using inv by (simp add: home_inv_def rs_def)
  ultimately have k: "map jr_kind rs \<in> legal_kinds (?iid \<in> ids hist) (cur = Some ?iid)" unfolding intent_ok_def by auto
  note l = closing_record [OF k m t(2)]
  show e: "eee_binding (hm_journal h) t = intent_binding ?iid (hm_journal h)" using eee_binding_whole [OF ch rs_def [symmetric] l(1,2)] by (simp add: rs_def)
  show "eee_binding (hm_journal h) t \<noteq> []" using e l(1) by (simp add: rs_def)
  show "applied ?iid (hm_store h) = None" if "jr_kind t = Kind ABORTED"
    using l(3) [OF that] inv by (simp add: home_inv_def applied_store_of)
qed

lemma final_output:
  assumes inv: "home_inv co ns sid hist cur h" and r: "t \<in> set (hm_journal h)" "jr_kind t = Kind FINALIZED"
    and bnd: "bnd = intent_binding (jr_intent_id t) (hm_journal h)"
  obtains row where "applied (jr_intent_id t) (hm_store h) = Some row" "eee_output c bnd t reason = Some (ap_post_root row)"
proof -
  let ?iid = "jr_intent_id t" and ?c = "co_codec co"
  have m: "t \<in> set (intent_binding ?iid (hm_journal h))" using r by (simp add: intent_binding_def for_intent_def binding_kind_def)
  obtain h1 s h2 where h: "hist = h1 @ s # h2" "sid_of s = ?iid" "kinds ?iid (hm_journal h) \<in> legal_kinds True False"
    "admitted co (store_of ?c ns sid h1) s" "bodies_ok co ?iid s (store_of ?c ns sid h1) (intent_binding ?iid (hm_journal h))"
    by (rule finalized_facts [OF inv m r(2)])
  let ?post = "apply_intent ?c s (store_of ?c ns sid h1)"
  have "COMMITTED_RECORD \<in> set (map jr_kind bnd)" using h(3) by (auto simp: bnd kinds_binding)
  then have "find (\<lambda>r. jr_kind r = COMMITTED_RECORD) bnd \<noteq> None" by (auto simp: find_None_iff)
  then obtain cm where cm: "find (\<lambda>r. jr_kind r = COMMITTED_RECORD) bnd = Some cm" by blast
  then have "cm \<in> set bnd" "jr_kind cm = COMMITTED_RECORD" by (auto simp: find_Some_iff)
  then obtain b where "jr_body cm = Committed_Body (committed_for ?c s ?post b)" using h(5) by (auto simp: bodies_ok_def bnd)
  then have "eee_output c bnd t reason = Some (ap_post_root (last (st_applied ?post)))"
    using cm r(2) by (simp add: eee_output_def committed_for_def apply_intent_applied)
  then show thesis using that history_split(2) [OF inv h(1)] h(2) by simp
qed

lemma typed_precondition: "body_typed (Kind PRECONDITION_REJECTED) b \<Longrightarrow> \<exists>si. body_signed_intent b = Some si"
  by (cases b) simp_all

lemma terminal_envelope:
  assumes inv: "home_inv co ns sid hist cur h" and ch: "chained c (hm_journal h)" and wt: "well_typed (hm_journal h)"
    and t: "t \<in> set (hm_journal h)" "eee_terminal (jr_kind t)"
  obtains reason intent commitment started decisions out where
    "envelope_for c build (hm_journal h) t ns' sid' sk kid = Some (seal_envelope c sid' sk kid (jr_at t)
       (envelope_members c build ns' sid' t reason intent commitment started decisions out))"
    "eee_intent (eee_prepared (eee_binding (hm_journal h) t)) t = Some intent"
    "eee_output c (eee_binding (hm_journal h) t) t reason = Some out"
proof -
  define bnd where "bnd = eee_binding (hm_journal h) t"
  define reason where "reason = (case body_reason (jr_body t) of Some r \<Rightarrow> r | None \<Rightarrow> kind_name (jr_kind t))"
  have p: "(bnd = [] \<and> eee_prepared bnd = None) \<or> (\<exists>r b. eee_prepared bnd = Some r \<and> jr_body r = Prepared_Body b)"
    using eee_prepared_binding [OF inv ch, of t] unfolding bnd_def by blast
  have ty: "body_typed (jr_kind t) (jr_body t)" using wt t(1) by (auto simp: well_typed_def list_all_iff)
  have "\<exists>i. eee_intent (eee_prepared bnd) t = Some i"
    using p ty typed_precondition by (auto simp: eee_intent_def)
  then obtain intent where i: "eee_intent (eee_prepared bnd) t = Some intent" by blast
  have closing: "eee_prepared bnd \<noteq> None" if "jr_kind t \<in> {Kind FINALIZED, Kind ABORTED}"
    using p closing_binding(2) [OF inv ch t(1) that] by (auto simp: bnd_def)
  then have "eee_decisions (eee_prepared bnd) t reason \<noteq> None"
    using t(2) by (auto simp: eee_decisions_def eee_terminal_def Let_def split: option.split)
  then obtain started decisions where d: "eee_decisions (eee_prepared bnd) t reason = Some (started, decisions)" by auto
  have "\<exists>out. eee_output c bnd t reason = Some out"
  proof (cases "jr_kind t = Kind FINALIZED")
    case True
    have "bnd = intent_binding (jr_intent_id t) (hm_journal h)" using closing_binding(1) [OF inv ch t(1)] True by (simp add: bnd_def)
    then show ?thesis using final_output [OF inv t(1) True, of bnd c reason] by blast
  qed (simp add: eee_output_def)
  then obtain out where out: "eee_output c bnd t reason = Some out" by blast
  obtain commitment where e: "envelope_for c build (hm_journal h) t ns' sid' sk kid = Some (seal_envelope c sid' sk kid (jr_at t)
       (envelope_members c build ns' sid' t reason intent commitment started decisions out))"
    by (rule envelope_parts [OF i d out bnd_def refl reason_def]) (use p in auto)
  show thesis by (rule that [OF e]) (use i out in \<open>simp_all add: bnd_def\<close>)
qed

text \<open>
  What an envelope says of its terminal record and of the store: whose record it is, its own hash and
  the issuer's signature over that hash, and the effect.
\<close>

definition truthful_envelope :: "c1 \<Rightarrow> string \<Rightarrow> string \<Rightarrow> string \<Rightarrow> string \<Rightarrow> store \<Rightarrow> jrecord \<Rightarrow> envelope \<Rightarrow> bool" where
  "truthful_envelope c ns sid isk kid st t env \<longleftrightarrow>
     map_of env ''idempotency_key'' = Some (JStr (jr_intent_id t)) \<and>
     map_of env ''envelope_hash'' = Some (JStr (envelope_root c env)) \<and>
     map_of env ''signatures'' = Some (JArr [JObj [(''signer'', JStr (''urn:veklom:vdb-c1:'' @ sid @ ''#'' @ kid)), (''kid'', JStr kid),
       (''scheme'', JStr ''Ed25519''), (''value'', JStr (b64encode (c_sign c isk (envelope_root c env)))), (''signed_at'', JStr (jr_at t))]]) \<and>
     (if jr_kind t = Kind FINALIZED
      then \<exists>row. applied (jr_intent_id t) st = Some row \<and> map_of env ''status'' = Some (JStr ''completed'') \<and>
        map_of env ''actual_effects'' = Some (JArr [JStr (''state:upsert:'' @ ns)]) \<and>
        map_of env ''output_commitment'' = Some (JStr (ap_post_root row))
      else map_of env ''actual_effects'' = Some (JArr []) \<and>
        (if jr_kind t = Kind ABORTED then map_of env ''status'' = Some (JStr ''error'') \<and> applied (jr_intent_id t) st = None
         else map_of env ''status'' = Some (JStr ''denied'')))"

lemma envelope_true:
  assumes "reachable c ns sid sk keys trust h" "t \<in> set (hm_journal h)" "eee_terminal (jr_kind t)"
  shows "\<exists>env. envelope_for c build (hm_journal h) t ns sid isk kid = Some env \<and> truthful_envelope c ns sid isk kid (hm_store h) t env"
proof -
  define co where "co = coordinator_open c trust sk (\<lambda>_. 0)"
  obtain hist cur where inv: "home_inv co ns sid hist cur h" and ch: "chained c (hm_journal h)" and wt: "well_typed (hm_journal h)"
    using reachable_inv [OF assms(1)] unfolding co_def by blast
  obtain reason intent commitment started decisions out where
    e: "envelope_for c build (hm_journal h) t ns sid isk kid = Some (seal_envelope c sid isk kid (jr_at t)
       (envelope_members c build ns sid t reason intent commitment started decisions out))"
    and out: "eee_output c (eee_binding (hm_journal h) t) t reason = Some out"
    by (rule terminal_envelope [OF inv ch wt assms(2,3)])
  define env where "env = seal_envelope c sid isk kid (jr_at t) (envelope_members c build ns sid t reason intent commitment started decisions out)"
  have ee: "envelope_for c build (hm_journal h) t ns sid isk kid = Some env" using e by (simp add: env_def)
  note v = member_values [OF env_def]
  show ?thesis
  proof (cases "jr_kind t = Kind FINALIZED")
    case True
    have "eee_binding (hm_journal h) t = intent_binding (jr_intent_id t) (hm_journal h)" using closing_binding(1) [OF inv ch assms(2)] True by simp
    then obtain row where "applied (jr_intent_id t) (hm_store h) = Some row" "out = ap_post_root row"
      using final_output [OF inv assms(2) True, of _ c reason] out by auto
    then show ?thesis using ee v True by (simp add: eee_status_def truthful_envelope_def)
  next
    case False
    then show ?thesis using ee v closing_binding(3) [OF inv ch assms(2)] by (simp add: eee_status_def truthful_envelope_def)
  qed
qed

lemma those_all2: "\<forall>x \<in> set xs. \<exists>y. f x = Some y \<and> P x y \<Longrightarrow> \<exists>ys. those (map f xs) = Some ys \<and> list_all2 P xs ys"
  by (induction xs) fastforce+

lemma answer_true:
  assumes "reachable c ns sid sk keys trust h"
  shows "\<exists>envs. eee_answer c build h isk = Done envs \<and>
    list_all2 (truthful_envelope c ns sid isk (key_id c (c_public c isk)) (hm_store h)) (filter (\<lambda>r. eee_terminal (jr_kind r)) (hm_journal h)) envs"
proof -
  obtain hist cur where "home_inv (coordinator_open c trust sk (\<lambda>_. 0)) ns sid hist cur h" using reachable_inv [OF assms] by blast
  then have n: "st_namespace (hm_store h) = ns" "st_store_id (hm_store h) = sid" by (simp_all add: home_inv_def)
  have "\<exists>envs. envelopes_from_journal c build (hm_journal h) ns sid isk (key_id c (c_public c isk)) = Some envs \<and>
    list_all2 (truthful_envelope c ns sid isk (key_id c (c_public c isk)) (hm_store h)) (filter (\<lambda>r. eee_terminal (jr_kind r)) (hm_journal h)) envs"
    unfolding envelopes_from_journal_def by (rule those_all2) (use envelope_true [OF assms] in auto)
  then show ?thesis by (auto simp: eee_answer_def n)
qed

text \<open>
  C19. Envelopes are true: on every reachable home, crashed or not, asking for the envelopes with the issuer
  key that is published, or with none yet, answers with exactly one envelope per terminal record, in
  order; each names the intent, its hash is the root of its own members and the issuer key signed
  that hash. The envelope of a FINALIZED record says completed, lists the one write as its effect and
  commits to the state root of the row the store holds for the intent; that of an ABORTED record says
  error and the intent has no effect in the store; a denial lists no effect. The issuer key is then
  published, and asking again gives the same envelopes.
\<close>

theorem envelope_truthful:
  assumes "reachable c ns sid sk keys trust h" and n: "2 \<le> n"
    and t: "t = trust\<lparr>tr_eee_issuer_keys := ks\<rparr>"
    and published: "\<forall>k. key = Some k \<longrightarrow> ks (key_id c (c_public c k)) = Some (b64encode (c_public c k))"
    and isk: "isk = (case key of Some k \<Rightarrow> k | None \<Rightarrow> fresh)" and kid: "kid = key_id c (c_public c isk)"
  shows "\<exists>t' n' envs. eee_envelopes c build fresh h key t n = (Some isk, t', n', Done envs) \<and>
    tr_eee_issuer_keys t' kid = Some (b64encode (c_public c isk)) \<and>
    list_all2 (truthful_envelope c ns sid isk kid (hm_store h)) (filter (\<lambda>r. eee_terminal (jr_kind r)) (hm_journal h)) envs \<and>
    eee_envelopes c build fresh' h (Some isk) t' n' = (Some isk, t', n', Done envs)"
proof -
  obtain envs where e: "eee_answer c build h isk = Done envs"
    "list_all2 (truthful_envelope c ns sid isk kid (hm_store h)) (filter (\<lambda>r. eee_terminal (jr_kind r)) (hm_journal h)) envs"
    using answer_true [OF assms(1)] unfolding kid by blast
  obtain m where m: "n = Suc (Suc m)" using n by (metis add_2_eq_Suc le_Suc_ex)
  show ?thesis using e published unfolding t isk kid m by (cases key) (auto simp: eee_envelopes_def publish_issuer_def)
qed

text \<open>
  The authority an envelope names: the window and the key of an intent, or, with no intent, the
  zero-length window at the decision.
\<close>

definition names_authority :: "envelope \<Rightarrow> string \<Rightarrow> string \<Rightarrow> string \<Rightarrow> bool" where
  "names_authority env kid not_before not_after \<longleftrightarrow>
     map_of env ''principal'' = Some (JObj [(''scheme'', JStr ''ed25519-kid''), (''identifier'', JStr kid)]) \<and>
     map_of env ''authority_window'' = Some (JObj [(''not_before'', JStr not_before), (''not_after'', JStr not_after)])"

abbreviation names_intent :: "envelope \<Rightarrow> intent \<Rightarrow> bool" where
  "names_intent env p \<equiv> names_authority env (it_authority_kid p) (it_issued_at p) (it_expires_at p)"

text \<open>
  C40. The authority an envelope names: the envelope of a FINALIZED or ABORTED record carries the window and
  the authority of the intent its identifier was prepared with. When no intent was prepared under the
  identifier before the record, a precondition rejection carries its own intent's, and an admission
  rejection, which established no authority, the zero-length window at the decision and the principal
  unadmitted.
\<close>

theorem envelope_authority:
  assumes "reachable c ns sid sk keys trust h" "t \<in> set (hm_journal h)" "eee_terminal (jr_kind t)"
  shows "\<exists>env. envelope_for c build (hm_journal h) t ns sid isk kid = Some env \<and>
    (jr_kind t \<in> {Kind FINALIZED, Kind ABORTED} \<longrightarrow>
       (\<exists>b. jr_body (hd (intent_binding (jr_intent_id t) (hm_journal h))) = Prepared_Body b \<and> names_intent env (sg_payload (pb_signed_intent b)))) \<and>
    (eee_binding (hm_journal h) t = [] \<longrightarrow>
       (jr_kind t = Kind PRECONDITION_REJECTED \<longrightarrow> (\<exists>si. body_signed_intent (jr_body t) = Some si \<and> names_intent env (sg_payload si))) \<and>
       (jr_kind t = Kind ADMISSION_REJECTED \<longrightarrow> names_authority env ''unadmitted'' (jr_at t) (jr_at t)))"
proof -
  define co where "co = coordinator_open c trust sk (\<lambda>_. 0)"
  obtain hist cur where inv: "home_inv co ns sid hist cur h" and ch: "chained c (hm_journal h)" and wt: "well_typed (hm_journal h)"
    using reachable_inv [OF assms(1)] unfolding co_def by blast
  obtain reason intent commitment started decisions out where
    e: "envelope_for c build (hm_journal h) t ns sid isk kid = Some (seal_envelope c sid isk kid (jr_at t)
       (envelope_members c build ns sid t reason intent commitment started decisions out))"
    and i: "eee_intent (eee_prepared (eee_binding (hm_journal h) t)) t = Some intent"
    by (rule terminal_envelope [OF inv ch wt assms(2,3)])
  define env where "env = seal_envelope c sid isk kid (jr_at t) (envelope_members c build ns sid t reason intent commitment started decisions out)"
  have ee: "envelope_for c build (hm_journal h) t ns sid isk kid = Some env" using e by (simp add: env_def)
  have na: "names_authority env (case intent of Some p \<Rightarrow> it_authority_kid p | None \<Rightarrow> ''unadmitted'')
    (case intent of Some p \<Rightarrow> it_issued_at p | None \<Rightarrow> jr_at t) (case intent of Some p \<Rightarrow> it_expires_at p | None \<Rightarrow> jr_at t)"
    using member_values(7,8) [OF env_def] by (simp add: names_authority_def)
  have closing: "\<exists>b. jr_body (hd (intent_binding (jr_intent_id t) (hm_journal h))) = Prepared_Body b \<and> names_intent env (sg_payload (pb_signed_intent b))"
    if k: "jr_kind t \<in> {Kind FINALIZED, Kind ABORTED}"
  proof -
    note cb = closing_binding(1,2) [OF inv ch assms(2) k]
    then obtain b where "jr_kind (hd (eee_binding (hm_journal h) t)) = Kind PREPARED" "jr_body (hd (eee_binding (hm_journal h) t)) = Prepared_Body b"
      using first_prepared [OF inv refl, of "jr_intent_id t"] by metis
    then show ?thesis using i na cb by (auto simp: eee_prepared_def eee_intent_def)
  qed
  have "body_typed (jr_kind t) (jr_body t)" using wt assms(2) by (auto simp: well_typed_def list_all_iff)
  then show ?thesis using ee closing i na typed_precondition [of "jr_body t"]
    by (auto simp: eee_prepared_def eee_intent_def)
qed

subsection \<open>A finalized intent and a conflicting one\<close>

definition conflicting :: submission where
  "conflicting = \<lparr>sb_signed = \<lparr>sg_alg = ''Ed25519'', sg_kid = ''nobody'', sg_payload = Other (Some (sid_of sample_signed)) None, sg_sig = []\<rparr>,
     sb_exact = False\<rparr>"

lemma sample_id_known: "sid_of sample_signed \<noteq> ''unknown''"
  by (simp add: sample_signed_def make_intent_def canon_sign_def)

lemma sample_conflict:
  obtains h t r rest where "reachable sample_c1 ''ns'' ''store'' ''finalizer'' sample_keys sample_trust h" "t \<in> set (hm_journal h)"
    "jr_kind t = Kind ADMISSION_REJECTED" "eee_binding (hm_journal h) t = r # rest"
proof -
  let ?iid = "sid_of sample_signed" and ?co = sample_coordinator
  obtain h n' res cert where x: "submit ?co sample_submission sample_home 5 = (h, n', Done res)"
    "map jr_kind (hm_journal h) = [Kind PREPARED, Kind COMMITTING, COMMITTED_RECORD, Kind FINALIZED]"
    "map jr_intent_id (hm_journal h) = replicate 4 ?iid"
    "jr_body (hm_journal h ! 0) = Prepared_Body (prepared_for sample_c1 sample_signed (store_create ''ns'' ''store'') (format_time 1000000))"
    by (rule sample_run)
  obtain r1 r2 r3 r4 where j: "hm_journal h = [r1, r2, r3, r4]" using x(2) by auto
  have k: "jr_kind r1 = Kind PREPARED" "jr_kind r2 = Kind COMMITTING" "jr_kind r3 = COMMITTED_RECORD" "jr_kind r4 = Kind FINALIZED"
    "jr_intent_id r1 = ?iid" "jr_intent_id r2 = ?iid" "jr_intent_id r3 = ?iid" "jr_intent_id r4 = ?iid"
    using x(2,3) j by (simp_all add: numeral_eq_Suc)
  have b: "intent_binding ?iid (hm_journal h) = [r1, r2, r3, r4]" using k j by (simp add: intent_binding_def for_intent_def binding_kind_def)
  have reach: "reachable sample_c1 ''ns'' ''store'' ''finalizer'' sample_keys sample_trust h"
    by (rule reachable.submitted [OF sample_reachable x(1)[unfolded sample_coordinator_def]])
  have "recover ?co h 1 = (h, 1, Done [])"
    using k j b by (simp add: recover_def prepared_ids_def kinds_def state_after_def Let_def ret_def)
  define t where "t = new_record sample_c1 (Kind ADMISSION_REJECTED) ?iid (Admission_Body None ''E_INTENT_CONFLICT'') (format_time 1000000) (hm_journal h)"
  define h' where "h' = h\<lparr>hm_journal := hm_journal h @ [t]\<rparr>"
  have "\<exists>n' r. submit ?co conflicting h 1 = (h', n', r)"
    using \<open>recover ?co h 1 = (h, 1, Done [])\<close> x(4) b sample_id_known
    by (simp add: submit_def and_then_def submit_locked_def conflicting_def j reject_def c1_append_def binding_kind_def durable_def h'_def t_def
        sample_coordinator_def sample_clock_def Let_def ret_def)
  then have "reachable sample_c1 ''ns'' ''store'' ''finalizer'' sample_keys sample_trust h'"
    using reachable.submitted [OF reach] unfolding sample_coordinator_def by blast
  moreover have "chained sample_c1 [r1, r2, r3, r4]" using reachable_inv [OF reach] j by auto
  then have "chain_ok sample_c1 0 (last_hash []) r1" unfolding chained_def by (auto dest: spec [of _ 0])
  then have "jr_seq r1 = 0" by (simp add: chain_ok_def)
  then have "jr_seq r1 \<le> jr_seq t" using j by (simp add: t_def new_record_def Let_def)
  then have "eee_binding (hm_journal h') t = r1 # filter (\<lambda>r. jr_intent_id r = ?iid \<and> jr_seq r \<le> jr_seq t \<and> binding_kind (jr_kind r)) [r2, r3, r4, t]"
    using k j by (simp add: eee_binding_def h'_def t_def new_record_def Let_def binding_kind_def)
  moreover have "t \<in> set (hm_journal h')" "jr_kind t = Kind ADMISSION_REJECTED" by (simp_all add: h'_def t_def new_record_def Let_def)
  ultimately show thesis using that by blast
qed

text \<open>
  A later submission under a prepared identifier is denied, and its envelope carries the window and the
  authority of the intent prepared before: an admission rejection does not always have the
  zero-length window.
\<close>

lemma denial_borrows_authority:
  "\<exists>h t b env. reachable sample_c1 ''ns'' ''store'' ''finalizer'' sample_keys sample_trust h \<and> t \<in> set (hm_journal h) \<and>
    jr_kind t = Kind ADMISSION_REJECTED \<and> envelope_for sample_c1 ''build'' (hm_journal h) t ''ns'' ''store'' ''issuer'' ''kid'' = Some env \<and>
    jr_body (hd (intent_binding (jr_intent_id t) (hm_journal h))) = Prepared_Body b \<and> names_intent env (sg_payload (pb_signed_intent b))"
proof -
  obtain h t r rest where x: "reachable sample_c1 ''ns'' ''store'' ''finalizer'' sample_keys sample_trust h" "t \<in> set (hm_journal h)"
    "jr_kind t = Kind ADMISSION_REJECTED" "eee_binding (hm_journal h) t = r # rest" by (rule sample_conflict)
  obtain hist cur where inv: "home_inv (coordinator_open sample_c1 sample_trust ''finalizer'' (\<lambda>_. 0)) ''ns'' ''store'' hist cur h"
    and ch: "chained sample_c1 (hm_journal h)" and wt: "well_typed (hm_journal h)" using reachable_inv [OF x(1)] by blast
  have tm: "eee_terminal (jr_kind t)" using x(3) by (simp add: eee_terminal_def)
  obtain reason intent commitment started decisions out where
    e: "envelope_for sample_c1 ''build'' (hm_journal h) t ''ns'' ''store'' ''issuer'' ''kid'' = Some (seal_envelope sample_c1 ''store'' ''issuer'' ''kid'' (jr_at t)
       (envelope_members sample_c1 ''build'' ''ns'' ''store'' t reason intent commitment started decisions out))"
    and i: "eee_intent (eee_prepared (eee_binding (hm_journal h) t)) t = Some intent"
    by (rule terminal_envelope [OF inv ch wt x(2) tm])
  obtain b where b: "eee_prepared (eee_binding (hm_journal h) t) = Some r" "jr_body r = Prepared_Body b"
    using eee_prepared_binding [OF inv ch, of t] x(4) by (auto simp: eee_prepared_def split: if_splits)
  have "hd (intent_binding (jr_intent_id t) (hm_journal h)) = r"
    using x(4) unfolding eee_binding_prefix [OF ch] by (cases "intent_binding (jr_intent_id t) (hm_journal h)") (auto split: if_splits)
  then show ?thesis using x e i b member_values(7,8) [OF refl]
    by (intro exI [of _ h] exI [of _ t] exI [of _ b] exI) (auto simp: names_authority_def eee_intent_def)
qed

lemma sample_final:
  obtains h t where "reachable sample_c1 ''ns'' ''store'' ''finalizer'' sample_keys sample_trust h" "t \<in> set (hm_journal h)"
    "jr_kind t = Kind FINALIZED"
proof -
  obtain h n' res cert where x: "submit sample_coordinator sample_submission sample_home 5 = (h, n', Done res)"
    "map jr_kind (hm_journal h) = [Kind PREPARED, Kind COMMITTING, COMMITTED_RECORD, Kind FINALIZED]" by (rule sample_run)
  have "Kind FINALIZED \<in> set (map jr_kind (hm_journal h))" unfolding x(2) by simp
  moreover have "reachable sample_c1 ''ns'' ''store'' ''finalizer'' sample_keys sample_trust h"
    by (rule reachable.submitted [OF sample_reachable x(1)[unfolded sample_coordinator_def]])
  ultimately show thesis using that by auto
qed

theorem envelope_authority_witness:
  "\<exists>h t b env. reachable sample_c1 ''ns'' ''store'' ''finalizer'' sample_keys sample_trust h \<and> t \<in> set (hm_journal h) \<and>
    envelope_for sample_c1 ''build'' (hm_journal h) t ''ns'' ''store'' ''issuer'' ''kid'' = Some env \<and>
    jr_body (hd (intent_binding (jr_intent_id t) (hm_journal h))) = Prepared_Body b \<and> names_intent env (sg_payload (pb_signed_intent b))"
proof -
  obtain h t where x: "reachable sample_c1 ''ns'' ''store'' ''finalizer'' sample_keys sample_trust h" "t \<in> set (hm_journal h)"
    "jr_kind t = Kind FINALIZED" by (rule sample_final)
  have "eee_terminal (jr_kind t)" using x(3) by (simp add: eee_terminal_def)
  then show ?thesis using envelope_authority [OF x(1,2), of "''build''" "''issuer''" "''kid''"] x by auto
qed

theorem envelope_truthful_witness:
  "\<exists>h t t' n' envs env. reachable sample_c1 ''ns'' ''store'' ''finalizer'' sample_keys sample_trust h \<and> t \<in> set (hm_journal h) \<and>
    jr_kind t = Kind FINALIZED \<and> eee_envelopes sample_c1 ''build'' ''issuer'' h None sample_trust 2 = (Some ''issuer'', t', n', Done envs) \<and>
    env \<in> set envs \<and> map_of env ''status'' = Some (JStr ''completed'') \<and>
    tr_eee_issuer_keys t' (key_id sample_c1 (c_public sample_c1 ''issuer'')) \<noteq> None"
proof -
  obtain h t where x: "reachable sample_c1 ''ns'' ''store'' ''finalizer'' sample_keys sample_trust h" "t \<in> set (hm_journal h)"
    "jr_kind t = Kind FINALIZED" by (rule sample_final)
  have tr: "sample_trust = sample_trust\<lparr>tr_eee_issuer_keys := tr_eee_issuer_keys sample_trust\<rparr>" by simp
  obtain t' n' envs where e: "eee_envelopes sample_c1 ''build'' ''issuer'' h None sample_trust 2 = (Some ''issuer'', t', n', Done envs)"
    "tr_eee_issuer_keys t' (key_id sample_c1 (c_public sample_c1 ''issuer'')) = Some (b64encode (c_public sample_c1 ''issuer''))"
    and l: "list_all2 (truthful_envelope sample_c1 ''ns'' ''store'' ''issuer'' (key_id sample_c1 (c_public sample_c1 ''issuer'')) (hm_store h))
      (filter (\<lambda>r. eee_terminal (jr_kind r)) (hm_journal h)) envs"
    using envelope_truthful [OF x(1) order.refl tr, of None "''issuer''" "''issuer''" "key_id sample_c1 (c_public sample_c1 ''issuer'')" "''build''" "''other''"] by auto
  have "t \<in> set (filter (\<lambda>r. eee_terminal (jr_kind r)) (hm_journal h))" using x by (simp add: eee_terminal_def)
  then obtain i where i: "i < length (filter (\<lambda>r. eee_terminal (jr_kind r)) (hm_journal h))" "filter (\<lambda>r. eee_terminal (jr_kind r)) (hm_journal h) ! i = t"
    by (meson in_set_conv_nth)
  then have "envs ! i \<in> set envs" "map_of (envs ! i) ''status'' = Some (JStr ''completed'')"
    using l x(3) by (auto simp: list_all2_conv_all_nth truthful_envelope_def)
  then show ?thesis using x e by (intro exI [of _ h] exI [of _ t] exI [of _ t'] exI [of _ n'] exI [of _ envs] exI [of _ "envs ! i"]) simp
qed

end
