(* ===== verification/Spec2Isabelle.thy ===== *)
theory Spec2Isabelle
  imports Prelude Canonical Receipt Consequence Lease Merkle Ledger Effects Permits Mount_Engine
    Evidence Biscuit Mount_Store Mount_Lifecycle Mount_Decide Mount_System Mount_Guarantees
    Mount_Execute Mount_Dispatch Mount_Requests Vdb_Store Vdb_Coordinator Vdb_Recovery Vdb_Ledger Vdb_Guarantees Vdb_Verify Vdb_Witness Vdb_Eee
begin

text \<open>
  Verification of the governed-execution core of the cappo backend. Paths are relative to
  \<open>src/\<close>; those without a leading directory are under \<open>src/cappo_backend/\<close>.

  \<^bold>\<open>The program.\<close> Two systems are modelled.

  The \<^emph>\<open>mount service\<close> (\<open>capability_mount/service.py\<close>, class \<open>MountRegistry\<close>) lends capabilities. A caller
  requests a mount of a registered package and receives a token that can be used once; an evaluation
  with that token checks owner, liveness, nonce, lease, signed Biscuit token, package, profile and
  evidence, anchors its decision in a ledger and writes one receipt into a Merkle log. A request
  (\<open>execute_consequence\<close>) evaluates, appends an AUTHORIZED event, claims the start of the operation
  under the row lock of the mount, calls the target once with a permit, reports the outcome and ends
  the mount. Terminations, epoch advances and handovers fence what has not started.

  \<^emph>\<open>VDB-C1\<close> (\<open>src/vdb_c1/\<close>) commits signed intents to a key-value store. A coordinator admits an intent,
  journals every step in a hash-chained file, applies the effect in one SQLite transaction, confirms it
  by a fresh read and signs a finality certificate; after a crash it recovers from journal and store.
  An offline verifier checks exported bundles, a witness countersigns journal heads, and evidence
  envelopes are derived from the journal.

  \<^bold>\<open>Theories and sources.\<close> Definitions keep the names of the source where they can; a record is a class
  or a table row, an operation is one definition that takes the state and returns the new one.

  \<^item> \<open>Prelude\<close>: shared types, Python string and option idioms, list lemmas, named collections.
  \<^item> \<open>Canonical\<close>: \<open>services/canonical.py\<close>. JSON values, their canonical text and digest; the text determines
    the dictionary.
  \<^item> \<open>Receipt\<close>: \<open>models/capability_action_receipt.py\<close> and \<open>security/merkle_ops.py\<close>. The receipt row, its
    canonical forms and the leaf order.
  \<^item> \<open>Merkle\<close>: \<open>security/merkle.py\<close>. RFC 6962 tree, inclusion and consistency proofs, and that their
    verifiers accept exactly the true ones.
  \<^item> \<open>Ledger\<close>: \<open>services/audit_service.py\<close>, \<open>services/ledger_verifier.py\<close> and their rows. Hash chains, the
    append and the two verifiers; the locale of hash-linked rows is interpreted on both tables.
  \<^item> \<open>Consequence\<close>: \<open>models/consequence_execution.py\<close>, \<open>services/consequence_lifecycle.py\<close>. The append-only
    event table with its unique keys, the recorder and the executor; concurrent writers read an earlier
    state of the table. The locale \<open>event_writer\<close> holds what every writer of the table keeps.
  \<^item> \<open>Lease\<close>: \<open>models/capability_lease.py\<close>. The resource algebra, effective authority, attenuation, states.
  \<^item> \<open>Effects\<close>, \<open>Permits\<close>: \<open>capability_mount/effects.py\<close>, \<open>permits.py\<close>, \<open>envelope.py\<close>. The targets, permits
    and operation envelopes.
  \<^item> \<open>Mount_Engine\<close>: \<open>capability_mount/models.py\<close> and \<open>engine.py\<close>. Packages, mounting, the capability
    profile, the execution binding and the governed call.
  \<^item> \<open>Evidence\<close>, \<open>Biscuit\<close>: \<open>services/mount_evidence.py\<close>, \<open>security/biscuit.py\<close>. Evidence tokens; the program
    a mint writes, extraction, revocation.
  \<^item> \<open>Mount_Store\<close>, \<open>Mount_Lifecycle\<close>, \<open>Mount_Decide\<close>, \<open>Mount_Execute\<close>: the mount service. The tables, the audit
    sink and the anchors (\<open>services/mount_pgl.py\<close>); the consequence callbacks, claims, terminations, epochs,
    handovers and redemptions; \<open>request_mount\<close> and \<open>evaluate\<close>; \<open>execute_consequence\<close> as a whole.
  \<^item> \<open>Mount_System\<close>: the service as the step relation \<open>mount_step\<close>, one rule per transaction, with the
    invariant \<open>tables_ok\<close> and the order \<open>tables_le\<close> that every step respects; the locale \<open>mount_store\<close>.
    The properties of runs: single use, the termination fence, legal histories, redemption, stale epochs.
  \<^item> \<open>Mount_Guarantees\<close>: what an allowed evaluation has checked, failing closed, what a termination reports,
    that a fresh mount can be used.
  \<^item> \<open>Mount_Dispatch\<close>, \<open>Mount_Requests\<close>: what a request has done when it dispatches, dispatch at most once,
    completion, and what a replayed token does to its mount.
  \<^item> \<open>Vdb_Store\<close>: \<open>vdb_c1/canon.py\<close>, \<open>states.py\<close>, \<open>journal.py\<close>, \<open>state_adapter.py\<close>. Signed objects, the replay
    of journal kinds, the journal as records and as file bytes, the store.
  \<^item> \<open>Vdb_Coordinator\<close>: \<open>vdb_c1/coordinator.py\<close>. A run takes the home and the number of durable writes it
    may still make; when they are used up it has crashed.
  \<^item> \<open>Vdb_Recovery\<close>, \<open>Vdb_Ledger\<close>, \<open>Vdb_Guarantees\<close>: the invariant \<open>home_inv\<close> of every reachable home, the abstract
    ledger, and that submissions refine it, recovery settles and submissions are answered.
  \<^item> \<open>Vdb_Verify\<close>: \<open>vdb_c1/verify.py\<close> and \<open>witness.py\<close>. What an accepted bundle proves, the verdict on an
    exported bundle, agreement of the replay with the verifier's paths.
  \<^item> \<open>Vdb_Witness\<close>, \<open>Vdb_Eee\<close>: the journal file, the witness that only goes forward, and the envelopes of
    \<open>vdb_c1/eee.py\<close> with \<open>Coordinator.eee_envelopes\<close>.

  The last section of this theory joins the service and the Merkle tree: the receipt log is a
  transparency log.

  \<^bold>\<open>Parameters.\<close> Code outside the repository is an argument: SHA-256, HMAC and Ed25519, RFC 8785 and
  \<open>json.loads\<close>, the Biscuit library, the HTTP answer of the remote ledger, clocks and identifiers drawn at
  random. What a property needs of them (no collision among the values at hand, decoding inverts
  encoding) is a hypothesis of that property, and its witness instantiates the parameter. Each
  transaction has clock readings and identifiers of its own.

  \<^bold>\<open>Bounds.\<close> Every loop of the source is structural here except the walk of the ledger verifier, which has
  fuel: the number of rows plus one is enough when no two rows share a hash, and without that
  condition the source loop may not end. The VDB-C1 runs have a budget of durable writes: three are enough
  for a recovery, five for a submission to a settled home, eight for any submission. Integers beyond
  \<open>2^53 - 1\<close> have no canonical encoding, and the model raises as the source does. A recorder history
  has at most three rows.

  \<^bold>\<open>Not modelled.\<close> HTTP routers and middleware, the targets that call remote services, forwarding of audit
  events to the remote ledger, third-party block attenuation of Biscuit tokens, key files other than the
  envelope issuer's, the command line, and the other subsystems of the repository (orchestration,
  payments, the P5 engine, the n8n support, the VRE runtimes). Strings are sequences of bytes: the UTF-8
  encodings of the program's strings, so text with lone surrogates has no model. The row a termination at
  the end of a request reads is the row it commits. A Merkle tree size is a natural number. JSON has no
  NaN. The \<open>updated_at\<close> stamp of a lease transition is left out. Constant-time comparison is
  equality.
\<close>

section \<open>The public log of receipts\<close>

text \<open>
  C17. The Merkle tree over the receipts is a transparency log: along every run of the service from a
  state that has logged a receipt, the sequence of signed receipts only extends, so a root published
  then and a root published later are related by the consistency proof the tree produces, and its
  verifier accepts that proof. For an empty earlier log the tree answers with the empty proof, which
  its verifier refuses.
\<close>

theorem receipt_log_consistent:
  assumes "tables_ok a" "mount_step\<^sup>*\<^sup>* a b"
    and "la = get_merkle_ordered_cose_bytes (tb_receipts a)" "la \<noteq> []"
    and "lb = get_merkle_ordered_cose_bytes (tb_receipts b)"
  shows "\<exists>zs path r1 r2. lb = la @ zs \<and> tree_root sha la None = Inr r1 \<and> tree_root sha lb None = Inr r2 \<and>
    consistency_proof sha lb (length la) None = Inr path \<and>
    verify_consistency_proof sha (length la) (length lb) r1 r2 path"
proof -
  obtain zs where zs: "lb = la @ zs" using run_log_extends [OF assms(1,2)] assms(3,5) by blast
  let ?r1 = "merkle_hash sha la 0 (length la)" and ?r2 = "merkle_hash sha lb 0 (length lb)"
  have r: "tree_root sha la None = Inr ?r1" "tree_root sha lb None = Inr ?r2" by (simp_all add: tree_root_def)
  have r1: "merkle_hash sha lb 0 (length la) = ?r1" unfolding zs by (rule merkle_hash_append) simp
  show ?thesis
  proof (cases "zs = []")
    case True
    then have "consistency_proof sha lb (length la) None = Inr []"
      "verify_consistency_proof sha (length la) (length lb) ?r1 ?r2 []"
      by (simp_all add: zs consistency_proof_def verify_consistency_proof_def)
    with zs r show ?thesis by blast
  next
    case False
    let ?p = "merkle_subproof sha lb (length la) 0 (length lb) True"
    have "consistency_proof sha lb (length la) None = Inr ?p"
      using False assms(4) by (simp add: zs consistency_proof_def)
    moreover have "verify_subproof sha (length la) 0 (length lb) True ?p ?r1 = Some ((?r1, ?r2), [])"
      using verify_subproof_complete [of "length la" "length lb" True ?r1 sha lb 0 "[]"] assms(4) r1 zs by simp
    then have "verify_consistency_proof sha (length la) (length lb) ?r1 ?r2 ?p"
      using False assms(4) by (simp add: zs verify_consistency_proof_def)
    ultimately show ?thesis using zs r by blast
  qed
qed

definition logged_receipt :: receipt where
  "logged_receipt = (new_receipt sample_world sample_row sample_action \<lparr>an_status = ''confirmed'', an_anchor_id = Some ''a'',
     an_detail = None, an_external_ref = None\<rparr>)\<lparr>ar_merkle_leaf_index := Some 0, ar_token_id := ''tok_old''\<rparr>"

lemma logged_receipt_fields:
  "ar_merkle_leaf_index logged_receipt = Some 0" "ar_signed_receipt_cose logged_receipt \<noteq> None"
  "ar_receipt_id logged_receipt = ''rcpt_a''" "ar_token_id logged_receipt = ''tok_old''"
  by (simp_all add: logged_receipt_def new_receipt_def Let_def or_str_def)

definition logged_tables :: tables where
  "logged_tables = sample_tables\<lparr>tb_receipts := [logged_receipt], tb_merkle_next := Some 1\<rparr>"

lemma logged_ok: "tables_ok logged_tables"
  using sample_tables_ok logged_receipt_fields
  by (simp add: tables_ok_def sample_tables_def log_ok_def leaves_ok_def allow_receipts_def logged_tables_def)

text \<open>An allowed evaluation adds the second leaf.\<close>

lemma logged_allow:
  obtains tb' cur ans rc where "evaluate sample_world {} sample_action logged_tables = (tb', cur, ans)"
    "tb_receipts tb' = [logged_receipt, rc]" "ar_merkle_leaf_index rc \<noteq> None" "ar_signed_receipt_cose rc \<noteq> None"
proof -
  let ?r = "\<lparr>an_status = ''confirmed'', an_anchor_id = Some ''action_decision'', an_detail = Some ''local-confirmed'',
     an_external_ref = None\<rparr>"
  let ?q = sample_action and ?w = sample_world
  have row: "row_of (qa_mount_id ?q) logged_tables = Some sample_row"
    using sample_row_of by (simp add: row_of_def logged_tables_def sample_action_def)
  have own: "owned_by sample_row (qa_owner_principal ?q) (qa_owner_workspace ?q)" using sample_owned by (simp add: sample_action_def)
  have rr: "row_refusal ?w sample_row ?q logged_tables = None" "lease_refusal ?w sample_row ?q logged_tables = None"
    using logged_receipt_fields(4)
    by (simp_all add: row_refusal_def lease_refusal_def lease_of_def sample_world_def sample_action_def sample_row_def
      sample_tables_def logged_tables_def)
  have pd: "profile_decision ?w {} sample_row ?q logged_tables = (row_binding sample_row, Inr [])"
    by (simp add: profile_decision_def Let_def check_live_def row_binding_def new_binding_def sample_row_def sample_action_def
      sample_token_def profile_allows_def is_mount_revoked_def row_token_def profile_covers_resource_def gate_evidence_def
      sample_world_def)
  have g: "lease_gate ?w ?q (Inr []) (sink_new ?w 13 sample_row (row_binding sample_row) (row_binding sample_row) logged_tables) =
      (logged_tables, Inr [])"
    by (simp add: lease_gate_def sink_new_def lease_of_def logged_tables_def sample_tables_def sample_action_def)
  have c: "call_anchor ?w 0 (decision_request ''action_decision'' (qa_action ?q) ALLOW ''allowed'' (Some (mr_mount sample_row))
      (Some (row_token sample_row))) logged_tables = (logged_tables, ?r)"
    by (simp add: call_anchor_def sample_world_def local_confirmed_anchor_def decision_request_def)
  have "ar_receipt_id (new_receipt ?w sample_row ?q ?r) \<notin> ar_receipt_id ` set (tb_receipts logged_tables)"
    using logged_receipt_fields(3) by (simp add: logged_tables_def new_receipt_def Let_def or_str_def)
  then obtain tb' rc where k: "allow_commit ?w sample_row ?q [] ?r logged_tables = Some (tb', rc)"
    using allow_commit_total [of ?w ?q "[]" logged_tables "tb_consumed logged_tables" sample_row ?r 1] by (auto simp: logged_tables_def)
  have "anchored ?r" by (simp add: anchored_def)
  from evaluate_allows [OF row own rr pd g c this k]
  obtain cur ans where e: "evaluate ?w {} ?q logged_tables = (tb', cur, ans)" by blast
  obtain cs nxt where m: "assign_merkle_leaf_index (tb_merkle_next logged_tables) (new_receipt ?w sample_row ?q ?r) = Some (rc, nxt)"
    "tb' = (set_row (sample_row\<lparr>mr_nonce_consumed := True\<rparr>) logged_tables)\<lparr>tb_consumed := cs,
       tb_receipts := tb_receipts logged_tables @ [rc], tb_merkle_next := nxt\<rparr>"
    using k by (rule allow_commit_Some)
  have "ar_signed_receipt_cose (new_receipt ?w sample_row ?q ?r) = Some ''cose''"
    by (simp add: new_receipt_def Let_def sample_world_def)
  then have "ar_merkle_leaf_index rc \<noteq> None" "ar_signed_receipt_cose rc \<noteq> None"
    using m(1) by (auto simp: assign_merkle_leaf_index_def logged_tables_def Let_def split: if_splits)
  then show thesis using that [OF e, of rc] m(2) by (simp add: logged_tables_def)
qed

theorem receipt_log_consistent_witness:
  "\<exists>b path r1 r2. mount_step logged_tables b \<and> verify_consistency_proof (\<lambda>s. s) 1 2 r1 r2 path"
proof -
  obtain b cur ans rc where e: "evaluate sample_world {} sample_action logged_tables = (b, cur, ans)"
    and rc: "tb_receipts b = [logged_receipt, rc]" "ar_merkle_leaf_index rc \<noteq> None" "ar_signed_receipt_cose rc \<noteq> None"
    by (rule logged_allow)
  have s: "mount_step logged_tables b" by (rule step_evaluate [OF e])
  have l: "length (get_merkle_ordered_cose_bytes (tb_receipts logged_tables)) = 1" "length (get_merkle_ordered_cose_bytes (tb_receipts b)) = 2"
    using logged_receipt_fields rc(2,3) by (simp_all add: rc get_merkle_ordered_cose_bytes_def logged_tables_def)
  then have "get_merkle_ordered_cose_bytes (tb_receipts logged_tables) \<noteq> []" by fastforce
  from receipt_log_consistent [OF logged_ok r_into_rtranclp [of mount_step, OF s] refl this refl, of "\<lambda>s. s"] l
  have "\<exists>path r1 r2. verify_consistency_proof (\<lambda>s. s) 1 2 r1 r2 path" by auto
  with s show ?thesis by blast
qed

end
